(* ===== verification/Go_Prelude.thy ===== *)
theory Go_Prelude
  imports Main "HOL-Library.Word"
begin

text \<open>
  The part of Go and of its standard library that the services use everywhere: byte strings and
  the functions of package \<open>strings\<close>, decimal integers of package \<open>strconv\<close>, machine integers as
  words, and the collections of simplification facts the component theories share.

  A Go \<open>string\<close> is a sequence of bytes; HOL's \<open>string\<close> is a list of 8-bit characters, which is
  exactly that, so \<open>len(s)\<close> is \<open>length s\<close> and a Unicode rune is the list of its UTF-8 bytes.
  Times are counted in nanoseconds since the Unix epoch, as an \<open>int\<close>.
\<close>

named_theorems go_strings \<open>evaluation of the string functions\<close>
named_theorems go_ints \<open>evaluation of integer parsing and printing\<close>

abbreviation isr :: "'a + 'b \<Rightarrow> bool" where
  "isr r \<equiv> \<not> isl r"

type_synonym time = int
type_synonym uuid = string
type_synonym i16 = "16 word"
type_synonym i32 = "32 word"
type_synonym i64 = "64 word"

section \<open>strings.HasPrefix, strings.TrimPrefix, strings.TrimSpace\<close>

definition has_prefix :: "string \<Rightarrow> string \<Rightarrow> bool" where
  "has_prefix s p \<longleftrightarrow> take (length p) s = p"

definition trim_prefix :: "string \<Rightarrow> string \<Rightarrow> string" where
  "trim_prefix s p = (if has_prefix s p then drop (length p) s else s)"

text \<open>
  \<open>unicode.IsSpace\<close> holds of tab, line feed, vertical tab, form feed, carriage return, space,
  U+0085, U+00A0, U+1680, U+2000 to U+200A, U+2028, U+2029, U+202F, U+205F and U+3000: these
  are their UTF-8 encodings. \<open>TrimSpace\<close> strips such runes from both ends.
\<close>

definition space_runes :: "string list" where
  "space_runes =
     [[CHR 0x20], [CHR 0x09], [CHR 0x0A], [CHR 0x0B], [CHR 0x0C], [CHR 0x0D],
      [CHR 0xC2, CHR 0x85], [CHR 0xC2, CHR 0xA0], [CHR 0xE1, CHR 0x9A, CHR 0x80],
      [CHR 0xE2, CHR 0x80, CHR 0x80], [CHR 0xE2, CHR 0x80, CHR 0x81],
      [CHR 0xE2, CHR 0x80, CHR 0x82], [CHR 0xE2, CHR 0x80, CHR 0x83],
      [CHR 0xE2, CHR 0x80, CHR 0x84], [CHR 0xE2, CHR 0x80, CHR 0x85],
      [CHR 0xE2, CHR 0x80, CHR 0x86], [CHR 0xE2, CHR 0x80, CHR 0x87],
      [CHR 0xE2, CHR 0x80, CHR 0x88], [CHR 0xE2, CHR 0x80, CHR 0x89],
      [CHR 0xE2, CHR 0x80, CHR 0x8A], [CHR 0xE2, CHR 0x80, CHR 0xA8],
      [CHR 0xE2, CHR 0x80, CHR 0xA9], [CHR 0xE2, CHR 0x80, CHR 0xAF],
      [CHR 0xE2, CHR 0x81, CHR 0x9F], [CHR 0xE3, CHR 0x80, CHR 0x80]]"

function strip_runes :: "string list \<Rightarrow> string \<Rightarrow> string" where
  "strip_runes rs s =
     (case find (\<lambda>r. r \<noteq> [] \<and> has_prefix s r) rs of
        None \<Rightarrow> s
      | Some r \<Rightarrow> strip_runes rs (drop (length r) s))"
  by pat_completeness auto
termination
  by (relation "measure (\<lambda>(rs, s). length s)")
     (auto simp: find_Some_iff has_prefix_def Suc_le_eq intro!: diff_less)

declare strip_runes.simps [simp del]

definition trim_left :: "string \<Rightarrow> string" where
  "trim_left s = strip_runes space_runes s"

definition trim_right :: "string \<Rightarrow> string" where
  "trim_right s = rev (strip_runes (map rev space_runes) (rev s))"

definition trim_space :: "string \<Rightarrow> string" where
  "trim_space s = trim_right (trim_left s)"

lemma has_prefix_Nil [simp]: "has_prefix s []"
  by (simp add: has_prefix_def)

lemma has_prefix_Cons_Nil [simp]: "has_prefix [] (c # p) = False"
  by (simp add: has_prefix_def)

lemma has_prefix_Cons [simp]: "has_prefix (x # s) (c # p) \<longleftrightarrow> x = c \<and> has_prefix s p"
  by (auto simp: has_prefix_def)

lemma has_prefix_iff_append: "has_prefix s p \<longleftrightarrow> (\<exists>t. s = p @ t)"
  by (metis append_eq_conv_conj append_take_drop_id has_prefix_def)

lemma has_prefix_append [simp]: "has_prefix (p @ t) p"
  by (auto simp: has_prefix_iff_append)

lemma trim_prefix_append [simp]: "trim_prefix (p @ t) p = t"
  by (simp add: trim_prefix_def)

lemma strip_runes_stop:
  "find (\<lambda>r. r \<noteq> [] \<and> has_prefix s r) rs = None \<Longrightarrow> strip_runes rs s = s"
  by (subst strip_runes.simps) simp

lemma strip_runes_step:
  "find (\<lambda>r. r \<noteq> [] \<and> has_prefix s r) rs = Some q \<Longrightarrow>
     strip_runes rs s = strip_runes rs (drop (length q) s)"
  by (subst strip_runes.simps) simp

lemma strip_runes_none:
  "\<forall>r \<in> set rs. r \<noteq> [] \<longrightarrow> \<not> has_prefix s r \<Longrightarrow> strip_runes rs s = s"
  by (rule strip_runes_stop) (auto simp: find_None_iff)

lemma strip_runes_free: "r \<in> set rs \<Longrightarrow> r \<noteq> [] \<Longrightarrow> \<not> has_prefix (strip_runes rs s) r"
proof (induction rs s rule: strip_runes.induct)
  case (1 rs s)
  show ?case
  proof (cases "find (\<lambda>r. r \<noteq> [] \<and> has_prefix s r) rs")
    case None
    with "1.prems" show ?thesis
      by (auto simp: strip_runes_stop find_None_iff)
  next
    case (Some q)
    with "1.IH" "1.prems" show ?thesis
      by (simp add: strip_runes_step)
  qed
qed

lemma strip_runes_suffix: "\<exists>p. s = p @ strip_runes rs s"
proof (induction rs s rule: strip_runes.induct)
  case (1 rs s)
  show ?case
  proof (cases "find (\<lambda>r. r \<noteq> [] \<and> has_prefix s r) rs")
    case None
    then show ?thesis by (simp add: strip_runes_stop)
  next
    case (Some q)
    then obtain p where "drop (length q) s = p @ strip_runes rs (drop (length q) s)"
      using "1.IH" by blast
    then have "s = (take (length q) s @ p) @ strip_runes rs (drop (length q) s)"
      by (metis append.assoc append_take_drop_id)
    with Some show ?thesis by (metis strip_runes_step)
  qed
qed

lemma strip_runes_idem [simp]: "strip_runes rs (strip_runes rs s) = strip_runes rs s"
  by (rule strip_runes_none) (auto dest: strip_runes_free)

lemma trim_right_idem [simp]: "trim_right (trim_right s) = trim_right s"
  by (simp add: trim_right_def)

lemma trim_right_prefix: "\<exists>q. s = trim_right s @ q"
proof -
  obtain p where "rev s = p @ strip_runes (map rev space_runes) (rev s)"
    using strip_runes_suffix by blast
  then have "s = rev (strip_runes (map rev space_runes) (rev s)) @ rev p"
    by (metis rev_append rev_rev_ident)
  then show ?thesis unfolding trim_right_def by blast
qed

text \<open>Trimming is idempotent: the code trims again what its callers already trimmed.\<close>

lemma trim_space_idem [simp]: "trim_space (trim_space s) = trim_space s"
proof -
  let ?l = "trim_left s"
  obtain q where q: "?l = trim_right ?l @ q" using trim_right_prefix by blast
  have "\<not> has_prefix (trim_right ?l) r" if "r \<in> set space_runes" "r \<noteq> []" for r
  proof
    assume "has_prefix (trim_right ?l) r"
    then have "has_prefix ?l r" by (metis append.assoc has_prefix_iff_append q)
    with that show False by (simp add: trim_left_def strip_runes_free)
  qed
  then have "trim_left (trim_right ?l) = trim_right ?l"
    unfolding trim_left_def [of "trim_right ?l"] by (intro strip_runes_none) blast
  then show ?thesis by (simp add: trim_space_def)
qed

text \<open>A character that no white-space rune starts or ends with.\<close>

definition plain_char :: "char \<Rightarrow> bool" where
  "plain_char c \<longleftrightarrow> c \<notin> set (map hd space_runes) \<and> c \<notin> set (map last space_runes)"

text \<open>Printable ASCII characters are plain.\<close>

lemma plain_ascii: "33 \<le> (of_char c :: nat) \<Longrightarrow> (of_char c :: nat) \<le> 126 \<Longrightarrow> plain_char c"
  by (auto simp: plain_char_def space_runes_def)

lemma trim_left_plain: "plain_char c \<Longrightarrow> trim_left (c # s) = c # s"
  unfolding trim_left_def
  by (rule strip_runes_none) (auto simp: plain_char_def space_runes_def)

lemma trim_right_plain: "plain_char c \<Longrightarrow> trim_right (s @ [c]) = s @ [c]"
proof -
  assume "plain_char c"
  then have "strip_runes (map rev space_runes) (c # rev s) = c # rev s"
    by (intro strip_runes_none) (auto simp: plain_char_def space_runes_def)
  then show ?thesis by (simp add: trim_right_def)
qed

lemma trim_space_Nil [simp]: "trim_space [] = []"
proof -
  have "strip_runes rs [] = []" for rs
    by (rule strip_runes_none) (auto simp: has_prefix_def)
  then show ?thesis by (simp add: trim_space_def trim_left_def trim_right_def)
qed

lemma trim_space_plain:
  "s \<noteq> [] \<Longrightarrow> plain_char (hd s) \<Longrightarrow> plain_char (last s) \<Longrightarrow> trim_space s = s"
  by (metis append_butlast_last_id list.collapse trim_left_plain trim_right_plain trim_space_def)

lemma trim_space_all_plain: "\<forall>c \<in> set s. plain_char c \<Longrightarrow> trim_space s = s"
  by (cases "s = []") (auto intro: trim_space_plain)

lemma trim_space_nonblank:
  assumes "trim_space s \<noteq> []"
  shows "s \<noteq> []"
  using assms by auto

section \<open>strings.Split, strings.SplitN, strings.Join, strings.Contains\<close>

text \<open>All separators of the program that are split on have one byte.\<close>

fun split_on :: "char \<Rightarrow> string \<Rightarrow> string list" where
  "split_on c [] = [[]]"
| "split_on c (x # xs) =
     (if x = c then [] # split_on c xs
      else (case split_on c xs of [] \<Rightarrow> [[x]] | y # ys \<Rightarrow> (x # y) # ys))"

fun split_n :: "nat \<Rightarrow> char \<Rightarrow> string \<Rightarrow> string list" where
  "split_n 0 c s = []"
| "split_n (Suc 0) c s = [s]"
| "split_n (Suc (Suc n)) c s =
     (if c \<in> set s
      then takeWhile (\<lambda>x. x \<noteq> c) s # split_n (Suc n) c (tl (dropWhile (\<lambda>x. x \<noteq> c) s))
      else [s])"

fun join :: "string \<Rightarrow> string list \<Rightarrow> string" where
  "join sep [] = []"
| "join sep [x] = x"
| "join sep (x # y # ys) = x @ sep @ join sep (y # ys)"

fun contains :: "string \<Rightarrow> string \<Rightarrow> bool" where
  "contains [] p \<longleftrightarrow> p = []"
| "contains (x # xs) p \<longleftrightarrow> has_prefix (x # xs) p \<or> contains xs p"

lemma split_on_not_Nil [simp]: "split_on c s \<noteq> []"
  by (induction s) (auto split: list.splits)

lemma join_Cons_nonempty: "ys \<noteq> [] \<Longrightarrow> join sep (x # ys) = x @ sep @ join sep ys"
  by (cases ys) auto

lemma split_on_no_sep: "c \<notin> set s \<Longrightarrow> split_on c s = [s]"
  by (induction s) auto

lemma split_on_append: "c \<notin> set s \<Longrightarrow> split_on c (s @ c # t) = s # split_on c t"
  by (induction s) auto

text \<open>Splitting what was joined gives the parts back, when no part holds the separator.\<close>

lemma split_join:
  "xs \<noteq> [] \<Longrightarrow> \<forall>x \<in> set xs. c \<notin> set x \<Longrightarrow> split_on c (join [c] xs) = xs"
proof (induction xs rule: induct_list012)
  case (3 x y zs)
  then show ?case by (simp add: split_on_append)
qed (auto simp: split_on_no_sep)

lemma join_split [simp]: "join [c] (split_on c s) = s"
proof (induction s)
  case (Cons x xs)
  then show ?case
    by (cases "split_on c xs") (auto simp: join_Cons_nonempty, cases "tl (split_on c xs)", auto)
qed simp

lemma takeWhile_sep [simp]: "c \<notin> set s \<Longrightarrow> takeWhile (\<lambda>x. x \<noteq> c) (s @ c # t) = s"
  by (induction s) auto

lemma dropWhile_sep [simp]: "c \<notin> set s \<Longrightarrow> dropWhile (\<lambda>x. x \<noteq> c) (s @ c # t) = c # t"
  by (induction s) auto

lemma split_n_two:
  "c \<notin> set s \<Longrightarrow> split_n 2 c (s @ c # t) = [s, t]"
  by (simp add: numeral_2_eq_2)

lemma split_n_three:
  "c \<notin> set s \<Longrightarrow> c \<notin> set t \<Longrightarrow> split_n 3 c (s @ c # t @ c # u) = [s, t, u]"
  by (simp add: numeral_3_eq_3)

lemma split_n_two_no_sep: "c \<notin> set s \<Longrightarrow> split_n 2 c s = [s]"
  by (simp add: numeral_2_eq_2)

lemma split_n_two_iff: "split_n 2 c s = [a, b] \<longleftrightarrow> c \<notin> set a \<and> s = a @ c # b"
proof
  assume *: "split_n 2 c s = [a, b]"
  then have c: "c \<in> set s" by (auto simp: numeral_2_eq_2 split: if_splits)
  with * have ab: "a = takeWhile (\<lambda>x. x \<noteq> c) s" "b = tl (dropWhile (\<lambda>x. x \<noteq> c) s)"
    by (auto simp: numeral_2_eq_2)
  from c have "dropWhile (\<lambda>x. x \<noteq> c) s \<noteq> []" by (auto simp: dropWhile_eq_Nil_conv)
  then have "dropWhile (\<lambda>x. x \<noteq> c) s = c # b"
    using ab(2) hd_dropWhile [of "\<lambda>x. x \<noteq> c" s] by (cases "dropWhile (\<lambda>x. x \<noteq> c) s") auto
  then have "s = a @ c # b" using ab(1) takeWhile_dropWhile_id [of "\<lambda>x. x \<noteq> c" s] by simp
  moreover have "c \<notin> set a" using ab(1) by (auto dest: set_takeWhileD)
  ultimately show "c \<notin> set a \<and> s = a @ c # b" by blast
qed (auto simp: split_n_two)

section \<open>strings.ToLower and strings.EqualFold\<close>

text \<open>
  Case mapping of the ASCII letters, and of the two non-ASCII runes whose lower case is an
  ASCII letter (U+0130 gives \<open>i\<close>, the Kelvin sign U+212A gives \<open>k\<close>). Other non-ASCII letters are
  left as they are: the program compares the result with ASCII literals only, for which this
  is exact. \<open>EqualFold\<close> also folds the long s, U+017F.
\<close>

definition lower_char :: "char \<Rightarrow> char" where
  "lower_char c =
     (let n = (of_char c :: nat) in if 65 \<le> n \<and> n \<le> 90 then char_of (n + 32) else c)"

fun to_lower :: "string \<Rightarrow> string" where
  "to_lower [] = []"
| "to_lower (a # s) =
     (if has_prefix (a # s) [CHR 0xC4, CHR 0xB0] then CHR ''i'' # to_lower (drop 1 s)
      else if has_prefix (a # s) [CHR 0xE2, CHR 0x84, CHR 0xAA] then CHR ''k'' # to_lower (drop 2 s)
      else lower_char a # to_lower s)"

fun fold_case :: "string \<Rightarrow> string" where
  "fold_case [] = []"
| "fold_case (a # s) =
     (if has_prefix (a # s) [CHR 0xC5, CHR 0xBF] then CHR ''s'' # fold_case (drop 1 s)
      else if has_prefix (a # s) [CHR 0xE2, CHR 0x84, CHR 0xAA] then CHR ''k'' # fold_case (drop 2 s)
      else lower_char a # fold_case s)"

definition equal_fold :: "string \<Rightarrow> string \<Rightarrow> bool" where
  "equal_fold s t \<longleftrightarrow> fold_case s = fold_case t"

lemma lower_char_idem [simp]: "lower_char (lower_char c) = lower_char c"
  by (simp add: lower_char_def Let_def)

lemma equal_fold_refl [simp]: "equal_fold s s"
  by (simp add: equal_fold_def)

lemma equal_fold_sym: "equal_fold s t \<Longrightarrow> equal_fold t s"
  by (simp add: equal_fold_def)

section \<open>strconv: decimal integers\<close>

definition is_digit :: "char \<Rightarrow> bool" where
  "is_digit c \<longleftrightarrow> 48 \<le> (of_char c :: nat) \<and> (of_char c :: nat) \<le> 57"

definition digit_char :: "nat \<Rightarrow> char" where
  "digit_char d = char_of (48 + d)"

text \<open>The digits of a number, most significant first; \<open>strconv.FormatInt(n, 10)\<close>.\<close>

fun format_nat :: "nat \<Rightarrow> string" where
  "format_nat n =
     (if n < 10 then [digit_char n] else format_nat (n div 10) @ [digit_char (n mod 10)])"

declare format_nat.simps [simp del]

definition format_int :: "int \<Rightarrow> string" where
  "format_int i = (if i < 0 then CHR ''-'' # format_nat (nat (- i)) else format_nat (nat i))"

text \<open>The value of a digit string, \<open>None\<close> when a character is no digit.\<close>

fun digits_val :: "nat \<Rightarrow> string \<Rightarrow> nat option" where
  "digits_val acc [] = Some acc"
| "digits_val acc (c # cs) =
     (if is_digit c then digits_val (acc * 10 + (of_char c - 48)) cs else None)"

definition in_int64 :: "int \<Rightarrow> bool" where
  "in_int64 i \<longleftrightarrow> - (2 ^ 63) \<le> i \<and> i < 2 ^ 63"

text \<open>
  \<open>strconv.ParseInt(s, 10, 64)\<close> and \<open>strconv.Atoi\<close> (an \<open>int\<close> has 64 bits): an optional sign,
  then digits only, in range. An error of any kind is \<open>None\<close>.
\<close>

definition parse_int :: "string \<Rightarrow> int option" where
  "parse_int s =
     (let neg = (s \<noteq> [] \<and> hd s = CHR ''-'');
          ds = (if s \<noteq> [] \<and> (hd s = CHR ''-'' \<or> hd s = CHR ''+'') then tl s else s)
      in if ds = [] then None
         else (case digits_val 0 ds of
                 None \<Rightarrow> None
               | Some n \<Rightarrow>
                   let v = (if neg then - int n else int n)
                   in if in_int64 v then Some v else None))"

lemma of_char_digit [simp]: "d < 10 \<Longrightarrow> (of_char (digit_char d) :: nat) = 48 + d"
  by (simp add: digit_char_def)

lemma is_digit_digit_char [simp]: "d < 10 \<Longrightarrow> is_digit (digit_char d)"
  by (simp add: is_digit_def)

lemma digits_val_append:
  "digits_val acc (xs @ ys) =
     (case digits_val acc xs of None \<Rightarrow> None | Some n \<Rightarrow> digits_val n ys)"
  by (induction xs arbitrary: acc) auto

lemma format_nat_not_Nil [simp]: "format_nat n \<noteq> []"
  by (subst format_nat.simps) simp

lemma format_nat_digits: "\<forall>c \<in> set (format_nat n). is_digit c"
proof (induction n rule: format_nat.induct)
  case (1 n)
  then show ?case by (auto simp: format_nat.simps [of n])
qed

lemma digits_val_format_nat [simp]: "digits_val 0 (format_nat n) = Some n"
proof (induction n rule: format_nat.induct)
  case (1 n)
  then show ?case
    by (cases "n < 10") (auto simp: format_nat.simps [of n] digits_val_append)
qed

lemma is_digit_not_special:
  "is_digit c \<Longrightarrow> c \<noteq> CHR ''-'' \<and> c \<noteq> CHR ''+'' \<and> c \<noteq> CHR ''|'' \<and> c \<noteq> CHR '':'' \<and> c \<noteq> CHR ''='' \<and> c \<noteq> CHR '',''"
  by (auto simp: is_digit_def)

lemma hd_format_nat: "is_digit (hd (format_nat n))"
  using format_nat_digits hd_in_set format_nat_not_Nil by blast

text \<open>Printing and parsing are inverse on the 64-bit integers.\<close>

lemma parse_format_int [simp, go_ints]: "in_int64 i \<Longrightarrow> parse_int (format_int i) = Some i"
proof -
  assume i: "in_int64 i"
  have h: "hd (format_nat n) \<noteq> CHR ''-'' \<and> hd (format_nat n) \<noteq> CHR ''+''" for n
    using is_digit_not_special hd_format_nat by blast
  show ?thesis
  proof (cases "i < 0")
    case True
    then have "format_int i = CHR ''-'' # format_nat (nat (- i))" by (simp add: format_int_def)
    with True i show ?thesis by (simp add: parse_int_def Let_def)
  next
    case False
    then have "format_int i = format_nat (nat i)" by (simp add: format_int_def)
    with False i h [of "nat i"] show ?thesis by (simp add: parse_int_def Let_def)
  qed
qed

lemma parse_int_in_range: "parse_int s = Some i \<Longrightarrow> in_int64 i"
  by (auto simp: parse_int_def Let_def split: if_splits option.splits)

lemma format_int_chars: "c \<in> set (format_int i) \<Longrightarrow> is_digit c \<or> c = CHR ''-''"
  using format_nat_digits by (auto simp: format_int_def split: if_splits)

lemma format_int_no_sep:
  "CHR ''|'' \<notin> set (format_int i)" "CHR '':'' \<notin> set (format_int i)"
  "CHR ''='' \<notin> set (format_int i)" "CHR '','' \<notin> set (format_int i)"
  by (auto dest!: format_int_chars is_digit_not_special)

lemma format_int_not_Nil [simp]: "format_int i \<noteq> []"
  by (simp add: format_int_def)

lemma format_nat_inject: "format_nat m = format_nat n \<longleftrightarrow> m = n"
  by (metis digits_val_format_nat option.inject)

lemma format_int_inject: "format_int i = format_int j \<longleftrightarrow> i = j"
proof
  assume eq: "format_int i = format_int j"
  have "CHR ''-'' \<notin> set (format_nat n)" for n
    using format_nat_digits is_digit_not_special by blast
  with eq show "i = j"
    by (auto simp: format_int_def format_nat_inject split: if_splits)
       (metis list.set_intros(1))+
qed simp

lemma plain_digit: "is_digit c \<Longrightarrow> plain_char c"
  by (auto simp: is_digit_def plain_char_def space_runes_def)

lemma plain_minus [simp]: "plain_char CHR ''-''"
  by (simp add: plain_char_def space_runes_def)

lemma trim_space_format_int [simp]: "trim_space (format_int i) = format_int i"
  by (rule trim_space_all_plain) (auto dest!: format_int_chars simp: plain_digit)

text \<open>
  \<open>fmt.Sscanf(s, "%d", &n)\<close> for a 64-bit \<open>n\<close>: white space other than a line feed is skipped, then
  an optional sign and the longest run of digits is read; the rest of \<open>s\<close> is ignored.
\<close>

function skip_scan_space :: "string \<Rightarrow> string option" where
  "skip_scan_space s =
     (if s \<noteq> [] \<and> hd s = CHR 0x0A then None
      else (case find (\<lambda>r. r \<noteq> [] \<and> has_prefix s r) space_runes of
              None \<Rightarrow> Some s
            | Some r \<Rightarrow> skip_scan_space (drop (length r) s)))"
  by pat_completeness auto
termination
  by (relation "measure length")
     (auto simp: find_Some_iff has_prefix_def Suc_le_eq intro!: diff_less)

declare skip_scan_space.simps [simp del]

definition scan_int :: "string \<Rightarrow> int option" where
  "scan_int s =
     (case skip_scan_space s of
        None \<Rightarrow> None
      | Some t \<Rightarrow>
          let sgn = (if t \<noteq> [] \<and> (hd t = CHR ''-'' \<or> hd t = CHR ''+'') then [hd t] else []);
              ds = takeWhile is_digit (drop (length sgn) t)
          in if ds = [] then None else parse_int (sgn @ ds))"

lemma skip_scan_space_plain: "plain_char c \<Longrightarrow> skip_scan_space (c # s) = Some (c # s)"
proof -
  assume c: "plain_char c"
  then have "find (\<lambda>r. r \<noteq> [] \<and> has_prefix (c # s) r) space_runes = None"
    by (auto simp: find_None_iff plain_char_def space_runes_def)
  with c show ?thesis
    by (subst skip_scan_space.simps) (auto simp: plain_char_def space_runes_def)
qed

lemma takeWhile_format_nat [simp]: "takeWhile is_digit (format_nat n) = format_nat n"
  using format_nat_digits by (auto simp: takeWhile_eq_all_conv)

lemma scan_format_int [simp, go_ints]: "in_int64 i \<Longrightarrow> scan_int (format_int i) = Some i"
proof -
  assume i: "in_int64 i"
  obtain c s where cs: "format_int i = c # s" by (cases "format_int i") auto
  then have "plain_char c" using format_int_chars [of c i] by (auto simp: plain_digit)
  then have sk: "skip_scan_space (format_int i) = Some (format_int i)"
    by (simp add: cs skip_scan_space_plain)
  have h: "hd (format_nat n) \<noteq> CHR ''-'' \<and> hd (format_nat n) \<noteq> CHR ''+''" for n
    using is_digit_not_special hd_format_nat by blast
  show ?thesis
    using parse_format_int [OF i] h [of "nat i"] sk
    by (auto simp: scan_int_def format_int_def Let_def)
qed

end
