(* ===== verification/Keyset.thy ===== *)
theory Keyset
  imports Go_Prelude "HOL-Library.Product_Lexorder" "HOL-Library.List_Lexorder" "HOL-Library.Char_ord"
    "HOL-Library.Multiset"
begin

text \<open>
  Keyset pagination. Every list of the platform that grows is read page by page: a page is at
  most \<open>n\<close> rows of a fixed order, and an opaque cursor, empty on the last page, that
  the client sends back for the next one. \<open>walk\<close> is that client. The locale \<open>pager\<close> is the
  contract between the two, and its theorem says that walking the pages gives every row exactly
  once, in order. The comment stores and the progress repository interpret it.
\<close>

section \<open>The environment of a call\<close>

text \<open>
  What the Go code takes from its environment: the clock, the next random identifier, the order in
  which its \<open>range\<close> loops over maps visit the keys (by loop), and which database statements fail (by
  number).
\<close>

record ctx =
  now :: time
  fresh :: uuid
  order :: "nat \<Rightarrow> uuid list"
  fault :: "nat \<Rightarrow> bool"

text \<open>\<open>stmt_ctx x i\<close> is the environment seen from statement \<open>i\<close> on.\<close>

definition stmt_ctx :: "ctx \<Rightarrow> nat \<Rightarrow> ctx" where
  "stmt_ctx x i = x\<lparr>fault := (\<lambda>j. fault x (i + j))\<rparr>"

text \<open>An environment in which no statement fails.\<close>

definition calm :: "time \<Rightarrow> uuid \<Rightarrow> ctx" where
  "calm t i = \<lparr>now = t, fresh = i, order = (\<lambda>_. []), fault = (\<lambda>_. False)\<rparr>"

lemma calm_simps [simp]: "now (calm t i) = t" "fresh (calm t i) = i" "fault (calm t i) n = False"
  by (simp_all add: calm_def)

section \<open>SQL: ORDER BY ... DESC, LIMIT, row comparison\<close>

definition order_by_desc :: "('r \<Rightarrow> 'k::linorder) \<Rightarrow> 'r list \<Rightarrow> 'r list" where
  "order_by_desc k rows = rev (sort_key k rows)"

definition strict_desc :: "('r \<Rightarrow> 'k::linorder) \<Rightarrow> 'r list \<Rightarrow> bool" where
  "strict_desc k rows \<longleftrightarrow> sorted_wrt (\<lambda>x y. k y < k x) rows"

text \<open>
  A page: the first \<open>n\<close> of the rows that are left, with the cursor of its last row when \<open>goon n l\<close> holds
  of the number \<open>l\<close> of rows left. A server that fetches one row too many uses \<open>n < l\<close>, one that looks
  whether the page is full uses \<open>n \<le> l\<close> (and may end with an empty page).
\<close>

definition page_of :: "(nat \<Rightarrow> nat \<Rightarrow> bool) \<Rightarrow> nat \<Rightarrow> ('r \<Rightarrow> string) \<Rightarrow> 'r list \<Rightarrow> 'r list \<times> string" where
  "page_of goon n cur rows =
     (take n rows, if goon n (length rows) then cur (rows ! (n - 1)) else [])"

abbreviation page_cut :: "nat \<Rightarrow> ('r \<Rightarrow> string) \<Rightarrow> 'r list \<Rightarrow> 'r list \<times> string" where
  "page_cut \<equiv> page_of (<)"

text \<open>The client: fetch a page, follow its cursor until it is empty. \<open>None\<close> is a request that failed,
  or out of fuel.\<close>

fun walk :: "nat \<Rightarrow> (string \<Rightarrow> ('r list \<times> string) option) \<Rightarrow> string \<Rightarrow> 'r list option" where
  "walk 0 page c = None"
| "walk (Suc fuel) page c =
     (case page c of
        None \<Rightarrow> None
      | Some (xs, nxt) \<Rightarrow> if nxt = [] then Some xs else map_option ((@) xs) (walk fuel page nxt))"

lemma walk_map:
  "walk fuel (\<lambda>c. map_option (\<lambda>(xs, nxt). (map f xs, nxt)) (page c)) c = map_option (map f) (walk fuel page c)"
  by (induction fuel arbitrary: c) (auto simp: option.map_comp comp_def split: option.splits)

lemma set_order_by_desc [simp]: "set (order_by_desc k rows) = set rows"
  by (simp add: order_by_desc_def)

lemma distinct_order_by_desc [simp]: "distinct (order_by_desc k rows) = distinct rows"
  by (simp add: order_by_desc_def)

lemma length_order_by_desc [simp]: "length (order_by_desc k rows) = length rows"
  by (simp add: order_by_desc_def)

lemma filter_order_by_desc: "order_by_desc k (filter P rows) = filter P (order_by_desc k rows)"
  by (metis order_by_desc_def filter_sort rev_filter)

lemma strict_desc_order_by:
  assumes "distinct rows" "inj_on k (set rows)"
  shows "strict_desc k (order_by_desc k rows)"
proof -
  have "sorted_wrt (<) (map k (sort_key k rows))"
    using assms by (simp add: strict_sorted_iff distinct_map)
  then show ?thesis
    by (simp add: strict_desc_def order_by_desc_def sorted_wrt_rev sorted_wrt_map)
qed

text \<open>Two enumerations of the same rows in the same strict order are equal.\<close>

lemma strict_desc_unique:
  assumes "strict_desc k xs" "strict_desc k ys" "set xs = set ys"
  shows "xs = ys"
proof -
  have s: "sorted_wrt (<) (map k (rev zs))" if "strict_desc k zs" for zs
  proof -
    have "sorted_wrt (\<lambda>x y. k x < k y) (rev zs)"
      using that by (simp add: strict_desc_def sorted_wrt_rev)
    then show ?thesis by (simp only: sorted_wrt_map)
  qed
  have d: "inj_on k (set zs)" if "strict_desc k zs" for zs
  proof -
    have "distinct (map k (rev zs))" using s [OF that] by (simp only: strict_sorted_iff)
    then show ?thesis by (simp only: distinct_map set_rev)
  qed
  have "map k (rev xs) = map k (rev ys)"
    using s [OF assms(1)] s [OF assms(2)] assms(3)
    by (intro strict_sorted_equal) (auto)
  moreover have "inj_on k (set (rev xs) \<union> set (rev ys))"
    using d [OF assms(1)] assms(3) by simp
  ultimately show ?thesis by (metis inj_on_map_eq_map rev_is_rev_conv)
qed

text \<open>A row comparison \<open>(key) < (key of r)\<close> keeps exactly the rows after \<open>r\<close>.\<close>

lemma filter_after:
  assumes "strict_desc k (ys @ r # zs)"
  shows "filter (\<lambda>x. k x < k r) (ys @ r # zs) = zs"
proof -
  from assms have y: "\<forall>y \<in> set ys. k r < k y" and z: "\<forall>z \<in> set zs. k z < k r"
    by (auto simp: strict_desc_def sorted_wrt_append)
  then have "filter (\<lambda>x. k x < k r) ys = []" by (auto simp: filter_empty_conv)
  moreover have "filter (\<lambda>x. k x < k r) zs = zs" using z by (simp add: filter_id_conv)
  ultimately show ?thesis by simp
qed

section \<open>Tables with a primary key\<close>

text \<open>A \<open>TIMESTAMPTZ\<close> value has microseconds.\<close>

definition pg_time :: "time \<Rightarrow> time" where
  "pg_time t = t div 1000 * 1000"

text \<open>\<open>SELECT ... WHERE key = k\<close> for a unique key, and how the two kinds of write change it.\<close>

definition row_by :: "('r \<Rightarrow> 'k) \<Rightarrow> 'k \<Rightarrow> 'r list \<Rightarrow> 'r option" where
  "row_by key k rows = List.find (\<lambda>r. key r = k) rows"

text \<open>\<open>UPDATE ... SET f WHERE hit\<close>: the new rows and the number of rows affected.\<close>

definition sql_update :: "('r \<Rightarrow> bool) \<Rightarrow> ('r \<Rightarrow> 'r) \<Rightarrow> 'r list \<Rightarrow> 'r list \<times> nat" where
  "sql_update hit f rows = (map (\<lambda>r. if hit r then f r else r) rows, length (filter hit rows))"

lemma row_by_Nil [simp]: "row_by key k [] = None"
  by (simp add: row_by_def)

lemma row_by_Cons [simp]: "row_by key k (r # rows) = (if key r = k then Some r else row_by key k rows)"
  by (simp add: row_by_def)

lemma row_by_append: "row_by key k (rows @ rows') = (case row_by key k rows of None \<Rightarrow> row_by key k rows' | Some r \<Rightarrow> Some r)"
  by (induction rows) auto

lemma row_by_map: "(\<And>r. key (f r) = key r) \<Longrightarrow> row_by key k (map f rows) = map_option f (row_by key k rows)"
  by (induction rows) auto

lemma row_by_None: "row_by key k rows = None \<longleftrightarrow> k \<notin> key ` set rows"
  by (induction rows) auto

lemma row_by_Some: "row_by key k rows = Some r \<Longrightarrow> r \<in> set rows \<and> key r = k"
  by (induction rows) (auto split: if_splits)

lemma row_by_mem: "distinct (map key rows) \<Longrightarrow> r \<in> set rows \<Longrightarrow> row_by key (key r) rows = Some r"
  by (induction rows) (auto simp: rev_image_eqI)

lemma row_by_sql_update:
  assumes "\<And>r. key (f r) = key r" "\<And>r. hit r \<Longrightarrow> key r = k"
    and "row_by key k rows = Some r" "hit r"
  shows "row_by key j (fst (sql_update hit f rows)) = (if j = k then Some (f r) else row_by key j rows)"
proof -
  have "row_by key j (fst (sql_update hit f rows)) =
      map_option (\<lambda>r. if hit r then f r else r) (row_by key j rows)"
    unfolding sql_update_def fst_conv by (rule row_by_map) (simp add: assms(1))
  also have "\<dots> = (if j = k then Some (f r) else row_by key j rows)"
    using assms(2,3,4) by (cases "row_by key j rows") (auto dest: row_by_Some)
  finally show ?thesis .
qed

lemma sql_update_keys: "(\<And>r. key (f r) = key r) \<Longrightarrow> map key (fst (sql_update hit f rows)) = map key rows"
  by (induction rows) (auto simp: sql_update_def)

lemma sql_update_none: "sql_update hit f rows = (rows', 0) \<Longrightarrow> rows' = rows"
  by (auto simp: sql_update_def filter_empty_conv intro: map_idI)

lemma sql_update_some:
  assumes "snd (sql_update hit f rows) \<noteq> 0"
  obtains r where "r \<in> set rows" "hit r"
  using assms by (auto simp: sql_update_def filter_empty_conv)

section \<open>range over a map\<close>

text \<open>\<open>for _, c := range m\<close>: the values, in the order the runtime visits the keys.\<close>

definition range_map :: "('k \<rightharpoonup> 'v) \<Rightarrow> 'k list \<Rightarrow> 'v list" where
  "range_map m ks = List.map_filter m ks"

lemma range_map_set: "set (range_map m ks) = {v. \<exists>k \<in> set ks. m k = Some v}"
  by (force simp: range_map_def List.map_filter_def)

section \<open>sort.Slice\<close>

text \<open>
  \<open>sort.Slice(xs, less)\<close>. Go's sort is not stable; on a strict weak order every result it may give
  is the one below for some order of the input, and the callers' inputs come from a \<open>range\<close> over a
  map, whose order is an argument of the model.
\<close>

fun insert_by :: "('a \<Rightarrow> 'a \<Rightarrow> bool) \<Rightarrow> 'a \<Rightarrow> 'a list \<Rightarrow> 'a list" where
  "insert_by lt x [] = [x]"
| "insert_by lt x (y # ys) = (if lt y x then y # insert_by lt x ys else x # y # ys)"

definition sort_slice :: "('a \<Rightarrow> 'a \<Rightarrow> bool) \<Rightarrow> 'a list \<Rightarrow> 'a list" where
  "sort_slice lt xs = foldr (insert_by lt) xs []"

lemma insert_by_key: "(\<And>x y. lt x y = (k x < (k y :: 'k::linorder))) \<Longrightarrow> insert_by lt x ys = insort_key k x ys"
  by (induction ys) (auto simp: not_less)

lemma sort_slice_key:
  assumes "\<And>x y. lt x y = (k x < (k y :: 'k::linorder))"
  shows "sort_slice lt xs = sort_key k xs"
proof -
  have "insert_by lt = insort_key k" using insert_by_key [of lt k, OF assms] by blast
  then show ?thesis by (simp add: sort_slice_def sort_key_def)
qed

lemma mset_insert_by [simp]: "mset (insert_by lt x ys) = add_mset x (mset ys)"
  by (induction ys) auto

lemma mset_sort_slice [simp]: "mset (sort_slice lt xs) = mset xs"
  unfolding sort_slice_def by (induction xs) auto

lemma set_sort_slice [simp]: "set (sort_slice lt xs) = set xs"
  using mset_sort_slice by (metis set_mset_mset)

lemma distinct_sort_slice [simp]: "distinct (sort_slice lt xs) = distinct xs"
  using mset_sort_slice by (metis mset_eq_imp_distinct_iff)

lemma length_sort_slice [simp]: "length (sort_slice lt xs) = length xs"
  using mset_sort_slice by (metis size_mset)

text \<open>Sorting with a \<open>less\<close> that puts the larger key first gives the descending order of SQL.\<close>

lemma strict_desc_insert_by:
  assumes "\<And>x y. lt x y = (k y < (k x :: 'k::linorder))" "strict_desc k ys" "k x \<notin> k ` set ys"
  shows "strict_desc k (insert_by lt x ys)"
proof -
  have set_ins: "set (insert_by lt x zs) = insert x (set zs)" for zs
    by (induction zs) auto
  from assms(2,3) show ?thesis
    unfolding strict_desc_def by (induction ys) (force simp: assms(1) set_ins)+
qed

lemma strict_desc_sort_slice:
  assumes lt: "\<And>x y. lt x y = (k y < (k x :: 'k::linorder))"
    and "distinct xs" "inj_on k (set xs)"
  shows "strict_desc k (sort_slice lt xs)"
  using assms(2,3)
proof (induction xs)
  case Nil
  then show ?case by (simp add: strict_desc_def sort_slice_def)
next
  case (Cons x xs)
  then have "strict_desc k (sort_slice lt xs)" by simp
  moreover have "k x \<notin> k ` set (sort_slice lt xs)" using Cons.prems by auto
  ultimately show ?case
    using strict_desc_insert_by [OF lt] by (simp add: sort_slice_def)
qed

section \<open>The contract of a paged list\<close>

text \<open>\<open>ok\<close> is what the provider needs of the state the pages are read from.\<close>

locale pager =
  fixes page :: "string \<Rightarrow> ('r list \<times> string) option" and rows :: "'r list" and cur :: "'r \<Rightarrow> string"
    and n :: nat and ok :: bool and goon :: "nat \<Rightarrow> nat \<Rightarrow> bool"
  assumes n_pos: "0 < n"
    and more_left: "n < l \<Longrightarrow> goon n l"
    and more_full: "goon n l \<Longrightarrow> n \<le> l"
    and page_first: "ok \<Longrightarrow> page [] = Some (page_of goon n cur rows)"
    and page_next: "ok \<Longrightarrow> rows = ys @ r # zs \<Longrightarrow> page (cur r) = Some (page_of goon n cur zs)"
    and cur_not_Nil: "ok \<Longrightarrow> r \<in> set rows \<Longrightarrow> cur r \<noteq> []"
begin

lemma walk_from:
  "ok \<Longrightarrow> rows = ys @ zs \<Longrightarrow> page c = Some (page_of goon n cur zs) \<Longrightarrow> length zs < fuel \<Longrightarrow>
     walk fuel page c = Some zs"
proof (induction fuel arbitrary: ys zs c)
  case (Suc fuel)
  show ?case
  proof (cases "goon n (length zs)")
    case True
    then have len: "n \<le> length zs" by (rule more_full)
    let ?r = "zs ! (n - 1)"
    have split: "zs = take (n - 1) zs @ ?r # drop n zs"
      using id_take_nth_drop [of "n - 1" zs] len n_pos by simp
    have rows: "rows = (ys @ take (n - 1) zs) @ ?r # drop n zs"
      using Suc.prems(2) split by (metis append.assoc)
    then have nxt: "page (cur ?r) = Some (page_of goon n cur (drop n zs))" by (rule page_next [OF Suc.prems(1)])
    have "?r \<in> set rows" by (subst rows) simp
    then have ne: "cur ?r \<noteq> []" by (rule cur_not_Nil [OF Suc.prems(1)])
    have "rows = (ys @ take n zs) @ drop n zs" using Suc.prems(2) by simp
    from Suc.IH [OF Suc.prems(1) this nxt] have "walk fuel page (cur ?r) = Some (drop n zs)"
      using Suc.prems(4) len n_pos by simp
    with True ne Suc.prems(3) show ?thesis by (simp add: page_of_def)
  next
    case False
    then have "length zs \<le> n" using more_left not_less by blast
    with False Suc.prems(3) show ?thesis by (simp add: page_of_def)
  qed
qed simp

theorem walk_all: "ok \<Longrightarrow> length rows < fuel \<Longrightarrow> walk fuel page [] = Some rows"
  using walk_from [of "[]" rows "[]" fuel] page_first by simp

end

end
