(* ===== verification/Go_Base64.thy ===== *)
theory Go_Base64
  imports Go_Prelude
begin

text \<open>
  \<open>encoding/base64\<close> with the URL alphabet, padded (\<open>URLEncoding\<close>, comment cursors) and unpadded
  (\<open>RawURLEncoding\<close>, signatures, progress cursors, refresh tokens). The decoder skips carriage
  returns and line feeds and ignores the unused low bits of the last character, as Go's
  non-strict decoder does. An interface, \<open>codec\<close>, states the round trip that every opaque
  cursor of the program is built on.
\<close>

definition b64_char :: "nat \<Rightarrow> char" where
  "b64_char n =
     (if n < 26 then char_of (65 + n)
      else if n < 52 then char_of (97 + (n - 26))
      else if n < 62 then char_of (48 + (n - 52))
      else if n = 62 then CHR ''-'' else CHR ''_'')"

definition b64_val :: "char \<Rightarrow> nat option" where
  "b64_val c =
     (let n = (of_char c :: nat)
      in if 65 \<le> n \<and> n \<le> 90 then Some (n - 65)
         else if 97 \<le> n \<and> n \<le> 122 then Some (n - 97 + 26)
         else if 48 \<le> n \<and> n \<le> 57 then Some (n - 48 + 52)
         else if c = CHR ''-'' then Some 62
         else if c = CHR ''_'' then Some 63 else None)"

text \<open>The flag says whether the encoding is padded.\<close>

fun b64_encode :: "bool \<Rightarrow> string \<Rightarrow> string" where
  "b64_encode pad [] = []"
| "b64_encode pad [a] =
     (let x = of_char a
      in [b64_char (x div 4), b64_char (x mod 4 * 16)] @ (if pad then ''=='' else []))"
| "b64_encode pad [a, b] =
     (let x = of_char a; y = of_char b
      in [b64_char (x div 4), b64_char (x mod 4 * 16 + y div 16), b64_char (y mod 16 * 4)]
         @ (if pad then ''='' else []))"
| "b64_encode pad (a # b # c # s) =
     (let x = of_char a; y = of_char b; z = of_char c
      in [b64_char (x div 4), b64_char (x mod 4 * 16 + y div 16),
          b64_char (y mod 16 * 4 + z div 64), b64_char (z mod 64)] @ b64_encode pad s)"

definition byte0 :: "nat \<Rightarrow> nat \<Rightarrow> char" where
  "byte0 p q = char_of (p * 4 + q div 16)"

definition byte1 :: "nat \<Rightarrow> nat \<Rightarrow> char" where
  "byte1 q r = char_of (q mod 16 * 16 + r div 4)"

definition byte2 :: "nat \<Rightarrow> nat \<Rightarrow> char" where
  "byte2 r s = char_of (r mod 4 * 64 + s)"

definition b64_tail :: "char \<Rightarrow> char \<Rightarrow> char option \<Rightarrow> string option" where
  "b64_tail a b oc =
     (case (b64_val a, b64_val b) of
        (Some p, Some q) \<Rightarrow>
          (case oc of
             None \<Rightarrow> Some [byte0 p q]
           | Some c \<Rightarrow> (case b64_val c of None \<Rightarrow> None | Some r \<Rightarrow> Some [byte0 p q, byte1 q r]))
      | _ \<Rightarrow> None)"

fun b64_quads :: "bool \<Rightarrow> string \<Rightarrow> string option" where
  "b64_quads pad [] = Some []"
| "b64_quads pad [a] = None"
| "b64_quads pad [a, b] = (if pad then None else b64_tail a b None)"
| "b64_quads pad [a, b, c] = (if pad then None else b64_tail a b (Some c))"
| "b64_quads pad (a # b # c # d # s) =
     (if pad \<and> d = CHR ''='' \<and> s = [] then
        (if c = CHR ''='' then b64_tail a b None else b64_tail a b (Some c))
      else (case (b64_val a, b64_val b, b64_val c, b64_val d, b64_quads pad s) of
              (Some p, Some q, Some r, Some t, Some out) \<Rightarrow>
                Some (byte0 p q # byte1 q r # byte2 r t # out)
            | _ \<Rightarrow> None))"

definition b64_decode :: "bool \<Rightarrow> string \<Rightarrow> string option" where
  "b64_decode pad s = b64_quads pad (filter (\<lambda>c. c \<noteq> CHR 0x0D \<and> c \<noteq> CHR 0x0A) s)"

lemma of_char_b64_char:
  "n < 64 \<Longrightarrow> (of_char (b64_char n) :: nat) =
     (if n < 26 then 65 + n else if n < 52 then 71 + n else if n < 62 then n - 4
      else if n = 62 then 45 else 95)"
  by (auto simp: b64_char_def)

lemma b64_val_char [simp]: "n < 64 \<Longrightarrow> b64_val (b64_char n) = Some n"
  using of_char_b64_char [of n] by (auto simp: b64_val_def Let_def b64_char_def split: if_splits)

lemma plain_b64_char: "n < 64 \<Longrightarrow> plain_char (b64_char n)"
  using of_char_b64_char [of n] by (intro plain_ascii) (auto split: if_splits)

lemma b64_char_neq [simp]:
  assumes "n < 64"
  shows "b64_char n \<noteq> CHR ''=''" "b64_char n \<noteq> CHR 0x0D" "b64_char n \<noteq> CHR 0x0A"
  using of_char_b64_char [OF assms] by (auto split: if_splits)

lemma of_char_less_256 [simp]: "(of_char (c :: char) :: nat) < 256"
  by simp

lemma div_lt_quot:
  "(of_char (b :: char) :: nat) div 16 < 16" "(of_char (b :: char) :: nat) div 64 < 4"
  using of_char_less_256 [of b] by linarith+

lemma byte0_join [simp]: "byte0 (of_char a div 4) (of_char a mod 4 * 16 + k div 16) = a"
  if "k < 256" for k
proof -
  have "(of_char a mod 4 * 16 + k div 16) div 16 = (of_char a :: nat) mod 4" using that by auto
  then have "of_char a div 4 * 4 + (of_char a mod 4 * 16 + k div 16) div 16 = (of_char a :: nat)"
    by (simp only: div_mult_mod_eq)
  then show ?thesis by (simp add: byte0_def)
qed

lemma byte0_last [simp]: "byte0 (of_char a div 4) (of_char a mod 4 * 16) = a"
  using byte0_join [of 0 a] by simp

lemma byte1_join [simp]:
  "byte1 (of_char a mod 4 * 16 + of_char b div 16) (of_char b mod 16 * 4 + k div 64) = b"
  if "k < 256" for k
proof -
  have "(of_char b mod 16 * 4 + k div 64) div 4 = (of_char b :: nat) mod 16" using that by auto
  moreover have "(of_char a mod 4 * 16 + of_char b div 16) mod 16 = (of_char b :: nat) div 16"
    by (simp add: div_lt_quot)
  ultimately show ?thesis unfolding byte1_def by (simp only: div_mult_mod_eq char_of_char)
qed

lemma byte1_last [simp]:
  "byte1 (of_char a mod 4 * 16 + of_char b div 16) (of_char b mod 16 * 4) = b"
  using byte1_join [of 0 a b] by simp

lemma byte2_join [simp]: "byte2 (of_char b mod 16 * 4 + of_char c div 64) (of_char c mod 64) = c"
proof -
  have "(of_char b mod 16 * 4 + of_char c div 64) mod 4 = (of_char c :: nat) div 64"
    by (simp add: div_lt_quot)
  then show ?thesis unfolding byte2_def by (simp only: div_mult_mod_eq char_of_char)
qed

lemma sextet_bounds [simp]:
  "(of_char (a :: char) :: nat) div 4 < 64"
  "(of_char (a :: char) :: nat) mod 4 * 16 < 64"
  "(of_char (a :: char) :: nat) mod 4 * 16 + of_char (b :: char) div 16 < 64"
  "(of_char (b :: char) :: nat) mod 16 * 4 < 64"
  "(of_char (b :: char) :: nat) mod 16 * 4 + of_char (c :: char) div 64 < 64"
  "(of_char (c :: char) :: nat) mod 64 < 64"
  using of_char_less_256 [of a] of_char_less_256 [of b] of_char_less_256 [of c] by linarith+

lemma b64_quads_encode: "b64_quads pad (b64_encode pad s) = Some s"
proof (induction pad s rule: b64_encode.induct)
  case (4 pad a b c s)
  then show ?case by (simp add: Let_def)
qed (simp_all add: Let_def b64_tail_def)

definition b64_out :: "char \<Rightarrow> bool" where
  "b64_out c \<longleftrightarrow> (\<exists>n < 64. c = b64_char n)"

lemma b64_out_char [simp]: "n < 64 \<Longrightarrow> b64_out (b64_char n)"
  by (auto simp: b64_out_def)

lemma b64_encode_chars: "c \<in> set (b64_encode pad s) \<Longrightarrow> b64_out c \<or> c = CHR ''=''"
proof (induction pad s rule: b64_encode.induct)
  case (2 pad a)
  then show ?case by (auto simp: Let_def split: if_splits)
next
  case (3 pad a b)
  then show ?case by (auto simp: Let_def split: if_splits)
next
  case (4 pad a b d s)
  then show ?case by (auto simp: Let_def)
qed simp

lemma b64_out_plain: "b64_out c \<Longrightarrow> plain_char c"
  by (auto simp: b64_out_def plain_b64_char)

lemma b64_out_no_newline: "b64_out c \<Longrightarrow> c \<noteq> CHR 0x0D \<and> c \<noteq> CHR 0x0A"
  by (auto simp: b64_out_def dest: b64_char_neq)

lemma b64_encode_no_newline:
  "filter (\<lambda>c. c \<noteq> CHR 0x0D \<and> c \<noteq> CHR 0x0A) (b64_encode pad s) = b64_encode pad s"
  by (auto simp: filter_id_conv dest!: b64_encode_chars dest: b64_out_no_newline)

theorem b64_decode_encode [simp]: "b64_decode pad (b64_encode pad s) = Some s"
  by (simp add: b64_decode_def b64_encode_no_newline b64_quads_encode)

lemma trim_space_b64 [simp]: "trim_space (b64_encode pad s) = b64_encode pad s"
  by (rule trim_space_all_plain)
     (auto dest!: b64_encode_chars intro: plain_ascii b64_out_plain)

lemma b64_encode_Nil_iff [simp]: "b64_encode pad s = [] \<longleftrightarrow> s = []"
  by (cases "(pad, s)" rule: b64_encode.cases) (auto simp: Let_def)

section \<open>The interface of an encoder and its decoder\<close>

text \<open>
  Pagination cursors, signed URLs and integers in messages all travel as text. A \<open>codec\<close> is a
  pair of functions whose round trip is the identity on the values that occur; a
  \<open>query_codec\<close> is one whose text survives the trimming every handler does on its
  parameters, and is never empty (the empty string means that the parameter is absent).
\<close>

locale codec =
  fixes enc :: "'a \<Rightarrow> string" and dec :: "string \<Rightarrow> 'a option" and ok :: "'a \<Rightarrow> bool"
  assumes dec_enc: "ok x \<Longrightarrow> dec (enc x) = Some x"
begin

lemma enc_inj: "ok x \<Longrightarrow> ok y \<Longrightarrow> enc x = enc y \<Longrightarrow> x = y"
  by (metis dec_enc option.inject)

end

locale query_codec = codec +
  assumes enc_trim: "ok x \<Longrightarrow> trim_space (enc x) = enc x"
    and enc_not_Nil: "ok x \<Longrightarrow> enc x \<noteq> []"
begin

lemma dec_trim_enc: "ok x \<Longrightarrow> dec (trim_space (enc x)) = Some x"
  by (simp add: enc_trim dec_enc)

lemma present: "ok x \<Longrightarrow> trim_space (enc x) \<noteq> []"
  by (simp add: enc_trim enc_not_Nil)

end

interpretation url64: query_codec "b64_encode True" "b64_decode True" "\<lambda>s. s \<noteq> []"
  by unfold_locales simp_all

interpretation raw64: query_codec "b64_encode False" "b64_decode False" "\<lambda>s. s \<noteq> []"
  by unfold_locales simp_all

interpretation int64: query_codec format_int parse_int in_int64
  by unfold_locales simp_all

end
