(* ===== verification/Social_Comments.thy ===== *)
theory Social_Comments
  imports Keyset Go_Base64
begin

text \<open>
  The comment store of the social service (services/social/internal/store/comments.go): its data,
  its interface \<open>CommentStore\<close> as a record of operations on a state, and the contract both
  implementations keep, as the locale \<open>comment_ledger\<close>.
\<close>

section \<open>Data\<close>

record comment =
  cID :: uuid
  cAnimeID :: string
  cUserID :: string
  cParentID :: "uuid option"
  cBody :: string
  cScore :: int
  cCreatedAt :: time
  cUpdatedAt :: "time option"
  cDeletedAt :: "time option"

record comment_tree_node =
  nComment :: comment
  nReplies :: "comment list"

definition SortTop :: string where
  "SortTop = ''top''"

datatype store_error =
  ErrNotFoundOrForbidden | ErrVoteRange | ErrInvalidCursor | ErrDB

text \<open>The two orders of a thread, newest first and highest score first.\<close>

definition new_key :: "comment \<Rightarrow> time \<times> uuid" where
  "new_key c = (cCreatedAt c, cID c)"

definition top_key :: "comment \<Rightarrow> int \<times> time \<times> uuid" where
  "top_key c = (cScore c, cCreatedAt c, cID c)"

definition is_root :: "string \<Rightarrow> comment \<Rightarrow> bool" where
  "is_root animeID c \<longleftrightarrow> cAnimeID c = animeID \<and> cParentID c = None"

definition clamp_limit :: "int \<Rightarrow> nat" where
  "clamp_limit limit = nat (if limit \<le> 0 \<or> 100 < limit then 50 else limit)"

lemma clamp_limit_pos [simp]: "0 < clamp_limit n" "Suc 0 \<le> clamp_limit n"
  by (auto simp: clamp_limit_def)

lemma clamp_limit_max: "clamp_limit n \<le> 100"
  by (auto simp: clamp_limit_def)

text \<open>What a client keeps of a page: the root comments and the cursor.\<close>

definition thread_page :: "store_error + comment_tree_node list \<times> string \<Rightarrow> (comment list \<times> string) option" where
  "thread_page r = (case r of Inl e \<Rightarrow> None | Inr (nodes, nxt) \<Rightarrow> Some (map nComment nodes, nxt))"

lemma inj_new_key: "inj_on cID A \<Longrightarrow> inj_on new_key A"
  by (auto simp: inj_on_def new_key_def)

lemma inj_top_key: "inj_on cID A \<Longrightarrow> inj_on top_key A"
  by (auto simp: inj_on_def top_key_def)

section \<open>The interface\<close>

record 's comment_store =
  Create :: "ctx \<Rightarrow> comment \<Rightarrow> 's \<Rightarrow> (store_error + comment) \<times> 's"
  GetThread :: "ctx \<Rightarrow> string \<Rightarrow> string \<Rightarrow> int \<Rightarrow> string \<Rightarrow> 's \<Rightarrow> store_error + comment_tree_node list \<times> string"
  UpdateBody :: "ctx \<Rightarrow> uuid \<Rightarrow> string \<Rightarrow> string \<Rightarrow> 's \<Rightarrow> (store_error + unit) \<times> 's"
  SoftDelete :: "ctx \<Rightarrow> uuid \<Rightarrow> string \<Rightarrow> 's \<Rightarrow> (store_error + unit) \<times> 's"
  Vote :: "ctx \<Rightarrow> uuid \<Rightarrow> string \<Rightarrow> i16 \<Rightarrow> 's \<Rightarrow> (store_error + unit) \<times> 's"

text \<open>The writes a client may ask for, one after the other.\<close>

datatype comment_op =
    OpCreate ctx comment
  | OpUpdate ctx uuid string string
  | OpDelete ctx uuid string
  | OpVote ctx uuid string i16

fun exec_op :: "('s, 'b) comment_store_scheme \<Rightarrow> comment_op \<Rightarrow> 's \<Rightarrow> 's" where
  "exec_op st (OpCreate x c) s = snd (Create st x c s)"
| "exec_op st (OpUpdate x cid uid b) s = snd (UpdateBody st x cid uid b s)"
| "exec_op st (OpDelete x cid uid) s = snd (SoftDelete st x cid uid s)"
| "exec_op st (OpVote x cid uid v) s = snd (Vote st x cid uid v s)"

definition exec_ops :: "('s, 'b) comment_store_scheme \<Rightarrow> comment_op list \<Rightarrow> 's \<Rightarrow> 's" where
  "exec_ops st ops s = fold (exec_op st) ops s"

text \<open>\<open>uuid.New\<close> and \<open>gen_random_uuid()\<close> do not return an identifier already in use.\<close>

fun fresh_op :: "('s \<Rightarrow> uuid \<Rightarrow> comment option) \<Rightarrow> comment_op \<Rightarrow> 's \<Rightarrow> bool" where
  "fresh_op look (OpCreate x c) s = (look s (fresh x) = None)"
| "fresh_op look _ s = True"

fun fresh_ops :: "('s, 'b) comment_store_scheme \<Rightarrow> ('s \<Rightarrow> uuid \<Rightarrow> comment option) \<Rightarrow> comment_op list \<Rightarrow> 's \<Rightarrow> bool" where
  "fresh_ops st look [] s = True"
| "fresh_ops st look (op # ops) s = (fresh_op look op s \<and> fresh_ops st look ops (exec_op st op s))"

text \<open>
  The tally of a comment: the sum of the current votes on it. \<open>vote s cid uid\<close> is the vote that
  counts for that user, 0 when there is none.
\<close>

definition tally :: "(uuid \<Rightarrow> string \<Rightarrow> i16) \<Rightarrow> uuid \<Rightarrow> int" where
  "tally vote cid = (\<Sum>u | vote cid u \<noteq> 0. sint (vote cid u))"

lemma tally_update:
  assumes fin: "finite {u. f cid u \<noteq> 0}"
  shows "tally (f(cid := (f cid)(uid := v))) cid = tally f cid - sint (f cid uid) + sint v"
proof -
  let ?A = "insert uid {u. f cid u \<noteq> 0}"
  have "tally (f(cid := (f cid)(uid := v))) cid
      = (\<Sum>u \<in> ?A. sint (((f cid)(uid := v)) u))"
    unfolding tally_def fun_upd_same
    by (rule sum.mono_neutral_left) (use fin in \<open>auto split: if_splits\<close>)
  also have "\<dots> = (\<Sum>u \<in> ?A - {uid}. sint (f cid u)) + sint v"
    using fin by (subst sum.remove [of _ uid]) (auto intro: sum.cong)
  also have "(\<Sum>u \<in> ?A - {uid}. sint (f cid u)) = (\<Sum>u \<in> ?A. sint (f cid u)) - sint (f cid uid)"
    using fin by (subst (2) sum.remove [of _ uid]) auto
  also have "(\<Sum>u \<in> ?A. sint (f cid u)) = tally f cid"
    unfolding tally_def by (rule sum.mono_neutral_right) (use fin in auto)
  finally show ?thesis .
qed

lemma tally_other: "cid' \<noteq> cid \<Longrightarrow> tally (f(cid := g)) cid' = tally f cid'"
  by (simp add: tally_def)

lemma tally_none: "(\<And>u. f cid u = 0) \<Longrightarrow> tally f cid = 0"
  by (simp add: tally_def)

text \<open>The 16-bit difference of two votes does not wrap.\<close>

lemma sint_vote_diff:
  "(v :: i16) \<in> {0, 1, -1} \<Longrightarrow> w \<in> {0, 1, -1} \<Longrightarrow> sint (v - w) = sint v - sint w"
  by auto

lemma sint_vote_abs: "(v :: i16) \<in> {0, 1, -1} \<Longrightarrow> \<bar>sint v\<bar> \<le> 1"
  by auto

section \<open>The contract\<close>

text \<open>
  \<open>look\<close> reads a stored comment by its identifier, \<open>canon\<close> is how the store reads the identifier text
  of a request, \<open>vote_of\<close> the vote a user has on a comment. An operation that fails changes nothing,
  one that succeeds changes one comment, as stated.
\<close>

locale comment_ledger =
  fixes st :: "('s, 'b) comment_store_scheme"
    and canon :: "string \<Rightarrow> uuid option"
    and look :: "'s \<Rightarrow> uuid \<Rightarrow> comment option"
    and vote_of :: "'s \<Rightarrow> uuid \<Rightarrow> string \<Rightarrow> i16"
    and inv :: "'s \<Rightarrow> bool"
  assumes inv_exec: "inv s \<Longrightarrow> fresh_op look op s \<Longrightarrow> inv (exec_op st op s)"
    and votes_finite: "inv s \<Longrightarrow> finite {u. vote_of s cid u \<noteq> 0}"
    and votes_valid: "inv s \<Longrightarrow> vote_of s cid u \<in> {0, 1, -1}"
    and votes_dom: "inv s \<Longrightarrow> look s cid = None \<Longrightarrow> vote_of s cid u = 0"
    and failed: "inv s \<Longrightarrow> fst (Create st x c s) = Inl e \<Longrightarrow> snd (Create st x c s) = s"
      "inv s \<Longrightarrow> fst (UpdateBody st x cid uid b s) = Inl e \<Longrightarrow> snd (UpdateBody st x cid uid b s) = s"
      "inv s \<Longrightarrow> fst (SoftDelete st x cid uid s) = Inl e \<Longrightarrow> snd (SoftDelete st x cid uid s) = s"
      "inv s \<Longrightarrow> fst (Vote st x cid uid v s) = Inl e \<Longrightarrow> snd (Vote st x cid uid v s) = s"
    and create_ok: "inv s \<Longrightarrow> look s (fresh x) = None \<Longrightarrow> Create st x c s = (Inr c', s') \<Longrightarrow>
      look s' = (look s)(fresh x \<mapsto> c') \<and> vote_of s' = vote_of s \<and> cID c' = fresh x \<and> cScore c' = 0 \<and>
      cUserID c' = cUserID c \<and> cAnimeID c' = cAnimeID c \<and> cBody c' = cBody c \<and> cCreatedAt c' = now x"
    and update_ok: "inv s \<Longrightarrow> UpdateBody st x cid uid b s = (Inr (), s') \<Longrightarrow>
      \<exists>k c. canon cid = Some k \<and> look s k = Some c \<and> cUserID c = uid \<and> cDeletedAt c = None \<and>
        look s' = (look s)(k \<mapsto> c\<lparr>cBody := b, cUpdatedAt := Some (now x)\<rparr>) \<and> vote_of s' = vote_of s"
    and delete_ok: "inv s \<Longrightarrow> SoftDelete st x cid uid s = (Inr (), s') \<Longrightarrow>
      \<exists>k c. canon cid = Some k \<and> look s k = Some c \<and> cUserID c = uid \<and> cDeletedAt c = None \<and>
        look s' = (look s)(k \<mapsto> c\<lparr>cBody := ''[deleted]'', cDeletedAt := Some (now x)\<rparr>) \<and>
        vote_of s' = vote_of s"
    and vote_ok: "inv s \<Longrightarrow> Vote st x cid uid v s = (Inr (), s') \<Longrightarrow>
      \<exists>k c. canon cid = Some k \<and> look s k = Some c \<and> (v = 1 \<or> v = -1) \<and>
        look s' = (look s)(k \<mapsto> c\<lparr>cScore := cScore c + sint (v - vote_of s k uid)\<rparr>) \<and>
        vote_of s' = (vote_of s)(k := (vote_of s k)(uid := v))"
begin

text \<open>One step: it changes nothing, or it is one of the four updates above.\<close>

lemma step_cases [consumes 2, case_names same create update delete vote]:
  assumes "inv s" "fresh_op look op s"
  obtains "exec_op st op s = s"
  | x c c' where "op = OpCreate x c" "look s (fresh x) = None"
      "look (exec_op st op s) = (look s)(fresh x \<mapsto> c')" "vote_of (exec_op st op s) = vote_of s"
      "cScore c' = 0"
  | x cid b k c where "op = OpUpdate x cid (cUserID c) b" "canon cid = Some k" "look s k = Some c"
      "cDeletedAt c = None" "vote_of (exec_op st op s) = vote_of s"
      "look (exec_op st op s) = (look s)(k \<mapsto> c\<lparr>cBody := b, cUpdatedAt := Some (now x)\<rparr>)"
  | x cid k c where "op = OpDelete x cid (cUserID c)" "canon cid = Some k" "look s k = Some c"
      "cDeletedAt c = None" "vote_of (exec_op st op s) = vote_of s"
      "look (exec_op st op s) = (look s)(k \<mapsto> c\<lparr>cBody := ''[deleted]'', cDeletedAt := Some (now x)\<rparr>)"
  | x cid uid v k c where "op = OpVote x cid uid v" "canon cid = Some k" "look s k = Some c"
      "v = 1 \<or> v = -1"
      "look (exec_op st op s) = (look s)(k \<mapsto> c\<lparr>cScore := cScore c + sint (v - vote_of s k uid)\<rparr>)"
      "vote_of (exec_op st op s) = (vote_of s)(k := (vote_of s k)(uid := v))"
proof (cases op)
  case (OpCreate x c)
  obtain r s' where r: "Create st x c s = (r, s')" by fastforce
  show ?thesis
  proof (cases r)
    case (Inl e)
    with r failed(1) [OF assms(1), of x c e] OpCreate show ?thesis using that(1) by simp
  next
    case (Inr c')
    from create_ok [OF assms(1) _ r [unfolded Inr]] assms(2) OpCreate r show ?thesis
      using that(2) by simp
  qed
next
  case (OpUpdate x cid uid b)
  obtain r s' where r: "UpdateBody st x cid uid b s = (r, s')" by fastforce
  show ?thesis
  proof (cases r)
    case (Inl e)
    with r failed(2) [OF assms(1), of x cid uid b e] OpUpdate show ?thesis using that(1) by simp
  next
    case (Inr u)
    from update_ok [OF assms(1), of x cid uid b s'] OpUpdate r Inr show ?thesis
      using that(3) by auto
  qed
next
  case (OpDelete x cid uid)
  obtain r s' where r: "SoftDelete st x cid uid s = (r, s')" by fastforce
  show ?thesis
  proof (cases r)
    case (Inl e)
    with r failed(3) [OF assms(1), of x cid uid e] OpDelete show ?thesis using that(1) by simp
  next
    case (Inr u)
    from delete_ok [OF assms(1), of x cid uid s'] OpDelete r Inr show ?thesis
      using that(4) by auto
  qed
next
  case (OpVote x cid uid v)
  obtain r s' where r: "Vote st x cid uid v s = (r, s')" by fastforce
  show ?thesis
  proof (cases r)
    case (Inl e)
    with r failed(4) [OF assms(1), of x cid uid v e] OpVote show ?thesis using that(1) by simp
  next
    case (Inr u)
    from vote_ok [OF assms(1), of x cid uid v s'] OpVote r Inr show ?thesis
      using that(5) by auto
  qed
qed

text \<open>Along every run the score of every comment is the sum of the votes on it.\<close>

lemma ledger_step:
  assumes "inv s" "fresh_op look op s" "\<And>k c. look s k = Some c \<Longrightarrow> cScore c = tally (vote_of s) k"
    and "look (exec_op st op s) k = Some c"
  shows "cScore c = tally (vote_of (exec_op st op s)) k"
  using assms(1,2)
proof (cases rule: step_cases)
  case (create x c0 c')
  from create votes_dom [OF assms(1) create(2)] assms(3,4) show ?thesis
    by (auto simp: tally_none split: if_splits)
next
  case (vote x cid uid v k' c')
  have "sint (v - vote_of s k' uid) = sint v - sint (vote_of s k' uid)"
    using vote(4) votes_valid [OF assms(1)] by (intro sint_vote_diff) auto
  moreover have "tally ((vote_of s)(k' := (vote_of s k')(uid := v))) k' =
      tally (vote_of s) k' - sint (vote_of s k' uid) + sint v"
    by (rule tally_update [OF votes_finite [OF assms(1)]])
  ultimately show ?thesis
    using vote assms(3) [of k] assms(3) [of k'] assms(4)
    by (cases "k = k'") (auto simp: tally_other)
qed (use assms(3,4) in \<open>auto split: if_splits\<close>)

lemma inv_ops: "inv s \<Longrightarrow> fresh_ops st look ops s \<Longrightarrow> inv (exec_ops st ops s)"
  by (induction ops arbitrary: s) (auto simp: exec_ops_def inv_exec)

lemma ledger:
  assumes "inv s" "fresh_ops st look ops s" "\<And>k c. look s k = Some c \<Longrightarrow> cScore c = tally (vote_of s) k"
    and "look (exec_ops st ops s) k = Some c"
  shows "cScore c = tally (vote_of (exec_ops st ops s)) k"
  using assms
proof (induction ops arbitrary: s)
  case (Cons op ops)
  then have "fresh_op look op s" "fresh_ops st look ops (exec_op st op s)" by simp_all
  note f = this
  have look: "look (exec_ops st ops (exec_op st op s)) k = Some c"
    using Cons.prems(4) by (simp add: exec_ops_def)
  have "cScore c = tally (vote_of (exec_ops st ops (exec_op st op s))) k"
    by (rule Cons.IH [OF inv_exec [OF Cons.prems(1) f(1)] f(2) _ look])
       (rule ledger_step [OF Cons.prems(1) f(1) Cons.prems(3)])
  then show ?case by (simp add: exec_ops_def)
qed (simp add: exec_ops_def)

text \<open>A score never exceeds the number of users who voted.\<close>

lemma tally_bound: "inv s \<Longrightarrow> \<bar>tally (vote_of s) k\<bar> \<le> int (card {u. vote_of s k u \<noteq> 0})"
proof -
  assume "inv s"
  have "\<bar>tally (vote_of s) k\<bar> \<le> (\<Sum>u | vote_of s k u \<noteq> 0. \<bar>sint (vote_of s k u)\<bar>)"
    unfolding tally_def by (rule sum_abs)
  also have "\<dots> \<le> (\<Sum>u | vote_of s k u \<noteq> 0. 1)"
    using votes_valid [OF \<open>inv s\<close>] sint_vote_abs by (intro sum_mono) blast
  finally show ?thesis by simp
qed

text \<open>
  What one step may do to a stored comment: identity and author never change, a deleted comment keeps
  its body and its deletion time, and the body changes only by its author.
\<close>

lemma step_frame:
  assumes "inv s" "fresh_op look op s" "look s k = Some c"
  obtains c' where "look (exec_op st op s) k = Some c'"
    "cID c' = cID c" "cUserID c' = cUserID c" "cAnimeID c' = cAnimeID c" "cParentID c' = cParentID c"
    "cCreatedAt c' = cCreatedAt c"
    "cDeletedAt c \<noteq> None \<Longrightarrow> cBody c' = cBody c \<and> cDeletedAt c' = cDeletedAt c"
    "cBody c' \<noteq> cBody c \<Longrightarrow> (\<exists>x cid. op = OpUpdate x cid (cUserID c) (cBody c') \<or> op = OpDelete x cid (cUserID c))"
    "cDeletedAt c' \<noteq> cDeletedAt c \<Longrightarrow> (\<exists>x cid. op = OpDelete x cid (cUserID c))"
  using assms(1,2)
proof (cases rule: step_cases)
  case same
  then show ?thesis using that [of c] assms(3) by simp
next
  case (create x c0 c')
  then have "k \<noteq> fresh x" using assms(3) by auto
  with create show ?thesis using that [of c] assms(3) by simp
next
  case (update x cid b k' c')
  then show ?thesis using that assms(3) by (cases "k = k'") auto
next
  case (delete x cid k' c')
  then show ?thesis using that assms(3) by (cases "k = k'") auto
next
  case (vote x cid uid v k' c')
  then show ?thesis using that assms(3) by (cases "k = k'") auto
qed

text \<open>Deletion is permanent and identity stable along every run.\<close>

lemma deleted_forever:
  assumes "inv s" "fresh_ops st look ops s" "look s k = Some c" "cDeletedAt c = Some t"
  shows "\<exists>c'. look (exec_ops st ops s) k = Some c' \<and> cDeletedAt c' = Some t \<and> cBody c' = cBody c \<and>
    cUserID c' = cUserID c"
  using assms
proof (induction ops arbitrary: s c)
  case (Cons op ops)
  then have f: "fresh_op look op s" "fresh_ops st look ops (exec_op st op s)" by simp_all
  obtain c1 where "look (exec_op st op s) k = Some c1" "cUserID c1 = cUserID c"
    "cBody c1 = cBody c" "cDeletedAt c1 = Some t"
    by (rule step_frame [OF Cons.prems(1) f(1) Cons.prems(3)]) (use Cons.prems(4) in auto)
  then show ?case
    using Cons.IH [OF inv_exec [OF Cons.prems(1) f(1)] f(2), of c1] by (simp add: exec_ops_def)
qed (simp add: exec_ops_def)

text \<open>Only the author's own updates and deletions ever change a body.\<close>

lemma body_by_author:
  assumes "inv s" "fresh_ops st look ops s" "look s k = Some c"
    and "\<And>x cid b. OpUpdate x cid (cUserID c) b \<notin> set ops" "\<And>x cid. OpDelete x cid (cUserID c) \<notin> set ops"
  shows "\<exists>c'. look (exec_ops st ops s) k = Some c' \<and> cBody c' = cBody c \<and>
    cDeletedAt c' = cDeletedAt c \<and> cUserID c' = cUserID c"
  using assms
proof (induction ops arbitrary: s c)
  case (Cons op ops)
  then have f: "fresh_op look op s" "fresh_ops st look ops (exec_op st op s)" by simp_all
  obtain c1 where c1: "look (exec_op st op s) k = Some c1" "cUserID c1 = cUserID c"
    "cBody c1 = cBody c" "cDeletedAt c1 = cDeletedAt c"
    by (rule step_frame [OF Cons.prems(1) f(1) Cons.prems(3)])
       (use Cons.prems(4,5) in \<open>metis list.set_intros(1)\<close>)
  have "OpUpdate x cid (cUserID c1) b \<notin> set ops" "OpDelete x cid (cUserID c1) \<notin> set ops" for x cid b
    using c1(2) Cons.prems(4,5) by auto
  from Cons.IH [OF inv_exec [OF Cons.prems(1) f(1)] f(2) c1(1) this] c1
  show ?case by (simp add: exec_ops_def)
qed (simp add: exec_ops_def)

text \<open>The last vote of a user replaces the earlier ones: a repeated vote does not count twice.\<close>

lemma revote:
  assumes "inv s" "Vote st x cid uid v s = (Inr (), s1)" "inv s1"
    and "Vote st y cid uid w s1 = (Inr (), s2)"
    and "canon cid = Some k" "look s k = Some c"
  shows "look s2 = (look s)(k \<mapsto> c\<lparr>cScore := cScore c + sint (w - vote_of s k uid)\<rparr>)"
    and "vote_of s2 = (vote_of s)(k := (vote_of s k)(uid := w))"
proof -
  from vote_ok [OF assms(1,2)] assms(5,6) have 1: "v = 1 \<or> v = -1"
    "look s1 = (look s)(k \<mapsto> c\<lparr>cScore := cScore c + sint (v - vote_of s k uid)\<rparr>)"
    "vote_of s1 = (vote_of s)(k := (vote_of s k)(uid := v))" by auto
  from vote_ok [OF assms(3,4)] assms(5) 1 have 2: "w = 1 \<or> w = -1"
    "look s2 = (look s)(k \<mapsto> c\<lparr>cScore := cScore c + sint (v - vote_of s k uid) + sint (w - v)\<rparr>)"
    "vote_of s2 = (vote_of s)(k := (vote_of s k)(uid := w))" by auto
  have "sint (v - vote_of s k uid) = sint v - sint (vote_of s k uid)" "sint (w - v) = sint w - sint v"
    "sint (w - vote_of s k uid) = sint w - sint (vote_of s k uid)"
    using 1(1) 2(1) votes_valid [OF assms(1)] by (auto intro!: sint_vote_diff)
  with 2 show "look s2 = (look s)(k \<mapsto> c\<lparr>cScore := cScore c + sint (w - vote_of s k uid)\<rparr>)"
    "vote_of s2 = (vote_of s)(k := (vote_of s k)(uid := w))" by simp_all
qed

end

end
