(* ===== verification/Social_Memory.thy ===== *)
theory Social_Memory
  imports Social_Comments
begin

text \<open>
  \<open>InMemoryCommentStore\<close> (services/social/internal/store/comments_memory.go): two Go maps under one
  mutex. Each method holds the mutex from entry to return, so a method is one atomic step on the
  state. The interpretation \<open>memory\<close> discharges the contract \<open>comment_ledger\<close> for it, and
  \<open>mem_thread\<close> the paging contract of \<open>Keyset\<close>.
\<close>

section \<open>State and operations\<close>

record mem_comments =
  mComments :: "uuid \<rightharpoonup> comment"
  mVotes :: "uuid \<rightharpoonup> (string \<rightharpoonup> i16)"

definition NewInMemoryCommentStore :: mem_comments where
  "NewInMemoryCommentStore = \<lparr>mComments = Map.empty, mVotes = Map.empty\<rparr>"

definition mem_create :: "ctx \<Rightarrow> comment \<Rightarrow> mem_comments \<Rightarrow> (store_error + comment) \<times> mem_comments" where
  "mem_create x c s =
     (let c' = c\<lparr>cID := fresh x, cCreatedAt := now x, cScore := 0\<rparr>
      in (Inr c', s\<lparr>mComments := (mComments s)(cID c' \<mapsto> c')\<rparr>))"

definition less_top :: "comment \<Rightarrow> comment \<Rightarrow> bool" where
  "less_top a b =
     (if cScore a \<noteq> cScore b then cScore b < cScore a
      else if cCreatedAt a \<noteq> cCreatedAt b then cCreatedAt b < cCreatedAt a
      else cID b < cID a)"

definition less_new :: "comment \<Rightarrow> comment \<Rightarrow> bool" where
  "less_new a b =
     (if cCreatedAt a \<noteq> cCreatedAt b then cCreatedAt b < cCreatedAt a else cID b < cID a)"

fun start_idx :: "string \<Rightarrow> nat \<Rightarrow> comment list \<Rightarrow> nat" where
  "start_idx cursor i [] = 0"
| "start_idx cursor i (r # rs) = (if cID r = cursor then i + 1 else start_idx cursor (i + 1) rs)"

definition mem_replies :: "ctx \<Rightarrow> mem_comments \<Rightarrow> nat \<Rightarrow> comment \<Rightarrow> comment list" where
  "mem_replies x s i root =
     sort_slice (\<lambda>a b. cCreatedAt a < cCreatedAt b)
       (filter (\<lambda>c. cParentID c = Some (cID root)) (range_map (mComments s) (order x (Suc i))))"

definition mem_get_thread ::
  "ctx \<Rightarrow> string \<Rightarrow> string \<Rightarrow> int \<Rightarrow> string \<Rightarrow> mem_comments \<Rightarrow> store_error + comment_tree_node list \<times> string" where
  "mem_get_thread x animeID sortBy limit cursor s =
     (let limit = clamp_limit limit;
          roots = filter (is_root animeID)
                    (range_map (mComments s) (order x 0));
          roots = sort_slice (if sortBy = SortTop then less_top else less_new) roots;
          startIdx = (if cursor \<noteq> [] then start_idx cursor 0 roots else 0)
      in if length roots \<le> startIdx then Inr ([], [])
         else
           let roots = drop startIdx roots;
               nextCursor = (if limit < length roots then cID (roots ! (limit - 1)) else []);
               roots = (if limit < length roots then take limit roots else roots)
           in Inr (map (\<lambda>(i, root). \<lparr>nComment = root, nReplies = mem_replies x s i root\<rparr>)
                     (enumerate 0 roots), nextCursor))"

definition mem_update_body ::
  "ctx \<Rightarrow> uuid \<Rightarrow> string \<Rightarrow> string \<Rightarrow> mem_comments \<Rightarrow> (store_error + unit) \<times> mem_comments" where
  "mem_update_body x commentID userID body s =
     (case mComments s commentID of
        None \<Rightarrow> (Inl ErrNotFoundOrForbidden, s)
      | Some c \<Rightarrow>
          if cUserID c \<noteq> userID \<or> cDeletedAt c \<noteq> None then (Inl ErrNotFoundOrForbidden, s)
          else (Inr (), s\<lparr>mComments := (mComments s)
                  (commentID \<mapsto> c\<lparr>cBody := body, cUpdatedAt := Some (now x)\<rparr>)\<rparr>))"

definition mem_soft_delete ::
  "ctx \<Rightarrow> uuid \<Rightarrow> string \<Rightarrow> mem_comments \<Rightarrow> (store_error + unit) \<times> mem_comments" where
  "mem_soft_delete x commentID userID s =
     (case mComments s commentID of
        None \<Rightarrow> (Inl ErrNotFoundOrForbidden, s)
      | Some c \<Rightarrow>
          if cUserID c \<noteq> userID \<or> cDeletedAt c \<noteq> None then (Inl ErrNotFoundOrForbidden, s)
          else (Inr (), s\<lparr>mComments := (mComments s)
                  (commentID \<mapsto> c\<lparr>cBody := ''[deleted]'', cDeletedAt := Some (now x)\<rparr>)\<rparr>))"

definition mem_vote ::
  "ctx \<Rightarrow> uuid \<Rightarrow> string \<Rightarrow> i16 \<Rightarrow> mem_comments \<Rightarrow> (store_error + unit) \<times> mem_comments" where
  "mem_vote x commentID userID vote s =
     (case mComments s commentID of
        None \<Rightarrow> (Inl ErrNotFoundOrForbidden, s)
      | Some c \<Rightarrow>
          if vote \<noteq> 1 \<and> vote \<noteq> -1 then (Inl ErrVoteRange, s)
          else
            let users = (case mVotes s commentID of None \<Rightarrow> Map.empty | Some m \<Rightarrow> m);
                oldVote = (case users userID of None \<Rightarrow> 0 | Some v \<Rightarrow> v);
                delta = vote - oldVote
            in (Inr (), s\<lparr>mVotes := (mVotes s)(commentID \<mapsto> users(userID \<mapsto> vote)),
                          mComments := (mComments s)(commentID \<mapsto> c\<lparr>cScore := cScore c + sint delta\<rparr>)\<rparr>))"

definition mem_store :: "mem_comments comment_store" where
  "mem_store = \<lparr>Create = mem_create, GetThread = mem_get_thread, UpdateBody = mem_update_body,
     SoftDelete = mem_soft_delete, Vote = mem_vote\<rparr>"

lemmas mem_ops = mem_store_def mem_create_def mem_update_body_def mem_soft_delete_def mem_vote_def

section \<open>The contract\<close>

definition mem_vote_of :: "mem_comments \<Rightarrow> uuid \<Rightarrow> string \<Rightarrow> i16" where
  "mem_vote_of s cid uid =
     (case mVotes s cid of None \<Rightarrow> 0 | Some m \<Rightarrow> (case m uid of None \<Rightarrow> 0 | Some v \<Rightarrow> v))"

definition mem_inv :: "mem_comments \<Rightarrow> bool" where
  "mem_inv s \<longleftrightarrow>
     (\<forall>k c. mComments s k = Some c \<longrightarrow> cID c = k) \<and>
     (\<forall>k m. mVotes s k = Some m \<longrightarrow> finite (dom m) \<and> (\<forall>u v. m u = Some v \<longrightarrow> v = 1 \<or> v = -1) \<and>
       mComments s k \<noteq> None)"

lemma mem_vote_of_upd:
  "mVotes s' = (mVotes s)(k \<mapsto> (case mVotes s k of None \<Rightarrow> Map.empty | Some m \<Rightarrow> m)(u \<mapsto> v)) \<Longrightarrow>
   mem_vote_of s' = (mem_vote_of s)(k := (mem_vote_of s k)(u := v))"
  by (auto simp: mem_vote_of_def fun_eq_iff split: option.splits)

lemma mem_inv_exec:
  assumes "mem_inv s" "fresh_op mComments op s"
  shows "mem_inv (exec_op mem_store op s)"
  using assms
  by (cases op) (auto simp: mem_ops mem_inv_def Let_def split: option.splits if_splits)

lemma mem_new_inv [simp]: "mem_inv NewInMemoryCommentStore"
  by (simp add: mem_inv_def NewInMemoryCommentStore_def)

interpretation memory: comment_ledger mem_store Some mComments mem_vote_of mem_inv
proof (unfold_locales, goal_cases)
  case (1 s op) then show ?case by (rule mem_inv_exec)
next
  case (2 s cid)
  have "{u. mem_vote_of s cid u \<noteq> 0} \<subseteq> (case mVotes s cid of None \<Rightarrow> {} | Some m \<Rightarrow> dom m)"
    by (auto simp: mem_vote_of_def split: option.splits)
  moreover have "finite (case mVotes s cid of None \<Rightarrow> {} | Some m \<Rightarrow> dom m)"
    using 2 by (auto simp: mem_inv_def split: option.splits)
  ultimately show ?case by (rule finite_subset)
next
  case (3 s cid u)
  then show ?case by (fastforce simp: mem_inv_def mem_vote_of_def split: option.splits)
next
  case (4 s cid u)
  then have "mVotes s cid = None" by (cases "mVotes s cid") (fastforce simp: mem_inv_def)+
  then show ?case by (simp add: mem_vote_of_def)
next
  case (9 s x c c' s')
  then show ?case by (auto simp: mem_ops Let_def mem_vote_of_def fun_eq_iff)
next
  case (10 s x cid uid b s')
  then show ?case
    by (auto simp: mem_ops Let_def mem_vote_of_def fun_eq_iff split: option.splits if_splits)
next
  case (11 s x cid uid s')
  then show ?case
    by (auto simp: mem_ops Let_def mem_vote_of_def fun_eq_iff split: option.splits if_splits)
next
  case (12 s x cid uid v s')
  then obtain c where c: "mComments s cid = Some c" "v = 1 \<or> v = -1"
    by (auto simp: mem_ops Let_def split: option.splits if_splits)
  with 12 have "mVotes s' = (mVotes s)(cid \<mapsto> (case mVotes s cid of None \<Rightarrow> Map.empty | Some m \<Rightarrow> m)(uid \<mapsto> v))"
    by (auto simp: mem_ops Let_def)
  moreover have "mComments s' = (mComments s)(cid \<mapsto> c\<lparr>cScore := cScore c + sint (v - mem_vote_of s cid uid)\<rparr>)"
    using 12 c by (auto simp: mem_ops Let_def mem_vote_of_def split: option.splits)
  ultimately show ?case using c mem_vote_of_upd by blast
qed (auto simp: mem_ops Let_def split: option.splits if_splits)

section \<open>Paging\<close>

definition order_ok :: "mem_comments \<Rightarrow> ctx \<Rightarrow> bool" where
  "order_ok s x \<longleftrightarrow> (\<forall>i. distinct (order x i) \<and> set (order x i) = dom (mComments s))"

lemma less_new_key: "less_new a b \<longleftrightarrow> new_key b < new_key a"
  by (auto simp: less_new_def new_key_def)

lemma less_top_key: "less_top a b \<longleftrightarrow> top_key b < top_key a"
  by (auto simp: less_top_def top_key_def)

lemma range_map_distinct:
  assumes "\<And>k c. m k = Some c \<Longrightarrow> cID c = k" "distinct ks"
  shows "distinct (range_map m ks)"
  using assms(2) by (induction ks)
    (auto simp: range_map_def map_filter_simps range_map_set [unfolded range_map_def]
       split: option.splits dest: assms(1))

lemma start_idx_hit:
  "distinct (map cID (ys @ r # zs)) \<Longrightarrow> start_idx (cID r) i (ys @ r # zs) = i + Suc (length ys)"
  by (induction ys arbitrary: i) auto

definition mem_roots :: "string \<Rightarrow> string \<Rightarrow> ctx \<Rightarrow> mem_comments \<Rightarrow> comment list" where
  "mem_roots animeID sortBy x s =
     sort_slice (if sortBy = SortTop then less_top else less_new)
       (filter (is_root animeID) (range_map (mComments s) (order x 0)))"

lemma map_nComment_nodes [simp]:
  "map (nComment \<circ> (\<lambda>(i, root). \<lparr>nComment = root, nReplies = f i root\<rparr>)) (enumerate n rs) = rs"
  by (induction rs arbitrary: n) auto

lemma mem_thread_page:
  "thread_page (mem_get_thread x animeID sortBy limit cursor s) =
     Some (page_cut (clamp_limit limit) cID
       (drop (if cursor \<noteq> [] then start_idx cursor 0 (mem_roots animeID sortBy x s) else 0)
         (mem_roots animeID sortBy x s)))"
  by (auto simp: mem_get_thread_def thread_page_def page_of_def mem_roots_def Let_def)

text \<open>The roots come in the same order whatever the iteration order of the map was.\<close>

lemma mem_roots_desc:
  assumes "mem_inv s" "order_ok s x"
  shows "set (mem_roots animeID sortBy x s) = {c. \<exists>k. mComments s k = Some c \<and> is_root animeID c}"
    and "sortBy = SortTop \<Longrightarrow> strict_desc top_key (mem_roots animeID sortBy x s)"
    and "sortBy \<noteq> SortTop \<Longrightarrow> strict_desc new_key (mem_roots animeID sortBy x s)"
    and "distinct (map cID (mem_roots animeID sortBy x s))"
proof -
  let ?rows = "filter (is_root animeID) (range_map (mComments s) (order x 0))"
  have id: "cID c = k" if "mComments s k = Some c" for k c using assms(1) that by (simp add: mem_inv_def)
  have d: "distinct ?rows"
    using range_map_distinct [of "mComments s"] id assms(2) by (simp add: order_ok_def)
  have set_rows: "set ?rows = {c. \<exists>k. mComments s k = Some c \<and> is_root animeID c}"
    using assms(2) by (auto simp: range_map_set order_ok_def dom_def)
  have i: "inj_on cID (set ?rows)" unfolding set_rows
  proof (rule inj_onI, clarify)
    fix a b k k'
    assume "cID a = cID b" and a: "mComments s k = Some a" and b: "mComments s k' = Some b"
    then have "k = k'" using id [OF a] id [OF b] by simp
    with a b show "a = b" by simp
  qed
  show "set (mem_roots animeID sortBy x s) = {c. \<exists>k. mComments s k = Some c \<and> is_root animeID c}"
    by (simp only: mem_roots_def set_sort_slice set_rows)
  show "strict_desc top_key (mem_roots animeID sortBy x s)" if "sortBy = SortTop"
    using strict_desc_sort_slice [OF less_top_key d inj_top_key [OF i]] that by (simp add: mem_roots_def)
  show "strict_desc new_key (mem_roots animeID sortBy x s)" if "sortBy \<noteq> SortTop"
    using strict_desc_sort_slice [OF less_new_key d inj_new_key [OF i]] that by (simp add: mem_roots_def)
  show "distinct (map cID (mem_roots animeID sortBy x s))"
    using d i by (simp only: mem_roots_def distinct_map distinct_sort_slice set_sort_slice simp_thms)
qed

lemma mem_roots_order:
  assumes "mem_inv s" "order_ok s x" "order_ok s y"
  shows "mem_roots animeID sortBy x s = mem_roots animeID sortBy y s"
proof (cases "sortBy = SortTop")
  case True
  show ?thesis
    by (rule strict_desc_unique [where k = top_key])
       (simp_all only: mem_roots_desc [OF assms(1,2)] mem_roots_desc [OF assms(1,3)] True)
next
  case False
  show ?thesis
    by (rule strict_desc_unique [where k = new_key])
       (simp_all only: mem_roots_desc(1) [OF assms(1,2)] mem_roots_desc(1) [OF assms(1,3)]
          mem_roots_desc(3) [OF assms(1,2) False] mem_roots_desc(3) [OF assms(1,3) False])
qed

text \<open>Every request of the walk may see another iteration order: \<open>xs\<close> gives it per cursor.\<close>

interpretation mem_thread: pager
  "\<lambda>c. thread_page (mem_get_thread (xs c) animeID sortBy limit c s)"
  "mem_roots animeID sortBy (xs []) s" cID "clamp_limit limit"
  "mem_inv s \<and> (\<forall>c. order_ok s (xs c)) \<and> mComments s [] = None" "(<)"
  for s xs animeID sortBy limit
proof (unfold_locales, goal_cases)
  case (5 ys r zs)
  then have ok: "mem_inv s" "order_ok s (xs c)" for c by simp_all
  have r: "r \<in> set (mem_roots animeID sortBy (xs []) s)" using 5 by simp
  then have "cID r \<noteq> []"
    using 5(1) mem_roots_desc(1) [OF ok] by (auto simp: mem_inv_def)
  moreover have "mem_roots animeID sortBy (xs (cID r)) s = ys @ r # zs"
    using mem_roots_order [OF ok ok(2)] 5(2) by metis
  moreover have "start_idx (cID r) 0 (ys @ r # zs) = Suc (length ys)"
    using start_idx_hit [of ys r zs 0] mem_roots_desc(4) [OF ok] 5(2) by (metis add_0)
  ultimately show ?case by (simp add: mem_thread_page)
next
  case (6 r)
  then show ?case
    using mem_roots_desc(1) [of s "xs []" animeID sortBy] by (auto simp: mem_inv_def)
qed (simp_all add: mem_thread_page)

end
