(* ===== verification/Social_Postgres.thy ===== *)
theory Social_Postgres
  imports Social_Comments
begin

text \<open>
  \<open>PostgresCommentStore\<close> (services/social/internal/store/comments_postgres.go) over the tables of
  services/social/migrations: a table is the list of its rows, a query filters, sorts and limits it, and
  the constraints of the schema (primary keys, \<open>REFERENCES\<close>, \<open>CHECK\<close>, the width of \<open>INT\<close>) are conditions
  under which a statement fails. \<open>fault x i\<close> makes statement \<open>i\<close> of a call fail for any other reason; a
  transaction that does not commit leaves the tables as they were. The driver's reading of identifier
  text is the parameter \<open>uuid_of\<close>. The interpretation \<open>postgres\<close> discharges \<open>comment_ledger\<close>.
\<close>

section \<open>Cursors\<close>

definition encodeNewCursor :: "time \<Rightarrow> string \<Rightarrow> string" where
  "encodeNewCursor t id' = b64_encode True (format_int t @ CHR ''|'' # id')"

definition decodeNewCursor :: "string \<Rightarrow> (time \<times> string) option" where
  "decodeNewCursor c =
     (case b64_decode True c of
        None \<Rightarrow> None
      | Some raw \<Rightarrow>
          (case split_n 2 CHR ''|'' raw of
             [p0, p1] \<Rightarrow> (case scan_int p0 of None \<Rightarrow> None | Some nanos \<Rightarrow> Some (nanos, p1))
           | _ \<Rightarrow> None))"

definition encodeTopCursor :: "int \<Rightarrow> time \<Rightarrow> string \<Rightarrow> string" where
  "encodeTopCursor score t id' =
     b64_encode True (format_int score @ CHR ''|'' # format_int t @ CHR ''|'' # id')"

definition decodeTopCursor :: "string \<Rightarrow> (int \<times> time \<times> string) option" where
  "decodeTopCursor c =
     (case b64_decode True c of
        None \<Rightarrow> None
      | Some raw \<Rightarrow>
          (case split_n 3 CHR ''|'' raw of
             [p0, p1, p2] \<Rightarrow>
               (case scan_int p0 of
                  None \<Rightarrow> None
                | Some score \<Rightarrow>
                    (case scan_int p1 of None \<Rightarrow> None | Some nanos \<Rightarrow> Some (score, nanos, p2)))
           | _ \<Rightarrow> None))"

lemma decode_encode_new: "in_int64 t \<Longrightarrow> decodeNewCursor (encodeNewCursor t i) = Some (t, i)"
  by (simp add: decodeNewCursor_def encodeNewCursor_def split_n_two format_int_no_sep)

lemma decode_encode_top:
  "in_int64 sc \<Longrightarrow> in_int64 t \<Longrightarrow> decodeTopCursor (encodeTopCursor sc t i) = Some (sc, t, i)"
  by (simp add: decodeTopCursor_def encodeTopCursor_def split_n_three format_int_no_sep)

interpretation new_cursor: query_codec "\<lambda>(t, i). encodeNewCursor t i" decodeNewCursor "\<lambda>(t, i). in_int64 t"
proof (unfold_locales, goal_cases)
  case (1 x) then show ?case by (auto simp: decode_encode_new)
qed (auto simp: encodeNewCursor_def)

interpretation top_cursor: query_codec "\<lambda>(sc, t, i). encodeTopCursor sc t i" decodeTopCursor
  "\<lambda>(sc, t, i). in_int64 sc \<and> in_int64 t"
proof (unfold_locales, goal_cases)
  case (1 x) then show ?case by (auto simp: decode_encode_top)
qed (auto simp: encodeTopCursor_def)

section \<open>State and operations\<close>

record vote_row =
  vComment :: uuid
  vUser :: string
  vVote :: i16

definition vote_key :: "vote_row \<Rightarrow> uuid \<times> string" where
  "vote_key r = (vComment r, vUser r)"

record pg_comments =
  pComments :: "comment list"
  pVotes :: "vote_row list"

definition in_int32 :: "int \<Rightarrow> bool" where
  "in_int32 i \<longleftrightarrow> -(2 ^ 31) \<le> i \<and> i < 2 ^ 31"

definition pg_create ::
  "(string \<Rightarrow> uuid option) \<Rightarrow> ctx \<Rightarrow> comment \<Rightarrow> pg_comments \<Rightarrow> (store_error + comment) \<times> pg_comments" where
  "pg_create uuid_of x c s =
     (case (case cParentID c of None \<Rightarrow> Some None | Some p \<Rightarrow> map_option Some (uuid_of p)) of
        None \<Rightarrow> (Inl ErrDB, s)
      | Some parent \<Rightarrow>
          if fault x 0 \<or> (\<exists>p \<in> set_option parent. p \<notin> cID ` set (pComments s)) \<or>
             fresh x \<in> cID ` set (pComments s)
          then (Inl ErrDB, s)
          else
            let row = \<lparr>cID = fresh x, cAnimeID = cAnimeID c, cUserID = cUserID c, cParentID = parent,
                  cBody = cBody c, cScore = 0, cCreatedAt = now x, cUpdatedAt = None, cDeletedAt = None\<rparr>
            in (Inr row, s\<lparr>pComments := pComments s @ [row]\<rparr>))"

definition queryRootsNew ::
  "(string \<Rightarrow> uuid option) \<Rightarrow> ctx \<Rightarrow> string \<Rightarrow> nat \<Rightarrow> string \<Rightarrow> pg_comments \<Rightarrow> store_error + comment list" where
  "queryRootsNew uuid_of x animeID limit cursor s =
     (if cursor = [] then
        if fault x 0 then Inl ErrDB
        else Inr (take limit (order_by_desc new_key (filter (is_root animeID) (pComments s))))
      else
        (case decodeNewCursor cursor of
           None \<Rightarrow> Inl ErrInvalidCursor
         | Some (t, i) \<Rightarrow>
             (case uuid_of i of
                None \<Rightarrow> Inl ErrDB
              | Some k \<Rightarrow>
                  if fault x 0 then Inl ErrDB
                  else Inr (take limit (order_by_desc new_key
                         (filter (\<lambda>c. is_root animeID c \<and> new_key c < (pg_time t, k)) (pComments s)))))))"

definition queryRootsTop ::
  "(string \<Rightarrow> uuid option) \<Rightarrow> ctx \<Rightarrow> string \<Rightarrow> nat \<Rightarrow> string \<Rightarrow> pg_comments \<Rightarrow> store_error + comment list" where
  "queryRootsTop uuid_of x animeID limit cursor s =
     (if cursor = [] then
        if fault x 0 then Inl ErrDB
        else Inr (take limit (order_by_desc top_key (filter (is_root animeID) (pComments s))))
      else
        (case decodeTopCursor cursor of
           None \<Rightarrow> Inl ErrInvalidCursor
         | Some (score, t, i) \<Rightarrow>
             (case uuid_of i of
                None \<Rightarrow> Inl ErrDB
              | Some k \<Rightarrow>
                  if fault x 0 \<or> \<not> in_int32 score then Inl ErrDB
                  else Inr (take limit (order_by_desc top_key
                         (filter (\<lambda>c. is_root animeID c \<and> top_key c < (score, pg_time t, k)) (pComments s)))))))"

definition queryReplies :: "ctx \<Rightarrow> uuid list \<Rightarrow> pg_comments \<Rightarrow> store_error + comment list" where
  "queryReplies x parentIDs s =
     (if fault x 1 then Inl ErrDB
      else Inr (sort_key cCreatedAt
             (filter (\<lambda>c. \<exists>p \<in> set_option (cParentID c). p \<in> set parentIDs) (pComments s))))"

definition add_reply :: "comment \<Rightarrow> (uuid \<rightharpoonup> comment list) \<Rightarrow> uuid \<rightharpoonup> comment list" where
  "add_reply r m =
     (case cParentID r of
        None \<Rightarrow> m
      | Some p \<Rightarrow> m(p \<mapsto> (case m p of None \<Rightarrow> [] | Some l \<Rightarrow> l) @ [r]))"

definition pg_get_thread ::
  "(string \<Rightarrow> uuid option) \<Rightarrow> ctx \<Rightarrow> string \<Rightarrow> string \<Rightarrow> int \<Rightarrow> string \<Rightarrow> pg_comments \<Rightarrow>
   store_error + comment_tree_node list \<times> string" where
  "pg_get_thread uuid_of x animeID sortBy limit cursor s =
     (let limit = clamp_limit limit
      in case (if sortBy = SortTop then queryRootsTop uuid_of x animeID (limit + 1) cursor s
               else queryRootsNew uuid_of x animeID (limit + 1) cursor s) of
           Inl e \<Rightarrow> Inl e
         | Inr roots \<Rightarrow>
             let last = roots ! (limit - 1);
                 nextCursor =
                   (if limit < length roots
                    then if sortBy = SortTop then encodeTopCursor (cScore last) (cCreatedAt last) (cID last)
                         else encodeNewCursor (cCreatedAt last) (cID last)
                    else []);
                 roots = (if limit < length roots then take limit roots else roots)
             in if roots = [] then Inr ([], [])
                else
                  (case queryReplies x (map cID roots) s of
                     Inl e \<Rightarrow> Inl e
                   | Inr replies \<Rightarrow>
                       let replyMap = fold add_reply replies Map.empty
                       in Inr (map (\<lambda>r. \<lparr>nComment = r, nReplies =
                                (case replyMap (cID r) of None \<Rightarrow> [] | Some l \<Rightarrow> l)\<rparr>) roots, nextCursor)))"

definition pg_update_body ::
  "(string \<Rightarrow> uuid option) \<Rightarrow> ctx \<Rightarrow> uuid \<Rightarrow> string \<Rightarrow> string \<Rightarrow> pg_comments \<Rightarrow> (store_error + unit) \<times> pg_comments" where
  "pg_update_body uuid_of x commentID userID body s =
     (case uuid_of commentID of
        None \<Rightarrow> (Inl ErrDB, s)
      | Some k \<Rightarrow>
          if fault x 0 then (Inl ErrDB, s)
          else
            let (rows, affected) = sql_update (\<lambda>c. cID c = k \<and> cUserID c = userID \<and> cDeletedAt c = None)
                  (\<lambda>c. c\<lparr>cBody := body, cUpdatedAt := Some (now x)\<rparr>) (pComments s);
                s' = s\<lparr>pComments := rows\<rparr>
            in if affected = 0 then (Inl ErrNotFoundOrForbidden, s') else (Inr (), s'))"

definition pg_soft_delete ::
  "(string \<Rightarrow> uuid option) \<Rightarrow> ctx \<Rightarrow> uuid \<Rightarrow> string \<Rightarrow> pg_comments \<Rightarrow> (store_error + unit) \<times> pg_comments" where
  "pg_soft_delete uuid_of x commentID userID s =
     (case uuid_of commentID of
        None \<Rightarrow> (Inl ErrDB, s)
      | Some k \<Rightarrow>
          if fault x 0 then (Inl ErrDB, s)
          else
            let (rows, affected) = sql_update (\<lambda>c. cID c = k \<and> cUserID c = userID \<and> cDeletedAt c = None)
                  (\<lambda>c. c\<lparr>cBody := ''[deleted]'', cDeletedAt := Some (now x)\<rparr>) (pComments s);
                s' = s\<lparr>pComments := rows\<rparr>
            in if affected = 0 then (Inl ErrNotFoundOrForbidden, s') else (Inr (), s'))"

definition pg_vote ::
  "(string \<Rightarrow> uuid option) \<Rightarrow> ctx \<Rightarrow> uuid \<Rightarrow> string \<Rightarrow> i16 \<Rightarrow> pg_comments \<Rightarrow> (store_error + unit) \<times> pg_comments" where
  "pg_vote uuid_of x commentID userID vote s =
     (if fault x 0 then (Inl ErrDB, s)
      else
        (case uuid_of commentID of
           None \<Rightarrow> (Inl ErrDB, s)
         | Some k \<Rightarrow>
             if fault x 1 then (Inl ErrDB, s)
             else if k \<notin> cID ` set (pComments s) then (Inl ErrNotFoundOrForbidden, s)
             else if fault x 2 then (Inl ErrDB, s)
             else
               let old = row_by vote_key (k, userID) (pVotes s);
                   delta = (case old of None \<Rightarrow> vote | Some r \<Rightarrow> vote - vVote r);
                   votes =
                     (case old of
                        None \<Rightarrow> pVotes s @ [\<lparr>vComment = k, vUser = userID, vVote = vote\<rparr>]
                      | Some r \<Rightarrow> fst (sql_update (\<lambda>r. vote_key r = (k, userID)) (\<lambda>r. r\<lparr>vVote := vote\<rparr>) (pVotes s)));
                   rows = fst (sql_update (\<lambda>c. cID c = k) (\<lambda>c. c\<lparr>cScore := cScore c + sint delta\<rparr>) (pComments s))
               in if fault x 3 \<or> vote \<noteq> 1 \<and> vote \<noteq> -1 then (Inl ErrDB, s)
                  else if delta \<noteq> 0 \<and> (fault x 4 \<or> (\<exists>c \<in> set rows. \<not> in_int32 (cScore c))) then (Inl ErrDB, s)
                  else if fault x 5 then (Inl ErrDB, s)
                  else (Inr (), s\<lparr>pVotes := votes,
                          pComments := (if delta \<noteq> 0 then rows else pComments s)\<rparr>)))"

definition pg_store :: "(string \<Rightarrow> uuid option) \<Rightarrow> pg_comments comment_store" where
  "pg_store uuid_of = \<lparr>Create = pg_create uuid_of, GetThread = pg_get_thread uuid_of,
     UpdateBody = pg_update_body uuid_of, SoftDelete = pg_soft_delete uuid_of, Vote = pg_vote uuid_of\<rparr>"

section \<open>The contract\<close>

definition pg_look :: "pg_comments \<Rightarrow> uuid \<Rightarrow> comment option" where
  "pg_look s k = row_by cID k (pComments s)"

definition pg_vote_of :: "pg_comments \<Rightarrow> uuid \<Rightarrow> string \<Rightarrow> i16" where
  "pg_vote_of s k u = (case row_by vote_key (k, u) (pVotes s) of None \<Rightarrow> 0 | Some r \<Rightarrow> vVote r)"

definition pg_inv :: "pg_comments \<Rightarrow> bool" where
  "pg_inv s \<longleftrightarrow> distinct (map cID (pComments s)) \<and> distinct (map vote_key (pVotes s)) \<and>
     (\<forall>r \<in> set (pVotes s). (vVote r = 1 \<or> vVote r = -1) \<and> vComment r \<in> cID ` set (pComments s)) \<and>
     (\<forall>c \<in> set (pComments s). in_int32 (cScore c))"

lemma pg_look_id: "pg_look s k = Some c \<Longrightarrow> cID c = k \<and> c \<in> set (pComments s)"
  unfolding pg_look_def by (drule row_by_Some) simp

lemma pg_look_mem: "pg_inv s \<Longrightarrow> c \<in> set (pComments s) \<Longrightarrow> pg_look s (cID c) = Some c"
  by (simp add: pg_inv_def pg_look_def row_by_mem)

lemma pg_inv_rows:
  assumes "pg_inv s" "map cID rows = map cID (pComments s)" "\<forall>c \<in> set rows. in_int32 (cScore c)"
  shows "pg_inv (s\<lparr>pComments := rows\<rparr>)"
  using assms by (auto simp: pg_inv_def simp flip: set_map)

text \<open>An \<open>UPDATE\<close> of one row by its key: what it does to the table and to the look-up.\<close>

lemma pg_update_row:
  assumes "pg_inv s" "sql_update (\<lambda>c. cID c = k \<and> P c) f (pComments s) = (rows, Suc n)"
    and f: "\<And>r. cID (f r) = cID r" "\<And>r. in_int32 (cScore r) \<Longrightarrow> in_int32 (cScore (f r))"
  shows "\<exists>c. pg_look s k = Some c \<and> P c \<and> pg_look (s\<lparr>pComments := rows\<rparr>) = (pg_look s)(k \<mapsto> f c) \<and>
    pg_inv (s\<lparr>pComments := rows\<rparr>)"
proof -
  let ?hit = "\<lambda>c. cID c = k \<and> P c"
  from assms(2) obtain c where c: "c \<in> set (pComments s)" "cID c = k" "P c"
    using sql_update_some [of ?hit f "pComments s"] by auto
  then have look: "row_by cID k (pComments s) = Some c"
    using pg_look_mem [OF assms(1)] by (auto simp: pg_look_def)
  have "row_by cID j rows = (if j = k then Some (f c) else row_by cID j (pComments s))" for j
    using row_by_sql_update [where key = cID and f = f, OF f(1) _ look, of ?hit j] assms(2) c by simp
  then have "pg_look (s\<lparr>pComments := rows\<rparr>) = (pg_look s)(k \<mapsto> f c)"
    by (auto simp: pg_look_def)
  moreover have "pg_inv (s\<lparr>pComments := rows\<rparr>)"
  proof (rule pg_inv_rows [OF assms(1)])
    show "map cID rows = map cID (pComments s)"
      using sql_update_keys [of cID f ?hit "pComments s", OF f(1)] assms(2) by simp
    show "\<forall>c \<in> set rows. in_int32 (cScore c)"
      using assms(1,2) f(2) by (auto simp: pg_inv_def sql_update_def)
  qed
  ultimately show ?thesis using look c by (auto simp: pg_look_def)
qed

lemma pg_update_cases:
  assumes "pg_inv s" "pg_update_body uuid_of x cid uid b s = (r, s')"
  shows "(\<exists>e. r = Inl e) \<and> s' = s \<or>
    (\<exists>k c. r = Inr () \<and> uuid_of cid = Some k \<and> pg_look s k = Some c \<and> cUserID c = uid \<and> cDeletedAt c = None \<and>
       pg_look s' = (pg_look s)(k \<mapsto> c\<lparr>cBody := b, cUpdatedAt := Some (now x)\<rparr>) \<and> pVotes s' = pVotes s \<and> pg_inv s')"
proof (cases "uuid_of cid = None \<or> fault x 0")
  case False
  then obtain k where k: "uuid_of cid = Some k" "\<not> fault x 0" by auto
  obtain rows n where u: "sql_update (\<lambda>c. cID c = k \<and> cUserID c = uid \<and> cDeletedAt c = None)
      (\<lambda>c. c\<lparr>cBody := b, cUpdatedAt := Some (now x)\<rparr>) (pComments s) = (rows, n)" by fastforce
  show ?thesis
  proof (cases n)
    case 0
    have "rows = pComments s" by (rule sql_update_none [OF u [unfolded 0]])
    then have "s\<lparr>pComments := rows\<rparr> = s" by simp
    moreover have "r = Inl ErrNotFoundOrForbidden" "s' = s\<lparr>pComments := rows\<rparr>"
      using 0 u k assms(2) by (simp_all add: pg_update_body_def)
    ultimately show ?thesis by simp
  next
    case (Suc m)
    have s': "r = Inr ()" "s' = s\<lparr>pComments := rows\<rparr>"
      using u Suc k assms(2) by (simp_all add: pg_update_body_def)
    from pg_update_row [OF assms(1) u [unfolded Suc]] obtain c where "pg_look s k = Some c"
      "cUserID c = uid" "cDeletedAt c = None" "pg_inv s'"
      "pg_look s' = (pg_look s)(k \<mapsto> c\<lparr>cBody := b, cUpdatedAt := Some (now x)\<rparr>)"
      unfolding s' by auto
    with s' k show ?thesis by simp
  qed
qed (use assms(2) in \<open>auto simp: pg_update_body_def split: option.splits\<close>)

lemma pg_delete_cases:
  assumes "pg_inv s" "pg_soft_delete uuid_of x cid uid s = (r, s')"
  shows "(\<exists>e. r = Inl e) \<and> s' = s \<or>
    (\<exists>k c. r = Inr () \<and> uuid_of cid = Some k \<and> pg_look s k = Some c \<and> cUserID c = uid \<and> cDeletedAt c = None \<and>
       pg_look s' = (pg_look s)(k \<mapsto> c\<lparr>cBody := ''[deleted]'', cDeletedAt := Some (now x)\<rparr>) \<and>
       pVotes s' = pVotes s \<and> pg_inv s')"
proof (cases "uuid_of cid = None \<or> fault x 0")
  case False
  then obtain k where k: "uuid_of cid = Some k" "\<not> fault x 0" by auto
  obtain rows n where u: "sql_update (\<lambda>c. cID c = k \<and> cUserID c = uid \<and> cDeletedAt c = None)
      (\<lambda>c. c\<lparr>cBody := ''[deleted]'', cDeletedAt := Some (now x)\<rparr>) (pComments s) = (rows, n)" by fastforce
  show ?thesis
  proof (cases n)
    case 0
    have "rows = pComments s" by (rule sql_update_none [OF u [unfolded 0]])
    then have "s\<lparr>pComments := rows\<rparr> = s" by simp
    moreover have "r = Inl ErrNotFoundOrForbidden" "s' = s\<lparr>pComments := rows\<rparr>"
      using 0 u k assms(2) by (simp_all add: pg_soft_delete_def)
    ultimately show ?thesis by simp
  next
    case (Suc m)
    have s': "r = Inr ()" "s' = s\<lparr>pComments := rows\<rparr>"
      using u Suc k assms(2) by (simp_all add: pg_soft_delete_def)
    from pg_update_row [OF assms(1) u [unfolded Suc]] obtain c where "pg_look s k = Some c"
      "cUserID c = uid" "cDeletedAt c = None" "pg_inv s'"
      "pg_look s' = (pg_look s)(k \<mapsto> c\<lparr>cBody := ''[deleted]'', cDeletedAt := Some (now x)\<rparr>)"
      unfolding s' by auto
    with s' k show ?thesis by simp
  qed
qed (use assms(2) in \<open>auto simp: pg_soft_delete_def split: option.splits\<close>)

lemma pg_create_cases:
  assumes "pg_inv s" "pg_create uuid_of x c s = (r, s')"
  shows "(\<exists>e. r = Inl e) \<and> s' = s \<or>
    (\<exists>row. r = Inr row \<and> s' = s\<lparr>pComments := pComments s @ [row]\<rparr> \<and> cID row = fresh x \<and>
       fresh x \<notin> cID ` set (pComments s) \<and> cScore row = 0 \<and> cUserID row = cUserID c \<and>
       cAnimeID row = cAnimeID c \<and> cBody row = cBody c \<and> cCreatedAt row = now x \<and>
       cDeletedAt row = None \<and> pg_inv s')"
  using assms
  by (auto simp: pg_create_def pg_inv_def in_int32_def Let_def split: option.splits if_splits)

text \<open>The two statements on \<open>comment_votes\<close> have the same effect on what is read back.\<close>

lemma pg_vote_of_write:
  assumes "votes = (case row_by vote_key (k, u) (pVotes s) of
      None \<Rightarrow> pVotes s @ [\<lparr>vComment = k, vUser = u, vVote = v\<rparr>]
    | Some r \<Rightarrow> fst (sql_update (\<lambda>r. vote_key r = (k, u)) (\<lambda>r. r\<lparr>vVote := v\<rparr>) (pVotes s)))"
  shows "row_by vote_key (j, w) votes =
    (if (j, w) = (k, u) then Some \<lparr>vComment = k, vUser = u, vVote = v\<rparr> else row_by vote_key (j, w) (pVotes s))"
proof (cases "row_by vote_key (k, u) (pVotes s)")
  case None
  then show ?thesis using assms
    by (auto simp: row_by_append vote_key_def split: option.splits)
next
  case (Some r)
  then have r: "vote_key r = (k, u)" using row_by_Some by metis
  have "row_by vote_key (j, w) votes =
      (if (j, w) = (k, u) then Some (r\<lparr>vVote := v\<rparr>) else row_by vote_key (j, w) (pVotes s))"
    unfolding assms Some option.case
    by (rule row_by_sql_update [OF _ _ Some]) (auto simp: vote_key_def r [unfolded vote_key_def])
  with r show ?thesis by (cases r) (auto simp: vote_key_def)
qed

lemma pg_votes_inv:
  assumes "pg_inv s" "k \<in> cID ` set (pComments s)" "v = 1 \<or> v = -1"
    and "votes = (case row_by vote_key (k, u) (pVotes s) of
      None \<Rightarrow> pVotes s @ [\<lparr>vComment = k, vUser = u, vVote = v\<rparr>]
    | Some r \<Rightarrow> fst (sql_update (\<lambda>r. vote_key r = (k, u)) (\<lambda>r. r\<lparr>vVote := v\<rparr>) (pVotes s)))"
  shows "pg_inv (s\<lparr>pVotes := votes\<rparr>)"
proof (cases "row_by vote_key (k, u) (pVotes s)")
  case None
  then have "(k, u) \<notin> vote_key ` set (pVotes s)" by (simp add: row_by_None)
  with None assms show ?thesis by (auto simp: pg_inv_def vote_key_def)
next
  case (Some r)
  have keys: "map vote_key votes = map vote_key (pVotes s)"
    using sql_update_keys [of vote_key "\<lambda>r. r\<lparr>vVote := v\<rparr>"] assms(4) Some by (simp add: vote_key_def)
  have "\<forall>r \<in> set votes. (vVote r = 1 \<or> vVote r = -1) \<and> vComment r \<in> cID ` set (pComments s)"
    using assms Some by (auto simp: pg_inv_def sql_update_def)
  with keys assms(1) show ?thesis by (simp add: pg_inv_def)
qed

lemma pg_vote_cases:
  assumes "pg_inv s" "pg_vote uuid_of x cid uid v s = (r, s')"
  shows "(\<exists>e. r = Inl e) \<and> s' = s \<or>
    (\<exists>k c. r = Inr () \<and> uuid_of cid = Some k \<and> pg_look s k = Some c \<and> (v = 1 \<or> v = -1) \<and>
       pg_look s' = (pg_look s)(k \<mapsto> c\<lparr>cScore := cScore c + sint (v - pg_vote_of s k uid)\<rparr>) \<and>
       pg_vote_of s' = (pg_vote_of s)(k := (pg_vote_of s k)(uid := v)) \<and> pg_inv s')"
proof (cases r)
  case (Inl e)
  with assms(2) show ?thesis
    by (auto simp: pg_vote_def Let_def split: if_splits option.splits)
next
  case (Inr unit)
  obtain k where k: "uuid_of cid = Some k" "k \<in> cID ` set (pComments s)" "v = 1 \<or> v = -1"
    using assms(2) Inr by (auto simp: pg_vote_def Let_def split: if_splits option.splits)
  then obtain c where c: "pg_look s k = Some c" using pg_look_mem [OF assms(1)] by auto
  define delta where "delta = v - pg_vote_of s k uid"
  define votes where "votes = (case row_by vote_key (k, uid) (pVotes s) of
      None \<Rightarrow> pVotes s @ [\<lparr>vComment = k, vUser = uid, vVote = v\<rparr>]
    | Some r \<Rightarrow> fst (sql_update (\<lambda>r. vote_key r = (k, uid)) (\<lambda>r. r\<lparr>vVote := v\<rparr>) (pVotes s)))"
  define rows where "rows = fst (sql_update (\<lambda>c. cID c = k) (\<lambda>c. c\<lparr>cScore := cScore c + sint delta\<rparr>) (pComments s))"
  have d: "(case row_by vote_key (k, uid) (pVotes s) of None \<Rightarrow> v | Some r \<Rightarrow> v - vVote r) = delta"
    by (auto simp: delta_def pg_vote_of_def split: option.splits)
  have s': "s' = s\<lparr>pVotes := votes, pComments := (if delta \<noteq> 0 then rows else pComments s)\<rparr>"
    and w: "delta \<noteq> 0 \<Longrightarrow> \<forall>c \<in> set rows. in_int32 (cScore c)"
    using assms(2) Inr k(1,2) unfolding pg_vote_def Let_def
    by (auto simp: d votes_def [symmetric] rows_def [symmetric] split: if_splits)
  have look: "row_by cID j rows = (if j = k then Some (c\<lparr>cScore := cScore c + sint delta\<rparr>) else pg_look s j)" for j
    using row_by_sql_update [where key = cID and hit = "\<lambda>c. cID c = k" and k = k and j = j and
        f = "\<lambda>c. c\<lparr>cScore := cScore c + sint delta\<rparr>", OF _ _ c [unfolded pg_look_def]]
      pg_look_id [OF c] by (simp add: rows_def pg_look_def)
  have "pg_look s' = (pg_look s)(k \<mapsto> c\<lparr>cScore := cScore c + sint delta\<rparr>)"
    using c look by (cases "delta = 0") (auto simp: s' pg_look_def)
  moreover have "pg_vote_of s' = (pg_vote_of s)(k := (pg_vote_of s k)(uid := v))"
    using pg_vote_of_write [OF votes_def] by (auto simp: s' pg_vote_of_def fun_eq_iff)
  moreover have "pg_inv s'"
  proof (cases "delta = 0")
    case False
    have "map cID rows = map cID (pComments s)"
      unfolding rows_def by (rule sql_update_keys) simp
    then show ?thesis
      using pg_inv_rows [OF pg_votes_inv [OF assms(1) k(2,3) votes_def], of rows] w False by (simp add: s')
  qed (use pg_votes_inv [OF assms(1) k(2,3) votes_def] s' in simp)
  ultimately show ?thesis using Inr k c by (auto simp: delta_def)
qed

lemma pg_inv_exec:
  assumes "pg_inv s" shows "pg_inv (exec_op (pg_store uuid_of) op s)"
proof (cases op)
  case (OpCreate x c)
  then show ?thesis using pg_create_cases [OF assms surjective_pairing, of uuid_of x c] assms
    by (auto simp: pg_store_def)
next
  case (OpUpdate x cid uid b)
  then show ?thesis using pg_update_cases [OF assms surjective_pairing, of uuid_of x cid uid b] assms
    by (auto simp: pg_store_def)
next
  case (OpDelete x cid uid)
  then show ?thesis using pg_delete_cases [OF assms surjective_pairing, of uuid_of x cid uid] assms
    by (auto simp: pg_store_def)
next
  case (OpVote x cid uid v)
  then show ?thesis using pg_vote_cases [OF assms surjective_pairing, of uuid_of x cid uid v] assms
    by (auto simp: pg_store_def)
qed

interpretation postgres: comment_ledger "pg_store uuid_of" uuid_of pg_look pg_vote_of pg_inv for uuid_of
proof (unfold_locales, goal_cases)
  case (1 s op) then show ?case using pg_inv_exec by blast
next
  case (2 s cid)
  have "{u. pg_vote_of s cid u \<noteq> 0} \<subseteq> vUser ` set (pVotes s)"
    by (auto simp: pg_vote_of_def vote_key_def split: option.splits dest!: row_by_Some)
  then show ?case by (rule finite_subset) simp
next
  case (3 s cid u)
  then show ?case by (auto simp: pg_inv_def pg_vote_of_def split: option.splits dest!: row_by_Some)
next
  case (4 s cid u)
  then have "row_by vote_key (cid, u) (pVotes s) = None"
    by (auto simp: pg_inv_def row_by_None pg_look_def vote_key_def)
  then show ?case by (simp add: pg_vote_of_def)
next
  case (5 s x c e)
  then show ?case using pg_create_cases [OF 5(1) surjective_pairing, of uuid_of x c] by (auto simp: pg_store_def)
next
  case (6 s x cid uid b e)
  then show ?case using pg_update_cases [OF 6(1) surjective_pairing, of uuid_of x cid uid b] by (auto simp: pg_store_def)
next
  case (7 s x cid uid e)
  then show ?case using pg_delete_cases [OF 7(1) surjective_pairing, of uuid_of x cid uid] by (auto simp: pg_store_def)
next
  case (8 s x cid uid v e)
  then show ?case using pg_vote_cases [OF 8(1) surjective_pairing, of uuid_of x cid uid v] by (auto simp: pg_store_def)
next
  case (9 s x c c' s')
  then obtain "s' = s\<lparr>pComments := pComments s @ [c']\<rparr>" "cID c' = fresh x" "cScore c' = 0"
    "cUserID c' = cUserID c" "cAnimeID c' = cAnimeID c" "cBody c' = cBody c" "cCreatedAt c' = now x"
    using pg_create_cases [OF 9(1), of uuid_of x c "Inr c'" s'] by (auto simp: pg_store_def)
  with 9(2) show ?case
    by (auto simp: pg_look_def pg_vote_of_def row_by_append fun_eq_iff split: option.splits)
next
  case (10 s x cid uid b s')
  then show ?case
    using pg_update_cases [OF 10(1), of uuid_of x cid uid b "Inr ()" s']
    by (auto simp: pg_store_def pg_vote_of_def fun_eq_iff)
next
  case (11 s x cid uid s')
  then show ?case
    using pg_delete_cases [OF 11(1), of uuid_of x cid uid "Inr ()" s']
    by (auto simp: pg_store_def pg_vote_of_def fun_eq_iff)
next
  case (12 s x cid uid v s')
  then show ?case
    using pg_vote_cases [OF 12(1), of uuid_of x cid uid v "Inr ()" s'] by (auto simp: pg_store_def)
qed

section \<open>Paging\<close>

definition pg_roots :: "string \<Rightarrow> string \<Rightarrow> pg_comments \<Rightarrow> comment list" where
  "pg_roots animeID sortBy s =
     (if sortBy = SortTop then order_by_desc top_key (filter (is_root animeID) (pComments s))
      else order_by_desc new_key (filter (is_root animeID) (pComments s)))"

definition pg_cursor :: "string \<Rightarrow> comment \<Rightarrow> string" where
  "pg_cursor sortBy c =
     (if sortBy = SortTop then encodeTopCursor (cScore c) (cCreatedAt c) (cID c)
      else encodeNewCursor (cCreatedAt c) (cID c))"

definition queryRoots ::
  "(string \<Rightarrow> uuid option) \<Rightarrow> ctx \<Rightarrow> string \<Rightarrow> string \<Rightarrow> nat \<Rightarrow> string \<Rightarrow> pg_comments \<Rightarrow> store_error + comment list" where
  "queryRoots uuid_of x animeID sortBy n cursor s =
     (if sortBy = SortTop then queryRootsTop uuid_of x animeID n cursor s
      else queryRootsNew uuid_of x animeID n cursor s)"

text \<open>
  Stored identifiers are in the form the driver prints them in and stored times are \<open>TIMESTAMPTZ\<close>
  values in the range of \<open>UnixNano\<close>.
\<close>

definition pg_stored :: "(string \<Rightarrow> uuid option) \<Rightarrow> comment \<Rightarrow> bool" where
  "pg_stored uuid_of c \<longleftrightarrow> uuid_of (cID c) = Some (cID c) \<and> pg_time (cCreatedAt c) = cCreatedAt c \<and>
     in_int64 (cCreatedAt c)"

lemma in_int32_64: "in_int32 i \<Longrightarrow> in_int64 i"
  by (simp add: in_int32_def in_int64_def)

lemma pg_cursor_not_Nil [simp]: "pg_cursor sortBy c \<noteq> []"
  by (simp add: pg_cursor_def encodeTopCursor_def encodeNewCursor_def)

lemma pg_roots_set [simp]: "set (pg_roots animeID sortBy s) = {c \<in> set (pComments s). is_root animeID c}"
  by (auto simp: pg_roots_def)

lemma pg_roots_desc:
  assumes "pg_inv s"
  shows "sortBy = SortTop \<Longrightarrow> strict_desc top_key (pg_roots animeID sortBy s)"
    and "sortBy \<noteq> SortTop \<Longrightarrow> strict_desc new_key (pg_roots animeID sortBy s)"
proof -
  have "inj_on cID (set (filter (is_root animeID) (pComments s)))" "distinct (filter (is_root animeID) (pComments s))"
    using assms by (auto simp: pg_inv_def distinct_map inj_on_def)
  then show "sortBy = SortTop \<Longrightarrow> strict_desc top_key (pg_roots animeID sortBy s)"
    "sortBy \<noteq> SortTop \<Longrightarrow> strict_desc new_key (pg_roots animeID sortBy s)"
    by (simp_all add: pg_roots_def strict_desc_order_by inj_top_key inj_new_key)
qed

lemma queryRoots_first:
  "\<not> fault x 0 \<Longrightarrow> queryRoots uuid_of x animeID sortBy n [] s = Inr (take n (pg_roots animeID sortBy s))"
  by (simp add: queryRoots_def queryRootsTop_def queryRootsNew_def pg_roots_def)

lemma queryRoots_next:
  assumes "pg_inv s" "\<not> fault x 0" "pg_stored uuid_of r" "pg_roots animeID sortBy s = ys @ r # zs"
  shows "queryRoots uuid_of x animeID sortBy n (pg_cursor sortBy r) s = Inr (take n zs)"
proof (cases "sortBy = SortTop")
  case True
  have "r \<in> set (pg_roots animeID sortBy s)" using assms(4) by simp
  then have sc: "in_int32 (cScore r)" using assms(1) by (auto simp: pg_inv_def)
  have "filter (\<lambda>c. top_key c < top_key r) (pg_roots animeID sortBy s) = zs"
    unfolding assms(4) by (rule filter_after) (use pg_roots_desc(1) [OF assms(1) True, of animeID] assms(4) in metis)
  then have "order_by_desc top_key (filter (\<lambda>c. is_root animeID c \<and> top_key c < top_key r) (pComments s)) = zs"
    by (simp add: pg_roots_def True flip: filter_order_by_desc)
  then show ?thesis
    using assms(2,3) sc True pg_cursor_not_Nil [of sortBy r]
    by (simp add: queryRoots_def queryRootsTop_def pg_cursor_def decode_encode_top pg_stored_def in_int32_64
        top_key_def)
next
  case False
  have "filter (\<lambda>c. new_key c < new_key r) (pg_roots animeID sortBy s) = zs"
    unfolding assms(4) by (rule filter_after) (use pg_roots_desc(2) [OF assms(1) False, of animeID] assms(4) in metis)
  then have "order_by_desc new_key (filter (\<lambda>c. is_root animeID c \<and> new_key c < new_key r) (pComments s)) = zs"
    by (simp add: pg_roots_def False flip: filter_order_by_desc)
  then show ?thesis
    using assms(2,3) False pg_cursor_not_Nil [of sortBy r]
    by (simp add: queryRoots_def queryRootsNew_def pg_cursor_def decode_encode_new pg_stored_def new_key_def)
qed

lemma pg_thread_page:
  assumes "queryRoots uuid_of x animeID sortBy (Suc (clamp_limit limit)) cursor s = Inr (take (Suc (clamp_limit limit)) rows)"
    and "\<not> fault x 1"
  shows "thread_page (pg_get_thread uuid_of x animeID sortBy limit cursor s) =
    Some (page_cut (clamp_limit limit) (pg_cursor sortBy) rows)"
  using assms clamp_limit_pos(1) [of limit]
  by (auto simp: pg_get_thread_def queryRoots_def queryReplies_def thread_page_def page_of_def Let_def
      pg_cursor_def comp_def min_def not_less simp del: clamp_limit_pos)

interpretation pg_thread: pager
  "\<lambda>c. thread_page (pg_get_thread uuid_of (xs c) animeID sortBy limit c s)"
  "pg_roots animeID sortBy s" "pg_cursor sortBy" "clamp_limit limit"
  "pg_inv s \<and> (\<forall>c. \<not> fault (xs c) 0 \<and> \<not> fault (xs c) 1) \<and> (\<forall>c \<in> set (pComments s). pg_stored uuid_of c)" "(<)"
  for uuid_of s xs animeID sortBy limit
proof (unfold_locales, goal_cases)
  case 4
  then show ?case by (intro pg_thread_page queryRoots_first) auto
next
  case (5 ys r zs)
  then have "r \<in> set (pg_roots animeID sortBy s)" by simp
  then have "pg_stored uuid_of r" using 5(1) by simp
  with 5 show ?case by (intro pg_thread_page queryRoots_next) auto
qed simp_all

section \<open>Replies\<close>

text \<open>The batched query and the regrouping give each root its own replies, oldest first.\<close>

lemma fold_add_reply:
  "(case fold add_reply rs m p of None \<Rightarrow> [] | Some l \<Rightarrow> l) =
   (case m p of None \<Rightarrow> [] | Some l \<Rightarrow> l) @ filter (\<lambda>r. cParentID r = Some p) rs"
  by (induction rs arbitrary: m) (auto simp: add_reply_def split: option.splits)

lemma pg_node_replies:
  assumes "pg_get_thread uuid_of x animeID sortBy limit cursor s = Inr (nodes, nxt)" "nd \<in> set nodes"
  shows "nReplies nd = sort_key cCreatedAt (filter (\<lambda>c. cParentID c = Some (cID (nComment nd))) (pComments s))"
proof -
  obtain roots where nd: "nComment nd \<in> set roots" and rep: "nReplies nd =
    (case fold add_reply (sort_key cCreatedAt
      (filter (\<lambda>c. \<exists>p \<in> set_option (cParentID c). p \<in> set (map cID roots)) (pComments s))) Map.empty (cID (nComment nd))
     of None \<Rightarrow> [] | Some l \<Rightarrow> l)"
    using assms unfolding pg_get_thread_def Let_def queryReplies_def
    by (fastforce split: sum.splits if_splits)
  show ?thesis
    unfolding rep fold_add_reply using nd by (auto simp: filter_sort intro!: arg_cong [of _ _ "sort_key _"] filter_cong)
qed

section \<open>Properties\<close>

definition pg_empty :: pg_comments where
  "pg_empty = \<lparr>pComments = [], pVotes = []\<rparr>"

definition pg_demo :: pg_comments where
  "pg_demo = exec_ops (pg_store Some)
     [OpCreate (calm 1000 ''c1'') \<lparr>cID = [], cAnimeID = ''a'', cUserID = ''u1'', cParentID = None, cBody = ''hi'',
        cScore = 0, cCreatedAt = 0, cUpdatedAt = None, cDeletedAt = None\<rparr>,
      OpCreate (calm 2000 ''c2'') \<lparr>cID = [], cAnimeID = ''a'', cUserID = ''u2'', cParentID = None, cBody = ''yo'',
        cScore = 0, cCreatedAt = 0, cUpdatedAt = None, cDeletedAt = None\<rparr>,
      OpVote (calm 3000 []) ''c1'' ''u2'' 1] pg_empty"

lemma pg_empty_inv [simp]: "pg_inv pg_empty"
  by (simp add: pg_inv_def pg_empty_def)

lemma pg_empty_look [simp]: "pg_look pg_empty k = None"
  by (simp add: pg_look_def pg_empty_def)

lemma pg_demo_eq: "pg_demo =
  \<lparr>pComments =
    [\<lparr>cID = ''c1'', cAnimeID = ''a'', cUserID = ''u1'', cParentID = None, cBody = ''hi'',
       cScore = 1, cCreatedAt = 1000, cUpdatedAt = None, cDeletedAt = None\<rparr>,
     \<lparr>cID = ''c2'', cAnimeID = ''a'', cUserID = ''u2'', cParentID = None, cBody = ''yo'',
       cScore = 0, cCreatedAt = 2000, cUpdatedAt = None, cDeletedAt = None\<rparr>],
   pVotes = [\<lparr>vComment = ''c1'', vUser = ''u2'', vVote = 1\<rparr>]\<rparr>"
  by (simp add: pg_demo_def exec_ops_def pg_store_def pg_create_def pg_vote_def pg_empty_def Let_def
      sql_update_def in_int32_def)

lemma pg_demo_inv [simp]: "pg_inv pg_demo"
  by (simp add: pg_demo_eq pg_inv_def vote_key_def in_int32_def)

text \<open>
  C1. A client that reads a thread page by page, in either order and with any page size, gets every
  root comment of the anime exactly once and in the order of the query: the walk ends, nothing is
  skipped or repeated at a page border, ties in score and time included.
\<close>

theorem pg_thread_complete:
  assumes "pg_inv s" "\<forall>c. \<not> fault (xs c) 0 \<and> \<not> fault (xs c) 1" "\<forall>c \<in> set (pComments s). pg_stored uuid_of c"
  shows "\<exists>rows. walk (Suc (length (pComments s)))
        (\<lambda>c. thread_page (pg_get_thread uuid_of (xs c) animeID sortBy limit c s)) [] = Some rows \<and>
      distinct rows \<and> set rows = {c \<in> set (pComments s). cAnimeID c = animeID \<and> cParentID c = None} \<and>
      (if sortBy = SortTop
       then sorted_wrt (\<lambda>a b. (cScore b, cCreatedAt b, cID b) < (cScore a, cCreatedAt a, cID a)) rows
       else sorted_wrt (\<lambda>a b. (cCreatedAt b, cID b) < (cCreatedAt a, cID a)) rows)"
proof (intro exI conjI)
  have len: "length (pg_roots animeID sortBy s) < Suc (length (pComments s))"
    by (simp add: pg_roots_def less_Suc_eq_le)
  show "walk (Suc (length (pComments s)))
      (\<lambda>c. thread_page (pg_get_thread uuid_of (xs c) animeID sortBy limit c s)) [] = Some (pg_roots animeID sortBy s)"
    using pg_thread.walk_all [OF _ len] assms by blast
  show "distinct (pg_roots animeID sortBy s)"
    using assms(1) by (simp add: pg_roots_def pg_inv_def distinct_map)
  show "set (pg_roots animeID sortBy s) = {c \<in> set (pComments s). cAnimeID c = animeID \<and> cParentID c = None}"
    by (simp add: is_root_def)
  show "if sortBy = SortTop
       then sorted_wrt (\<lambda>a b. (cScore b, cCreatedAt b, cID b) < (cScore a, cCreatedAt a, cID a)) (pg_roots animeID sortBy s)
       else sorted_wrt (\<lambda>a b. (cCreatedAt b, cID b) < (cCreatedAt a, cID a)) (pg_roots animeID sortBy s)"
    using pg_roots_desc [OF assms(1), of sortBy animeID] unfolding strict_desc_def top_key_def new_key_def by simp
qed

theorem pg_thread_complete_witness:
  "\<exists>rows. walk 3 (\<lambda>c. thread_page (pg_get_thread Some (calm 0 []) ''a'' SortTop 1 c pg_demo)) [] = Some rows \<and>
      distinct rows \<and> cID ` set rows = {''c1'', ''c2''}"
proof -
  have "\<forall>c \<in> set (pComments pg_demo). pg_stored Some c"
    by (simp add: pg_demo_eq pg_stored_def pg_time_def in_int64_def)
  from pg_thread_complete [of pg_demo "\<lambda>_. calm 0 []" Some "''a''" SortTop 1, OF pg_demo_inv _ this]
  obtain rows where "walk 3 (\<lambda>c. thread_page (pg_get_thread Some (calm 0 []) ''a'' SortTop 1 c pg_demo)) [] = Some rows"
    "distinct rows" "set rows = {c \<in> set (pComments pg_demo). cAnimeID c = ''a'' \<and> cParentID c = None}"
    by (auto simp: pg_demo_eq eval_nat_numeral)
  moreover have "cID ` {c \<in> set (pComments pg_demo). cAnimeID c = ''a'' \<and> cParentID c = None} = {''c1'', ''c2''}"
    unfolding set_filter [symmetric] by (simp add: pg_demo_eq)
  ultimately show ?thesis by auto
qed

text \<open>
  C2. Whatever writes are made from an empty database, with any statement failing at any point, the
  stored score of every comment is the sum of the votes stored for it, and its absolute value is at
  most the number of voters.
\<close>

theorem pg_score_is_tally:
  assumes "fresh_ops (pg_store uuid_of) pg_look ops pg_empty"
    and "pg_look (exec_ops (pg_store uuid_of) ops pg_empty) k = Some c"
  shows "cScore c = tally (pg_vote_of (exec_ops (pg_store uuid_of) ops pg_empty)) k \<and>
    \<bar>cScore c\<bar> \<le> int (card {u. pg_vote_of (exec_ops (pg_store uuid_of) ops pg_empty) k u \<noteq> 0})"
proof -
  have "cScore c = tally (pg_vote_of (exec_ops (pg_store uuid_of) ops pg_empty)) k"
    by (rule postgres.ledger [OF pg_empty_inv assms(1) _ assms(2)]) simp
  then show ?thesis
    using postgres.tally_bound [OF postgres.inv_ops [OF pg_empty_inv assms(1)]] by simp
qed

theorem pg_score_is_tally_witness:
  "\<exists>c. pg_look pg_demo ''c1'' = Some c \<and> cScore c = tally (pg_vote_of pg_demo) ''c1'' \<and> cScore c = 1"
proof -
  let ?ops = "[OpCreate (calm 1000 ''c1'') \<lparr>cID = [], cAnimeID = ''a'', cUserID = ''u1'', cParentID = None,
        cBody = ''hi'', cScore = 0, cCreatedAt = 0, cUpdatedAt = None, cDeletedAt = None\<rparr>,
      OpCreate (calm 2000 ''c2'') \<lparr>cID = [], cAnimeID = ''a'', cUserID = ''u2'', cParentID = None, cBody = ''yo'',
        cScore = 0, cCreatedAt = 0, cUpdatedAt = None, cDeletedAt = None\<rparr>,
      OpVote (calm 3000 []) ''c1'' ''u2'' 1]"
  have f: "fresh_ops (pg_store Some) pg_look ?ops pg_empty"
    by (simp add: pg_store_def pg_create_def pg_empty_def pg_look_def Let_def)
  have d: "exec_ops (pg_store Some) ?ops pg_empty = pg_demo" by (simp add: pg_demo_def)
  have l: "pg_look pg_demo ''c1'' = Some \<lparr>cID = ''c1'', cAnimeID = ''a'', cUserID = ''u1'', cParentID = None,
      cBody = ''hi'', cScore = 1, cCreatedAt = 1000, cUpdatedAt = None, cDeletedAt = None\<rparr>"
    by (simp add: pg_look_def pg_demo_eq)
  show ?thesis using pg_score_is_tally [OF f, unfolded d, OF l] l by simp
qed

text \<open>
  A vote is one transaction: if it reports an error, whichever statement failed, nothing changed;
  if it succeeds, the user's vote is the new one and the score moved by the difference to the old one.
\<close>

theorem pg_vote_atomic:
  assumes "pg_inv s"
  shows "case pg_vote uuid_of x cid uid v s of
      (Inl e, s') \<Rightarrow> s' = s
    | (Inr _, s') \<Rightarrow> \<exists>k c. uuid_of cid = Some k \<and> pg_look s k = Some c \<and> (v = 1 \<or> v = -1) \<and>
        pg_look s' = (pg_look s)(k \<mapsto> c\<lparr>cScore := cScore c + sint v - sint (pg_vote_of s k uid)\<rparr>) \<and>
        pg_vote_of s' = (pg_vote_of s)(k := (pg_vote_of s k)(uid := v))"
proof (cases "pg_vote uuid_of x cid uid v s")
  case (Pair r s')
  have "sint (v - pg_vote_of s k uid) = sint v - sint (pg_vote_of s k uid)" if "v = 1 \<or> v = -1" for k
    using that postgres.votes_valid [OF assms] by (intro sint_vote_diff) auto
  then have "(\<exists>e. r = Inl e) \<and> s' = s \<or> (\<exists>k c. r = Inr () \<and> uuid_of cid = Some k \<and> pg_look s k = Some c \<and>
       (v = 1 \<or> v = -1) \<and> pg_look s' = (pg_look s)(k \<mapsto> c\<lparr>cScore := cScore c + sint v - sint (pg_vote_of s k uid)\<rparr>) \<and>
       pg_vote_of s' = (pg_vote_of s)(k := (pg_vote_of s k)(uid := v)))"
    using pg_vote_cases [OF assms Pair] by (metis add_diff_eq)
  then show ?thesis unfolding Pair prod.case by (cases r) simp_all
qed

theorem pg_vote_atomic_witness:
  "fst (pg_vote Some (calm 0 []) ''c2'' ''u1'' 1 pg_demo) = Inr () \<and>
   (\<exists>c. pg_look (snd (pg_vote Some (calm 0 []) ''c2'' ''u1'' 1 pg_demo)) ''c2'' = Some c \<and> cScore c = 1)"
proof -
  obtain r s' where p: "pg_vote Some (calm 0 []) ''c2'' ''u1'' 1 pg_demo = (r, s')" by fastforce
  have r: "r = Inr ()"
    using arg_cong [OF p, of fst]
    by (simp add: pg_vote_def pg_demo_eq vote_key_def sql_update_def in_int32_def Let_def)
  from pg_vote_atomic [OF pg_demo_inv, where uuid_of = Some and x = "calm 0 []" and cid = "''c2''" and uid = "''u1''" and v = 1]
  show ?thesis
    unfolding p r by (auto simp: pg_demo_eq pg_look_def pg_vote_of_def vote_key_def)
qed

end
