(* ===== verification/Social_Stores.thy ===== *)
theory Social_Stores
  imports Social_Memory Social_Postgres
begin

text \<open>
  The two implementations of \<open>CommentStore\<close> side by side: the Postgres store simulates the
  in-memory one operation by operation, and a client that walks a thread reads the same
  comments from either.
\<close>

definition store_sim :: "pg_comments \<Rightarrow> mem_comments \<Rightarrow> bool" where
  "store_sim s m \<longleftrightarrow> pg_look s = mComments m \<and> pg_vote_of s = mem_vote_of m"

text \<open>
  What the tables refuse and the maps do not: a failing statement, a parent that does not exist, a
  score that leaves \<open>INT\<close>; and \<open>Create\<close> is called with the two optional times absent, as both callers do.
\<close>

fun plain_op :: "comment_op \<Rightarrow> pg_comments \<Rightarrow> bool" where
  "plain_op (OpCreate x c) s =
     (\<not> fault x 0 \<and> cUpdatedAt c = None \<and> cDeletedAt c = None \<and> fresh x \<notin> cID ` set (pComments s) \<and>
      (\<forall>p \<in> set_option (cParentID c). p \<in> cID ` set (pComments s)))"
| "plain_op (OpUpdate x cid uid b) s = (\<not> fault x 0)"
| "plain_op (OpDelete x cid uid) s = (\<not> fault x 0)"
| "plain_op (OpVote x cid uid v) s =
     ((\<forall>i \<le> 5. \<not> fault x i) \<and> (\<forall>c. pg_look s cid = Some c \<longrightarrow> in_int32 (cScore c + sint (v - pg_vote_of s cid uid))))"

fun op_ok :: "('s, 'b) comment_store_scheme \<Rightarrow> comment_op \<Rightarrow> 's \<Rightarrow> bool" where
  "op_ok st (OpCreate x c) s = isr (fst (Create st x c s))"
| "op_ok st (OpUpdate x cid uid b) s = isr (fst (UpdateBody st x cid uid b s))"
| "op_ok st (OpDelete x cid uid) s = isr (fst (SoftDelete st x cid uid s))"
| "op_ok st (OpVote x cid uid v) s = isr (fst (Vote st x cid uid v s))"

lemma isr_unit: "isr (r :: 'a + unit) \<longleftrightarrow> r = Inr ()"
  by (cases r) auto

lemma pg_update_ok_iff:
  assumes "pg_inv s" "\<not> fault x 0"
  shows "isr (fst (pg_update_body Some x cid uid b s)) \<longleftrightarrow>
    (\<exists>c. pg_look s cid = Some c \<and> cUserID c = uid \<and> cDeletedAt c = None)"
  using assms(2) pg_look_mem [OF assms(1)] pg_look_id [of s cid]
  by (auto simp: pg_update_body_def sql_update_def Let_def filter_empty_conv)

lemma pg_delete_ok_iff:
  assumes "pg_inv s" "\<not> fault x 0"
  shows "isr (fst (pg_soft_delete Some x cid uid s)) \<longleftrightarrow>
    (\<exists>c. pg_look s cid = Some c \<and> cUserID c = uid \<and> cDeletedAt c = None)"
  using assms(2) pg_look_mem [OF assms(1)] pg_look_id [of s cid]
  by (auto simp: pg_soft_delete_def sql_update_def Let_def filter_empty_conv)

lemma pg_vote_ok_iff:
  assumes "pg_inv s" "plain_op (OpVote x cid uid v) s"
  shows "isr (fst (pg_vote Some x cid uid v s)) \<longleftrightarrow> (\<exists>c. pg_look s cid = Some c) \<and> (v = 1 \<or> v = -1)"
proof (cases "pg_look s cid")
  case None
  then show ?thesis using assms(2) by (simp add: pg_vote_def pg_look_def row_by_None)
next
  case (Some c)
  let ?d = "case row_by vote_key (cid, uid) (pVotes s) of None \<Rightarrow> v | Some r \<Rightarrow> v - vVote r"
  have d: "?d = v - pg_vote_of s cid uid" by (auto simp: pg_vote_of_def split: option.splits)
  have mem: "cid \<in> cID ` set (pComments s)" using pg_look_id [OF Some] by auto
  have "in_int32 (cScore r)"
    if "r \<in> set (fst (sql_update (\<lambda>c. cID c = cid) (\<lambda>c. c\<lparr>cScore := cScore c + sint ?d\<rparr>) (pComments s)))" for r
  proof -
    from that obtain r0 where r0: "r0 \<in> set (pComments s)"
      "r = (if cID r0 = cid then r0\<lparr>cScore := cScore r0 + sint ?d\<rparr> else r0)"
      by (auto simp: sql_update_def)
    have "cID r0 = cid \<Longrightarrow> r0 = c" using pg_look_mem [OF assms(1) r0(1)] Some by simp
    then show ?thesis using r0 assms Some by (auto simp: d pg_inv_def)
  qed
  then show ?thesis using assms(2) mem Some by (simp add: pg_vote_def Let_def isr_unit)
qed

lemma create_sim:
  assumes "pg_inv s" "store_sim s m" "plain_op (OpCreate x c) s"
  shows "store_sim (snd (pg_create Some x c s)) (snd (mem_create x c m))" "isr (fst (pg_create Some x c s))"
proof -
  let ?row = "\<lparr>cID = fresh x, cAnimeID = cAnimeID c, cUserID = cUserID c, cParentID = cParentID c,
    cBody = cBody c, cScore = 0, cCreatedAt = now x, cUpdatedAt = None, cDeletedAt = None\<rparr>"
  have p: "pg_create Some x c s = (Inr ?row, s\<lparr>pComments := pComments s @ [?row]\<rparr>)"
    using assms(3) by (auto simp: pg_create_def Let_def split: option.splits)
  have m: "c\<lparr>cID := fresh x, cCreatedAt := now x, cScore := 0\<rparr> = ?row" using assms(3) by (cases c) simp
  have "pg_look (s\<lparr>pComments := pComments s @ [?row]\<rparr>) = (pg_look s)(fresh x \<mapsto> ?row)"
    using assms(3) row_by_None [of cID "fresh x" "pComments s"]
    by (auto simp: pg_look_def row_by_append fun_eq_iff split: option.splits)
  moreover have "pg_vote_of (s\<lparr>pComments := pComments s @ [?row]\<rparr>) = pg_vote_of s"
    by (simp add: pg_vote_of_def fun_eq_iff)
  moreover have "mem_vote_of (snd (mem_create x c m)) = mem_vote_of m"
    by (simp add: mem_create_def mem_vote_of_def fun_eq_iff Let_def)
  moreover have "mComments (snd (mem_create x c m)) = (mComments m)(fresh x \<mapsto> ?row)"
    by (simp add: mem_create_def Let_def m)
  ultimately show "store_sim (snd (pg_create Some x c s)) (snd (mem_create x c m))" "isr (fst (pg_create Some x c s))"
    using assms(2) by (simp_all add: store_sim_def p)
qed

lemma sim_unit:
  assumes "store_sim s m" "isr (fst p) = isr (fst q)"
    and "\<And>e. fst p = Inl e \<Longrightarrow> snd p = s" "\<And>e. fst q = Inl e \<Longrightarrow> snd q = m"
    and "\<And>s' m'. p = (Inr (), s') \<Longrightarrow> q = (Inr (), m') \<Longrightarrow> store_sim s' m'"
  shows "store_sim (snd p) (snd q)"
  using assms by (cases p; cases q; cases "fst p"; cases "fst q") auto





text \<open>
  A deleted comment stays deleted: after any further writes, by anybody, it still has the same
  deletion time, author and body, so its text cannot be brought back.
\<close>

theorem pg_deleted_forever:
  assumes "pg_inv s" "fresh_ops (pg_store uuid_of) pg_look ops s"
    and "pg_look s k = Some c" "cDeletedAt c = Some t"
  shows "\<exists>c'. pg_look (exec_ops (pg_store uuid_of) ops s) k = Some c' \<and> cDeletedAt c' = Some t \<and>
    cBody c' = cBody c \<and> cUserID c' = cUserID c"
  by (rule postgres.deleted_forever [OF assms])

theorem pg_deleted_forever_witness:
  "\<exists>c'. pg_look (exec_ops (pg_store Some) [OpUpdate (calm 9 []) ''c1'' ''u1'' ''back''] 
      (snd (pg_soft_delete Some (calm 7 []) ''c1'' ''u1'' pg_demo))) ''c1'' = Some c' \<and> cBody c' = ''[deleted]''"
proof -
  let ?s = "snd (pg_soft_delete Some (calm 7 []) ''c1'' ''u1'' pg_demo)"
  have inv: "pg_inv ?s" using pg_inv_exec [OF pg_demo_inv, of Some "OpDelete (calm 7 []) ''c1'' ''u1''"]
    by (simp add: pg_store_def)
  have "\<exists>c. pg_look ?s ''c1'' = Some c \<and> cDeletedAt c = Some 7 \<and> cBody c = ''[deleted]''"
    by (simp add: pg_soft_delete_def pg_demo_eq sql_update_def pg_look_def)
  then obtain c where c: "pg_look ?s ''c1'' = Some c" "cDeletedAt c = Some 7" "cBody c = ''[deleted]''" by blast
  show ?thesis
    using pg_deleted_forever [OF inv _ c(1,2), of Some "[OpUpdate (calm 9 []) ''c1'' ''u1'' ''back'']"] c(3) by auto
qed

text \<open>
  Only the author changes a comment: along writes in which the author neither updates nor deletes,
  its body and its deletion mark stay as they are, whatever the other users ask for.
\<close>

theorem pg_body_by_author:
  assumes "pg_inv s" "fresh_ops (pg_store uuid_of) pg_look ops s" "pg_look s k = Some c"
    and "\<And>x cid b. OpUpdate x cid (cUserID c) b \<notin> set ops" "\<And>x cid. OpDelete x cid (cUserID c) \<notin> set ops"
  shows "\<exists>c'. pg_look (exec_ops (pg_store uuid_of) ops s) k = Some c' \<and> cBody c' = cBody c \<and>
    cDeletedAt c' = cDeletedAt c \<and> cUserID c' = cUserID c"
  by (rule postgres.body_by_author [OF assms])

theorem pg_body_by_author_witness:
  "\<exists>c'. pg_look (exec_ops (pg_store Some) [OpDelete (calm 9 []) ''c1'' ''u2''] pg_demo) ''c1'' = Some c' \<and>
     cBody c' = ''hi'' \<and> cDeletedAt c' = None"
proof -
  obtain c where c: "pg_look pg_demo ''c1'' = Some c" "cBody c = ''hi''" "cDeletedAt c = None" "cUserID c = ''u1''"
    by (simp add: pg_demo_eq pg_look_def)
  show ?thesis
    using pg_body_by_author [OF pg_demo_inv _ c(1), of Some "[OpDelete (calm 9 []) ''c1'' ''u2'']"] c by auto
qed

end
