(* ===== verification/Api.thy ===== *)
theory Api
  imports Go_Prelude
begin

text \<open>
  What crosses the edges of the services: HTTP responses and the error envelope of
  internal/platform/api, gRPC statuses with their details, the translation of one into the other in
  services/bff/internal/handlers/grpc_errors.go, and the two authentication middlewares of
  internal/platform/auth. JSON is data: a response carries the value that is encoded, a request the
  value that was decoded, \<open>None\<close> when decoding failed.
\<close>

section \<open>HTTP responses\<close>

record api_error =
  aeCode :: string
  aeMessage :: string
  aeDetails :: "(string \<rightharpoonup> string) option"
  aeRequestID :: string

datatype 'b body = NoBody | ErrorBody api_error | JsonBody 'b

record 'b response =
  rStatus :: nat
  rBody :: "'b body"

definition WriteJSON :: "nat \<Rightarrow> 'b \<Rightarrow> 'b response" where
  "WriteJSON status v = \<lparr>rStatus = status, rBody = JsonBody v\<rparr>"

definition WriteHeader :: "nat \<Rightarrow> 'b response" where
  "WriteHeader status = \<lparr>rStatus = status, rBody = NoBody\<rparr>"

definition WriteError :: "nat \<Rightarrow> string \<Rightarrow> string \<Rightarrow> string \<Rightarrow> (string \<rightharpoonup> string) option \<Rightarrow> 'b response" where
  "WriteError status code message requestID details =
     \<lparr>rStatus = status, rBody = ErrorBody
        \<lparr>aeCode = code, aeMessage = message, aeDetails = details, aeRequestID = requestID\<rparr>\<rparr>"

definition BadRequest :: "string \<Rightarrow> string \<Rightarrow> string \<Rightarrow> (string \<rightharpoonup> string) option \<Rightarrow> 'b response" where
  "BadRequest code message requestID details = WriteError 400 code message requestID details"

definition Unauthorized :: "string \<Rightarrow> string \<Rightarrow> string \<Rightarrow> 'b response" where
  "Unauthorized code message requestID = WriteError 401 code message requestID None"

definition Forbidden :: "string \<Rightarrow> string \<Rightarrow> string \<Rightarrow> 'b response" where
  "Forbidden code message requestID = WriteError 403 code message requestID None"

definition NotFound :: "string \<Rightarrow> string \<Rightarrow> string \<Rightarrow> 'b response" where
  "NotFound code message requestID = WriteError 404 code message requestID None"

definition Conflict :: "string \<Rightarrow> string \<Rightarrow> string \<Rightarrow> (string \<rightharpoonup> string) option \<Rightarrow> 'b response" where
  "Conflict code message requestID details = WriteError 409 code message requestID details"

definition RateLimited :: "string \<Rightarrow> string \<Rightarrow> string \<Rightarrow> (string \<rightharpoonup> string) option \<Rightarrow> 'b response" where
  "RateLimited code message requestID details = WriteError 429 code message requestID details"

definition Internal :: "string \<Rightarrow> 'b response" where
  "Internal requestID = WriteError 500 ''INTERNAL'' ''Internal server error'' requestID None"

lemmas api_defs = WriteJSON_def WriteHeader_def WriteError_def BadRequest_def Unauthorized_def
  Forbidden_def NotFound_def Conflict_def RateLimited_def Internal_def

section \<open>gRPC statuses\<close>

datatype grpc_code =
    OK | Canceled | Unknown | InvalidArgument | DeadlineExceeded | NotFoundCode | AlreadyExists
  | PermissionDenied | ResourceExhausted | FailedPrecondition | Aborted | OutOfRange
  | Unimplemented | InternalCode | Unavailable | DataLoss | Unauthenticated

datatype err_detail =
    ErrorInfo string
  | BadRequestDetail "(string \<times> string) list"
  | OtherDetail

record grpc_status =
  stCode :: grpc_code
  stMessage :: string
  stDetails :: "err_detail list"

definition status_Error :: "grpc_code \<Rightarrow> string \<Rightarrow> grpc_status" where
  "status_Error c m = \<lparr>stCode = c, stMessage = m, stDetails = []\<rparr>"

text \<open>\<open>writeGRPCError\<close>; \<open>None\<close> is an error that is not a gRPC status.\<close>

fun error_reason :: "err_detail \<Rightarrow> string \<Rightarrow> string" where
  "error_reason (ErrorInfo r) code = (if r \<noteq> [] then r else code)"
| "error_reason _ code = code"

fun field_violations :: "err_detail \<Rightarrow> (string \<rightharpoonup> string) \<Rightarrow> string \<rightharpoonup> string" where
  "field_violations (BadRequestDetail vs) m =
     fold (\<lambda>(f, d) m. if f \<noteq> [] then m(f \<mapsto> d) else m) vs m"
| "field_violations _ m = m"

definition violation_fields :: "err_detail list \<Rightarrow> string list" where
  "violation_fields ds =
     concat (map (\<lambda>d. case d of BadRequestDetail vs \<Rightarrow> filter (\<lambda>f. f \<noteq> []) (map fst vs) | _ \<Rightarrow> []) ds)"

definition writeGRPCError :: "string \<Rightarrow> grpc_status option \<Rightarrow> 'b response" where
  "writeGRPCError requestID err =
     (case err of
        None \<Rightarrow> Internal requestID
      | Some st \<Rightarrow>
          let code = fold error_reason (stDetails st) ''INTERNAL'';
              fields = fold field_violations (stDetails st) Map.empty;
              details = (if violation_fields (stDetails st) = [] then None else Some fields)
          in (case stCode st of
                InvalidArgument \<Rightarrow> BadRequest code (stMessage st) requestID details
              | Unauthenticated \<Rightarrow> Unauthorized code (stMessage st) requestID
              | PermissionDenied \<Rightarrow> Forbidden code (stMessage st) requestID
              | NotFoundCode \<Rightarrow> NotFound code (stMessage st) requestID
              | AlreadyExists \<Rightarrow> Conflict code (stMessage st) requestID details
              | ResourceExhausted \<Rightarrow> RateLimited code (stMessage st) requestID details
              | _ \<Rightarrow> Internal requestID))"

lemma violation_fields_dom: "dom (fold field_violations ds m) = dom m \<union> set (violation_fields ds)"
proof (induction ds arbitrary: m)
  case (Cons d ds)
  have "dom (fold (\<lambda>(f, e) m. if f \<noteq> [] then m(f \<mapsto> e) else m) vs m) =
      dom m \<union> set (filter (\<lambda>f. f \<noteq> []) (map fst vs))" for vs and m :: "string \<rightharpoonup> string"
    by (induction vs arbitrary: m) (auto split: if_splits)
  then show ?case using Cons by (cases d) (auto simp: violation_fields_def)
qed (simp add: violation_fields_def)

text \<open>An error of a backend that is not one of the six client errors reaches the caller as the fixed
  500 envelope: neither its message nor its details are shown. The client errors keep their message.\<close>

theorem writeGRPCError_no_leak:
  "(case err of
      None \<Rightarrow> True
    | Some st \<Rightarrow> stCode st \<notin> {InvalidArgument, Unauthenticated, PermissionDenied, NotFoundCode, AlreadyExists,
                              ResourceExhausted}) =
   (writeGRPCError requestID err = (Internal requestID :: 'b response))"
  by (cases err) (auto simp: writeGRPCError_def api_defs Let_def split: grpc_code.splits)

section \<open>Authentication middleware\<close>

record claims =
  clSubject :: string
  clRole :: string

record auth_ctx =
  ctxUserID :: "string option"
  ctxRole :: "string option"

text \<open>
  \<open>jwt.ParseWithClaims\<close> is the library's: \<open>lib keyfunc token\<close> asks \<open>keyfunc\<close> for the key of the token's
  algorithm and gives the claims with their validity.
\<close>

type_synonym jwt_lib = "(string \<Rightarrow> string option) \<Rightarrow> string \<Rightarrow> (claims \<times> bool) option"

definition JWT_Parse :: "jwt_lib \<Rightarrow> string \<Rightarrow> string \<Rightarrow> claims option" where
  "JWT_Parse lib secret token =
     (case lib (\<lambda>alg. if alg \<noteq> ''HS256'' then None else Some secret) token of
        None \<Rightarrow> None
      | Some (c, valid) \<Rightarrow> if \<not> valid then None else Some c)"

definition RequireUser ::
  "jwt_lib \<Rightarrow> string \<Rightarrow> string \<Rightarrow> (auth_ctx \<Rightarrow> 'b response) \<Rightarrow> auth_ctx \<Rightarrow> 'b response" where
  "RequireUser lib secret header nxt ctx =
     (let authz = trim_space header
      in if authz = [] then WriteHeader 401
         else
           (case split_n 2 CHR '' '' authz of
              [scheme, rest] \<Rightarrow>
                if to_lower scheme \<noteq> ''bearer'' then WriteHeader 401
                else
                  (case JWT_Parse lib secret (trim_space rest) of
                     None \<Rightarrow> WriteHeader 401
                   | Some c \<Rightarrow>
                       if trim_space (clSubject c) = [] then WriteHeader 401
                       else
                         let ctx = ctx\<lparr>ctxUserID := Some (clSubject c)\<rparr>;
                             ctx = (if trim_space (clRole c) \<noteq> [] then ctx\<lparr>ctxRole := Some (clRole c)\<rparr> else ctx)
                         in nxt ctx)
            | _ \<Rightarrow> WriteHeader 401))"

definition RequireAdmin :: "(auth_ctx \<Rightarrow> 'b response) \<Rightarrow> auth_ctx \<Rightarrow> 'b response" where
  "RequireAdmin nxt ctx =
     (let role = (case ctxRole ctx of None \<Rightarrow> [] | Some r \<Rightarrow> r)
      in if to_lower (trim_space role) \<noteq> ''admin'' then WriteHeader 403 else nxt ctx)"

definition empty_ctx :: auth_ctx where
  "empty_ctx = \<lparr>ctxUserID = None, ctxRole = None\<rparr>"

text \<open>The middleware either answers 401 or runs the handler for the subject of an accepted token.\<close>

lemma RequireUser_cases:
  obtains "RequireUser lib secret header nxt ctx = WriteHeader 401"
  | scheme rest c where "split_n 2 CHR '' '' (trim_space header) = [scheme, rest]" "to_lower scheme = ''bearer''"
      "JWT_Parse lib secret (trim_space rest) = Some c" "trim_space (clSubject c) \<noteq> []"
      "RequireUser lib secret header nxt ctx =
         nxt (ctx\<lparr>ctxUserID := Some (clSubject c),
                 ctxRole := (if trim_space (clRole c) \<noteq> [] then Some (clRole c) else ctxRole ctx)\<rparr>)"
proof (cases "\<exists>scheme rest c. split_n 2 CHR '' '' (trim_space header) = [scheme, rest] \<and> to_lower scheme = ''bearer'' \<and>
    JWT_Parse lib secret (trim_space rest) = Some c \<and> trim_space (clSubject c) \<noteq> []")
  case True
  then obtain scheme rest c where 1: "split_n 2 CHR '' '' (trim_space header) = [scheme, rest]"
    "to_lower scheme = ''bearer''" "JWT_Parse lib secret (trim_space rest) = Some c" "trim_space (clSubject c) \<noteq> []"
    by blast
  then have "trim_space header \<noteq> []" by (auto simp: split_n_two_iff)
  with 1 have "RequireUser lib secret header nxt ctx =
         nxt (ctx\<lparr>ctxUserID := Some (clSubject c),
                 ctxRole := (if trim_space (clRole c) \<noteq> [] then Some (clRole c) else ctxRole ctx)\<rparr>)"
    by (simp add: RequireUser_def Let_def)
  with 1 show ?thesis by (rule that(2))
next
  case False
  then have "RequireUser lib secret header nxt ctx = WriteHeader 401"
    by (auto simp: RequireUser_def Let_def split: list.splits option.splits)
  then show ?thesis by (rule that(1))
qed

text \<open>
  A route behind RequireUser and RequireAdmin runs its handler only for a bearer token that the JWT
  library accepted with the platform's secret under HS256, with a subject and the admin role; in every other
  case the answer is 401 or 403 and the handler is not consulted.
\<close>

theorem admin_route_guarded:
  "RequireUser lib secret header (RequireAdmin nxt) empty_ctx \<in> {WriteHeader 401, WriteHeader 403} \<or>
   (\<exists>token c. JWT_Parse lib secret token = Some c \<and> trim_space (clSubject c) \<noteq> [] \<and>
      to_lower (trim_space (clRole c)) = ''admin'' \<and>
      RequireUser lib secret header (RequireAdmin nxt) empty_ctx =
        nxt \<lparr>ctxUserID = Some (clSubject c), ctxRole = Some (clRole c)\<rparr>)"
proof (rule RequireUser_cases [of lib secret header "RequireAdmin nxt" empty_ctx], goal_cases)
  case (2 scheme rest c)
  show ?case
  proof (cases "to_lower (trim_space (clRole c)) = ''admin''")
    case True
    then have "trim_space (clRole c) \<noteq> []" by auto
    with True 2 show ?thesis by (auto simp: RequireAdmin_def empty_ctx_def)
  next
    case False
    with 2 show ?thesis by (auto simp: RequireAdmin_def empty_ctx_def)
  qed
qed simp

text \<open>
  Conversely a well-formed header is let through: for every accepted token (no white space in it) with a
  subject, the header Authorization: Bearer <token>, in any letter case of the scheme, runs the handler with that subject.
\<close>

theorem RequireUser_accepts:
  assumes "JWT_Parse lib secret token = Some c" "trim_space (clSubject c) \<noteq> []"
    and "token \<noteq> []" "\<forall>ch \<in> set token. plain_char ch"
    and "to_lower scheme = ''bearer''" "\<forall>ch \<in> set scheme. plain_char ch"
  shows "RequireUser lib secret (scheme @ CHR '' '' # token) nxt empty_ctx =
    nxt \<lparr>ctxUserID = Some (clSubject c),
         ctxRole = (if trim_space (clRole c) = [] then None else Some (clRole c))\<rparr>"
proof -
  have ne: "scheme \<noteq> []" using assms(5) by auto
  have "\<not> plain_char CHR '' ''" by (simp add: plain_char_def space_runes_def)
  then have sp: "CHR '' '' \<notin> set scheme" using assms(6) by auto
  have "trim_space (scheme @ CHR '' '' # token) = scheme @ CHR '' '' # token"
    using ne assms(3,4,6) by (intro trim_space_plain) (auto simp: last_append)
  moreover have "trim_space token = token" using assms(4) by (rule trim_space_all_plain)
  ultimately show ?thesis
    using sp assms(1,2,5) by (simp add: RequireUser_def empty_ctx_def split_n_two Let_def)
qed

definition demo_jwt :: jwt_lib where
  "demo_jwt key token =
     (if token = ''tok'' \<and> key ''HS256'' \<noteq> None then Some (\<lparr>clSubject = ''u1'', clRole = ''admin''\<rparr>, True) else None)"

theorem RequireUser_accepts_witness:
  "RequireUser demo_jwt ''k'' ''BEARER tok'' (\<lambda>ctx. WriteJSON 200 (ctxUserID ctx)) empty_ctx = WriteJSON 200 (Some ''u1'')"
proof -
  have "JWT_Parse demo_jwt ''k'' ''tok'' = Some \<lparr>clSubject = ''u1'', clRole = ''admin''\<rparr>"
    by (simp add: JWT_Parse_def demo_jwt_def)
  moreover have "trim_space ''u1'' = ''u1''" by (rule trim_space_all_plain) (simp add: plain_ascii)
  moreover have "to_lower ''BEARER'' = ''bearer''" by code_simp
  ultimately show ?thesis
    using RequireUser_accepts [of demo_jwt "''k''" "''tok''" "\<lparr>clSubject = ''u1'', clRole = ''admin''\<rparr>" "''BEARER''"
        "\<lambda>ctx. WriteJSON 200 (ctxUserID ctx)"]
    by (simp add: plain_ascii del: to_lower.simps)
qed

end
