(* ===== verification/Social_Ratings.thy ===== *)
theory Social_Ratings
  imports Social_Comments Complex_Main
begin

text \<open>
  The rating store of the social service (services/social/internal/store/ratings.go and
  ratings_postgres.go). The contract \<open>rating_ledger\<close> is stated once and discharged for the maps of
  the in-memory store and for the table of the Postgres store. Averages are exact rationals where the
  program has a \<open>float64\<close>.
\<close>

section \<open>Data and interface\<close>

record rating_summary =
  rsAnimeID :: string
  rsAverageScore :: rat
  rsTotalRatings :: int

record 's rating_store =
  Upsert :: "ctx \<Rightarrow> string \<Rightarrow> string \<Rightarrow> int \<Rightarrow> 's \<Rightarrow> (store_error + unit) \<times> 's"
  GetSummary :: "ctx \<Rightarrow> string \<Rightarrow> 's \<Rightarrow> store_error + rating_summary"
  GetUserRating :: "ctx \<Rightarrow> string \<Rightarrow> string \<Rightarrow> 's \<Rightarrow> store_error + int \<times> bool"

text \<open>
  The contract, over what is stored, \<open>rating s anime user\<close>. A successful upsert changes that
  rating alone; a summary that is returned counts the users with a rating and averages their scores.
\<close>

locale rating_ledger =
  fixes st :: "('s, 'b) rating_store_scheme"
    and rating :: "'s \<Rightarrow> string \<Rightarrow> string \<Rightarrow> int option"
    and inv :: "'s \<Rightarrow> bool"
    and ok :: "'s \<Rightarrow> ctx \<Rightarrow> bool"
  assumes upsert_inv: "inv s \<Longrightarrow> Upsert st x anime user sc s = (Inr (), s') \<Longrightarrow> inv s'"
    and upsert_ok: "inv s \<Longrightarrow> Upsert st x anime user sc s = (Inr (), s') \<Longrightarrow>
      rating s' = (rating s)(anime := (rating s anime)(user \<mapsto> sc))"
    and upsert_fail: "inv s \<Longrightarrow> Upsert st x anime user sc s = (Inl e, s') \<Longrightarrow> s' = s"
    and raters_finite: "inv s \<Longrightarrow> finite (dom (rating s anime))"
    and summary_ok: "inv s \<Longrightarrow> ok s x \<Longrightarrow> GetSummary st x anime s = Inr r \<Longrightarrow>
      rsAnimeID r = anime \<and> rsTotalRatings r = int (card (dom (rating s anime))) \<and>
      rsAverageScore r * of_int (rsTotalRatings r) = of_int (\<Sum>u \<in> dom (rating s anime). the (rating s anime u)) \<and>
      (rsTotalRatings r = 0 \<longrightarrow> rsAverageScore r = 0)"
    and user_ok: "inv s \<Longrightarrow> GetUserRating st x anime user s = Inr ur \<Longrightarrow>
      ur = (case rating s anime user of None \<Rightarrow> (0, False) | Some sc \<Rightarrow> (sc, True))"
begin

lemma total_after_upsert:
  assumes "inv s" "Upsert st x anime user sc s = (Inr (), s')"
    and "ok s' y" "GetSummary st y anime s' = Inr r"
  shows "rsTotalRatings r = int (card (insert user (dom (rating s anime))))"
  using summary_ok [OF upsert_inv [OF assms(1,2)] assms(3,4)] upsert_ok [OF assms(1,2)] by simp

lemma average_bounds:
  assumes "inv s" "ok s x" "GetSummary st x anime s = Inr r" "rsTotalRatings r \<noteq> 0"
    and "\<And>u sc. rating s anime u = Some sc \<Longrightarrow> lo \<le> sc \<and> sc \<le> hi"
  shows "of_int lo \<le> rsAverageScore r \<and> rsAverageScore r \<le> of_int hi"
proof -
  let ?D = "dom (rating s anime)" and ?f = "\<lambda>u. the (rating s anime u)"
  have r: "rsTotalRatings r = int (card ?D)"
    "rsAverageScore r * of_int (rsTotalRatings r) = of_int (sum ?f ?D)"
    using summary_ok [OF assms(1-3)] by auto
  have b: "lo \<le> ?f u \<and> ?f u \<le> hi" if "u \<in> ?D" for u using assms(5) that by auto
  have "int (card ?D) * lo \<le> sum ?f ?D" "sum ?f ?D \<le> int (card ?D) * hi"
    using sum_mono [of ?D "\<lambda>_. lo" ?f] sum_mono [of ?D ?f "\<lambda>_. hi"] b by simp_all
  then have "(of_int lo :: rat) * of_int (rsTotalRatings r) \<le> of_int (sum ?f ?D)"
    "of_int (sum ?f ?D) \<le> (of_int hi :: rat) * of_int (rsTotalRatings r)"
    unfolding r(1) of_int_mult [symmetric] of_int_le_iff by (simp_all add: mult.commute)
  moreover have "(0 :: rat) < of_int (rsTotalRatings r)" using assms(4) r(1) by simp
  ultimately show ?thesis unfolding r(2) [symmetric] by simp
qed

end

section \<open>In memory\<close>

type_synonym mem_ratings = "string \<rightharpoonup> (string \<rightharpoonup> int)"

definition NewInMemoryRatingStore :: mem_ratings where
  "NewInMemoryRatingStore = Map.empty"

definition mem_upsert :: "ctx \<Rightarrow> string \<Rightarrow> string \<Rightarrow> int \<Rightarrow> mem_ratings \<Rightarrow> (store_error + unit) \<times> mem_ratings" where
  "mem_upsert x animeID userID score s =
     (let users = (case s animeID of None \<Rightarrow> Map.empty | Some m \<Rightarrow> m)
      in (Inr (), s(animeID \<mapsto> users(userID \<mapsto> score))))"

text \<open>\<open>len(users)\<close> is the number of entries a complete \<open>range\<close> over the map visits.\<close>

definition mem_summary :: "ctx \<Rightarrow> string \<Rightarrow> mem_ratings \<Rightarrow> store_error + rating_summary" where
  "mem_summary x animeID s =
     (let users = (case s animeID of None \<Rightarrow> Map.empty | Some m \<Rightarrow> m);
          scores = range_map users (order x 0)
      in if scores = [] then Inr \<lparr>rsAnimeID = animeID, rsAverageScore = 0, rsTotalRatings = 0\<rparr>
         else Inr \<lparr>rsAnimeID = animeID,
                rsAverageScore = of_int (fold (\<lambda>sc total. total + sc) scores 0) / of_nat (length scores),
                rsTotalRatings = int (length scores)\<rparr>)"

definition mem_user_rating :: "ctx \<Rightarrow> string \<Rightarrow> string \<Rightarrow> mem_ratings \<Rightarrow> store_error + int \<times> bool" where
  "mem_user_rating x animeID userID s =
     (case s animeID of
        None \<Rightarrow> Inr (0, False)
      | Some users \<Rightarrow> (case users userID of None \<Rightarrow> Inr (0, False) | Some score \<Rightarrow> Inr (score, True)))"

definition mem_rating_store :: "mem_ratings rating_store" where
  "mem_rating_store = \<lparr>Upsert = mem_upsert, GetSummary = mem_summary, GetUserRating = mem_user_rating\<rparr>"

definition mem_rating :: "mem_ratings \<Rightarrow> string \<Rightarrow> string \<Rightarrow> int option" where
  "mem_rating s anime user = (case s anime of None \<Rightarrow> None | Some m \<Rightarrow> m user)"

text \<open>The iteration visits every rating of the anime once (it may name other keys of the run).\<close>

definition visits :: "mem_ratings \<Rightarrow> ctx \<Rightarrow> bool" where
  "visits s x \<longleftrightarrow> distinct (order x 0) \<and> (\<forall>anime. dom (mem_rating s anime) \<subseteq> set (order x 0))"

lemma range_map_sum:
  assumes "distinct ks" "dom m \<subseteq> set ks"
  shows "length (range_map m ks) = card (dom m)" "sum_list (range_map m ks) = (\<Sum>k \<in> dom m. the (m k) :: int)"
proof -
  let ?ks = "filter (\<lambda>k. m k \<noteq> None) ks"
  have r: "range_map m ks = map (\<lambda>k. the (m k)) ?ks"
    by (simp add: range_map_def List.map_filter_def)
  have s: "set ?ks = dom m" using assms(2) by auto
  have d: "distinct ?ks" using assms(1) by simp
  show "length (range_map m ks) = card (dom m)"
    unfolding r length_map using distinct_card [OF d] s by simp
  show "sum_list (range_map m ks) = (\<Sum>k \<in> dom m. the (m k))"
    unfolding r sum_list_distinct_conv_sum_set [OF d] s ..
qed

lemma fold_total: "fold (\<lambda>sc total. total + sc) xs a = a + sum_list (xs :: int list)"
  by (induction xs arbitrary: a) auto

lemma mem_rating_upsert:
  "mem_rating (snd (mem_upsert x anime user sc s)) = (mem_rating s)(anime := (mem_rating s anime)(user \<mapsto> sc))"
  by (intro ext) (simp add: mem_upsert_def mem_rating_def Let_def split: option.splits)

interpretation mem_ratings: rating_ledger mem_rating_store mem_rating "\<lambda>s. \<forall>a. finite (dom (mem_rating s a))" visits
proof (unfold_locales, goal_cases)
  case (1 s x anime user sc s')
  then have s': "s' = snd (mem_upsert x anime user sc s)" by (simp add: mem_rating_store_def)
  show ?case using 1(1) unfolding s' mem_rating_upsert by simp
next
  case (2 s x anime user sc s')
  then have s': "s' = snd (mem_upsert x anime user sc s)" by (simp add: mem_rating_store_def)
  show ?case unfolding s' by (rule mem_rating_upsert)
next
  case (5 s x anime r)
  let ?m = "mem_rating s anime"
  have m: "(case s anime of None \<Rightarrow> Map.empty | Some m \<Rightarrow> m) = ?m"
    by (auto simp: mem_rating_def fun_eq_iff split: option.splits)
  have v: "distinct (order x 0)" "dom ?m \<subseteq> set (order x 0)" using 5(2) by (auto simp: visits_def)
  note rs = range_map_sum [OF v]
  show ?case
    using 5(3) rs unfolding mem_rating_store_def mem_summary_def rating_store.simps m Let_def
    by (auto simp: fold_total simp del: of_int_sum split: if_splits)
next
  case (6 s x anime user r)
  then show ?case
    by (auto simp: mem_rating_store_def mem_user_rating_def mem_rating_def split: option.splits)
qed (auto simp: mem_rating_store_def mem_upsert_def)

section \<open>In Postgres\<close>

record rating_row =
  rrUser :: string
  rrAnime :: string
  rrScore :: int
  rrCreated :: time
  rrUpdated :: time

definition rating_key :: "rating_row \<Rightarrow> string \<times> string" where
  "rating_key r = (rrUser r, rrAnime r)"

text \<open>\<open>INSERT ... ON CONFLICT (user_id, anime_id) DO UPDATE\<close>, with the \<open>CHECK\<close> on the score.\<close>

definition pg_upsert ::
  "ctx \<Rightarrow> string \<Rightarrow> string \<Rightarrow> int \<Rightarrow> rating_row list \<Rightarrow> (store_error + unit) \<times> rating_row list" where
  "pg_upsert x animeID userID score rows =
     (if fault x 0 \<or> \<not> (1 \<le> score \<and> score \<le> 10) then (Inl ErrDB, rows)
      else
        (case row_by rating_key (userID, animeID) rows of
           None \<Rightarrow> (Inr (), rows @ [\<lparr>rrUser = userID, rrAnime = animeID, rrScore = score,
                                  rrCreated = now x, rrUpdated = now x\<rparr>])
         | Some _ \<Rightarrow> (Inr (), fst (sql_update (\<lambda>r. rating_key r = (userID, animeID))
                                  (\<lambda>r. r\<lparr>rrScore := score, rrUpdated := now x\<rparr>) rows))))"

definition pg_summary :: "ctx \<Rightarrow> string \<Rightarrow> rating_row list \<Rightarrow> store_error + rating_summary" where
  "pg_summary x animeID rows =
     (if fault x 0 then Inl ErrDB
      else
        let scores = map rrScore (filter (\<lambda>r. rrAnime r = animeID) rows)
        in Inr \<lparr>rsAnimeID = animeID,
             rsAverageScore = (if scores = [] then 0 else of_int (sum_list scores) / of_nat (length scores)),
             rsTotalRatings = int (length scores)\<rparr>)"

definition pg_user_rating :: "ctx \<Rightarrow> string \<Rightarrow> string \<Rightarrow> rating_row list \<Rightarrow> store_error + int \<times> bool" where
  "pg_user_rating x animeID userID rows =
     (if fault x 0 then Inl ErrDB
      else
        (case row_by rating_key (userID, animeID) rows of
           None \<Rightarrow> Inr (0, False)
         | Some r \<Rightarrow> Inr (rrScore r, True)))"

definition pg_rating_store :: "rating_row list rating_store" where
  "pg_rating_store = \<lparr>Upsert = pg_upsert, GetSummary = pg_summary, GetUserRating = pg_user_rating\<rparr>"

definition pg_rating :: "rating_row list \<Rightarrow> string \<Rightarrow> string \<Rightarrow> int option" where
  "pg_rating rows anime user = map_option rrScore (row_by rating_key (user, anime) rows)"

definition pg_ratings_inv :: "rating_row list \<Rightarrow> bool" where
  "pg_ratings_inv rows \<longleftrightarrow> distinct (map rating_key rows) \<and> (\<forall>r \<in> set rows. 1 \<le> rrScore r \<and> rrScore r \<le> 10)"

lemma pg_upsert_cases:
  assumes "pg_ratings_inv rows" "pg_upsert x anime user sc rows = (Inr (), rows')"
  shows "pg_ratings_inv rows' \<and> pg_rating rows' = (pg_rating rows)(anime := (pg_rating rows anime)(user \<mapsto> sc))"
proof (cases "row_by rating_key (user, anime) rows")
  case None
  let ?r = "\<lparr>rrUser = user, rrAnime = anime, rrScore = sc, rrCreated = now x, rrUpdated = now x\<rparr>"
  have r: "rows' = rows @ [?r]" "1 \<le> sc" "sc \<le> 10" using assms(2) None by (auto simp: pg_upsert_def split: if_splits)
  have "(user, anime) \<notin> rating_key ` set rows" using None by (simp add: row_by_None)
  then have "pg_ratings_inv rows'" using assms(1) r by (auto simp: pg_ratings_inv_def rating_key_def)
  moreover have "pg_rating rows' = (pg_rating rows)(anime := (pg_rating rows anime)(user \<mapsto> sc))"
    using None by (intro ext) (auto simp: pg_rating_def r row_by_append rating_key_def split: option.splits)
  ultimately show ?thesis by simp
next
  case (Some r)
  let ?f = "\<lambda>r. r\<lparr>rrScore := sc, rrUpdated := now x\<rparr>"
  have r: "rows' = fst (sql_update (\<lambda>r. rating_key r = (user, anime)) ?f rows)" "1 \<le> sc" "sc \<le> 10"
    using assms(2) Some by (auto simp: pg_upsert_def split: if_splits)
  have key: "rating_key (?f q) = rating_key q" for q by (simp add: rating_key_def)
  have "map rating_key rows' = map rating_key rows" unfolding r(1) by (rule sql_update_keys) (rule key)
  moreover have "\<forall>q \<in> set rows'. 1 \<le> rrScore q \<and> rrScore q \<le> 10"
    using assms(1) r by (auto simp: pg_ratings_inv_def sql_update_def)
  ultimately have "pg_ratings_inv rows'" using assms(1) by (simp add: pg_ratings_inv_def)
  moreover have "row_by rating_key j rows' = (if j = (user, anime) then Some (?f r) else row_by rating_key j rows)" for j
    unfolding r(1) by (rule row_by_sql_update [OF key _ Some]) (use row_by_Some [OF Some] in auto)
  then have "pg_rating rows' = (pg_rating rows)(anime := (pg_rating rows anime)(user \<mapsto> sc))"
    by (intro ext) (auto simp: pg_rating_def)
  ultimately show ?thesis by simp
qed

lemma pg_raters: "dom (pg_rating rows anime) = rrUser ` set (filter (\<lambda>r. rrAnime r = anime) rows)"
proof -
  have "u \<in> dom (pg_rating rows anime) \<longleftrightarrow> (u, anime) \<in> rating_key ` set rows" for u
    by (auto simp: pg_rating_def row_by_None dom_def)
  then show ?thesis by (auto simp: rating_key_def image_iff)
qed

lemma pg_summary_sum:
  assumes "pg_ratings_inv rows"
  shows "(\<Sum>u \<in> dom (pg_rating rows anime). the (pg_rating rows anime u)) =
      sum_list (map rrScore (filter (\<lambda>r. rrAnime r = anime) rows))"
    and "card (dom (pg_rating rows anime)) = length (filter (\<lambda>r. rrAnime r = anime) rows)"
proof -
  let ?R = "filter (\<lambda>r. rrAnime r = anime) rows"
  have inj: "inj_on rrUser (set ?R)" "distinct ?R"
    using assms by (auto simp: pg_ratings_inv_def distinct_map inj_on_def rating_key_def)
  have "the (pg_rating rows anime (rrUser r)) = rrScore r" if "r \<in> set ?R" for r
    using row_by_mem [of rating_key rows r] assms that
    by (auto simp: pg_rating_def pg_ratings_inv_def rating_key_def)
  then show "(\<Sum>u \<in> dom (pg_rating rows anime). the (pg_rating rows anime u)) = sum_list (map rrScore ?R)"
    unfolding pg_raters using inj
    by (subst sum.reindex) (simp_all add: sum_list_distinct_conv_sum_set del: set_filter)
  show "card (dom (pg_rating rows anime)) = length ?R"
    unfolding pg_raters using inj by (subst card_image) (simp_all add: distinct_card del: set_filter)
qed

interpretation pg_ratings: rating_ledger pg_rating_store pg_rating pg_ratings_inv "\<lambda>_ _. True"
proof (unfold_locales, goal_cases)
  case (1 s x anime user sc s')
  then show ?case using pg_upsert_cases [of s x anime user sc s'] by (simp add: pg_rating_store_def)
next
  case (2 s x anime user sc s')
  then show ?case using pg_upsert_cases [of s x anime user sc s'] by (simp add: pg_rating_store_def)
next
  case (3 s x anime user sc e s')
  then show ?case by (auto simp: pg_rating_store_def pg_upsert_def split: if_splits option.splits)
next
  case (5 s x anime r)
  then show ?case using pg_summary_sum [of s anime]
    by (auto simp: pg_rating_store_def pg_summary_def Let_def simp del: of_int_sum split: if_splits)
next
  case (6 s x anime user r)
  then show ?case
    by (auto simp: pg_rating_store_def pg_user_rating_def pg_rating_def split: if_splits option.splits)
qed (simp add: pg_raters)

end
