(* ===== verification/Social_Service.thy ===== *)
theory Social_Service
  imports Api Social_Stores Social_Ratings
begin

text \<open>
  The gRPC surface of the social service (services/social/internal/grpcapi/social_service.go) over any
  implementation of the two store interfaces. A handler takes the incoming metadata, the request
  fields and the state, and returns a status or a response with the new state. \<open>xs i\<close> is the
  environment of the \<open>i\<close>-th store call of the request. Request integers are 32-bit words.
\<close>

section \<open>Requests and responses\<close>

record ('s, 'r) social_service =
  svComments :: "'s comment_store"
  svRatings :: "'r rating_store"

type_synonym metadata = "(string \<Rightarrow> string list) option"

definition userIDFromMD :: "metadata \<Rightarrow> grpc_status + string" where
  "userIDFromMD md =
     (case md of
        None \<Rightarrow> Inl (status_Error Unauthenticated ''missing metadata'')
      | Some m \<Rightarrow>
          (case m ''user_id'' of
             [] \<Rightarrow> Inl (status_Error Unauthenticated ''missing user_id in metadata'')
           | v # _ \<Rightarrow>
               if trim_space v = [] then Inl (status_Error Unauthenticated ''missing user_id in metadata'')
               else Inr (trim_space v)))"

record rate_response =
  rrAverage :: rat
  rrCount :: i32
  rrUserScore :: "i32 option"

record pb_comment =
  pbId :: string
  pbAnimeId :: string
  pbUserId :: string
  pbParentId :: "string option"
  pbBody :: string
  pbScore :: i32
  pbCreatedAt :: time
  pbUpdatedAt :: "time option"
  pbDeletedAt :: "time option"

record pb_node =
  pbComment :: pb_comment
  pbReplies :: "pb_comment list"

definition commentToProto :: "comment \<Rightarrow> pb_comment" where
  "commentToProto c = \<lparr>pbId = cID c, pbAnimeId = cAnimeID c, pbUserId = cUserID c, pbParentId = cParentID c,
     pbBody = cBody c, pbScore = word_of_int (cScore c), pbCreatedAt = cCreatedAt c,
     pbUpdatedAt = cUpdatedAt c, pbDeletedAt = cDeletedAt c\<rparr>"

section \<open>Ratings\<close>

definition RateAnime ::
  "('s, 'r) social_service \<Rightarrow> (nat \<Rightarrow> ctx) \<Rightarrow> metadata \<Rightarrow> string \<Rightarrow> i32 \<Rightarrow> 'r \<Rightarrow> (grpc_status + rate_response) \<times> 'r" where
  "RateAnime sv xs md req_anime req_score r =
     (case userIDFromMD md of
        Inl e \<Rightarrow> (Inl e, r)
      | Inr userID \<Rightarrow>
          let animeID = trim_space req_anime
          in if animeID = [] then (Inl (status_Error InvalidArgument ''anime_id is required''), r)
             else
               let score = sint req_score
               in if score < 1 \<or> 10 < score
                  then (Inl (status_Error InvalidArgument ''score must be between 1 and 10''), r)
                  else
                    (case Upsert (svRatings sv) (xs 0) animeID userID score r of
                       (Inl e, r) \<Rightarrow> (Inl (status_Error InternalCode ''failed to save rating''), r)
                     | (Inr _, r) \<Rightarrow>
                         (case GetSummary (svRatings sv) (xs 1) animeID r of
                            Inl e \<Rightarrow> (Inl (status_Error InternalCode ''failed to get summary''), r)
                          | Inr summary \<Rightarrow>
                              (Inr \<lparr>rrAverage = rsAverageScore summary,
                                 rrCount = word_of_int (rsTotalRatings summary), rrUserScore = None\<rparr>, r))))"

definition GetRating ::
  "('s, 'r) social_service \<Rightarrow> (nat \<Rightarrow> ctx) \<Rightarrow> metadata \<Rightarrow> string \<Rightarrow> 'r \<Rightarrow> grpc_status + rate_response" where
  "GetRating sv xs md req_anime r =
     (let animeID = trim_space req_anime
      in if animeID = [] then Inl (status_Error InvalidArgument ''anime_id is required'')
         else
           (case GetSummary (svRatings sv) (xs 0) animeID r of
              Inl e \<Rightarrow> Inl (status_Error InternalCode ''failed to get rating summary'')
            | Inr summary \<Rightarrow>
                let resp = \<lparr>rrAverage = rsAverageScore summary,
                      rrCount = word_of_int (rsTotalRatings summary), rrUserScore = None\<rparr>
                in (case userIDFromMD md of
                      Inl e \<Rightarrow> Inr resp
                    | Inr userID \<Rightarrow>
                        if userID = [] then Inr resp
                        else
                          (case GetUserRating (svRatings sv) (xs 1) animeID userID r of
                             Inr (userScore, True) \<Rightarrow> Inr (resp\<lparr>rrUserScore := Some (word_of_int userScore)\<rparr>)
                           | _ \<Rightarrow> Inr resp))))"

section \<open>Comments\<close>

definition CreateComment ::
  "('s, 'r) social_service \<Rightarrow> ctx \<Rightarrow> metadata \<Rightarrow> string \<Rightarrow> string \<Rightarrow> string option \<Rightarrow> 's \<Rightarrow> (grpc_status + pb_comment) \<times> 's" where
  "CreateComment sv x md req_anime req_body req_parent s =
     (case userIDFromMD md of
        Inl e \<Rightarrow> (Inl e, s)
      | Inr userID \<Rightarrow>
          let animeID = trim_space req_anime
          in if animeID = [] then (Inl (status_Error InvalidArgument ''anime_id is required''), s)
             else if trim_space req_body = []
             then (Inl (status_Error InvalidArgument ''body must not be empty''), s)
             else
               let c = \<lparr>cID = [], cAnimeID = animeID, cUserID = userID,
                     cParentID = map_option trim_space req_parent, cBody = req_body, cScore = 0,
                     cCreatedAt = 0, cUpdatedAt = None, cDeletedAt = None\<rparr>
               in (case Create (svComments sv) x c s of
                     (Inl e, s) \<Rightarrow> (Inl (status_Error InternalCode ''failed to create comment''), s)
                   | (Inr created, s) \<Rightarrow> (Inr (commentToProto created), s)))"

definition ListComments ::
  "('s, 'r) social_service \<Rightarrow> ctx \<Rightarrow> string \<Rightarrow> string \<Rightarrow> i32 \<Rightarrow> string \<Rightarrow> 's \<Rightarrow> grpc_status + pb_node list \<times> string" where
  "ListComments sv x req_anime req_sort req_limit req_cursor s =
     (let animeID = trim_space req_anime
      in if animeID = [] then Inl (status_Error InvalidArgument ''anime_id is required'')
         else
           let sortParam = to_lower (trim_space req_sort);
               sortParam = (if sortParam \<noteq> SortTop then ''new'' else sortParam);
               limit = sint req_limit;
               limit = (if limit \<le> 0 \<or> 100 < limit then 50 else limit);
               cursor = trim_space req_cursor
           in (case GetThread (svComments sv) x animeID sortParam limit cursor s of
                 Inl e \<Rightarrow> Inl (status_Error InternalCode ''failed to list comments'')
               | Inr (nodes, nextCursor) \<Rightarrow>
                   Inr (map (\<lambda>n. \<lparr>pbComment = commentToProto (nComment n),
                              pbReplies = map commentToProto (nReplies n)\<rparr>) nodes, nextCursor)))"

definition VoteComment ::
  "('s, 'r) social_service \<Rightarrow> ctx \<Rightarrow> metadata \<Rightarrow> string \<Rightarrow> i32 \<Rightarrow> 's \<Rightarrow> (grpc_status + unit) \<times> 's" where
  "VoteComment sv x md req_comment req_vote s =
     (case userIDFromMD md of
        Inl e \<Rightarrow> (Inl e, s)
      | Inr userID \<Rightarrow>
          let commentID = trim_space req_comment
          in if commentID = [] then (Inl (status_Error InvalidArgument ''comment_id is required''), s)
             else
               let vote = (ucast req_vote :: i16)
               in if vote \<noteq> 1 \<and> vote \<noteq> -1
                  then (Inl (status_Error InvalidArgument ''vote must be 1 or -1''), s)
                  else
                    (case Vote (svComments sv) x commentID userID vote s of
                       (Inl ErrNotFoundOrForbidden, s) \<Rightarrow> (Inl (status_Error NotFoundCode ''comment not found''), s)
                     | (Inl e, s) \<Rightarrow> (Inl (status_Error InternalCode ''failed to vote''), s)
                     | (Inr _, s) \<Rightarrow> (Inr (), s)))"

definition UpdateComment ::
  "('s, 'r) social_service \<Rightarrow> ctx \<Rightarrow> metadata \<Rightarrow> string \<Rightarrow> string \<Rightarrow> 's \<Rightarrow> (grpc_status + unit) \<times> 's" where
  "UpdateComment sv x md req_comment req_body s =
     (case userIDFromMD md of
        Inl e \<Rightarrow> (Inl e, s)
      | Inr userID \<Rightarrow>
          let commentID = trim_space req_comment
          in if commentID = [] then (Inl (status_Error InvalidArgument ''comment_id is required''), s)
             else if trim_space req_body = []
             then (Inl (status_Error InvalidArgument ''body must not be empty''), s)
             else
               (case UpdateBody (svComments sv) x commentID userID req_body s of
                  (Inl ErrNotFoundOrForbidden, s) \<Rightarrow>
                    (Inl (status_Error PermissionDenied ''not found or not the author''), s)
                | (Inl e, s) \<Rightarrow> (Inl (status_Error InternalCode ''failed to update comment''), s)
                | (Inr _, s) \<Rightarrow> (Inr (), s)))"

definition DeleteComment ::
  "('s, 'r) social_service \<Rightarrow> ctx \<Rightarrow> metadata \<Rightarrow> string \<Rightarrow> 's \<Rightarrow> (grpc_status + unit) \<times> 's" where
  "DeleteComment sv x md req_comment s =
     (case userIDFromMD md of
        Inl e \<Rightarrow> (Inl e, s)
      | Inr userID \<Rightarrow>
          let commentID = trim_space req_comment
          in if commentID = [] then (Inl (status_Error InvalidArgument ''comment_id is required''), s)
             else
               (case SoftDelete (svComments sv) x commentID userID s of
                  (Inl ErrNotFoundOrForbidden, s) \<Rightarrow>
                    (Inl (status_Error PermissionDenied ''not found or not the author''), s)
                | (Inl e, s) \<Rightarrow> (Inl (status_Error InternalCode ''failed to delete comment''), s)
                | (Inr _, s) \<Rightarrow> (Inr (), s)))"

section \<open>Properties\<close>

definition social_pg :: "(string \<Rightarrow> uuid option) \<Rightarrow> (pg_comments, rating_row list) social_service" where
  "social_pg uuid_of = \<lparr>svComments = pg_store uuid_of, svRatings = pg_rating_store\<rparr>"

definition list_page :: "grpc_status + pb_node list \<times> string \<Rightarrow> (pb_comment list \<times> string) option" where
  "list_page r = (case r of Inl e \<Rightarrow> None | Inr (nodes, nxt) \<Rightarrow> Some (map pbComment nodes, nxt))"

definition sort_param :: "string \<Rightarrow> string" where
  "sort_param s = (if to_lower (trim_space s) = SortTop then SortTop else ''new'')"

lemma trim_pg_cursor [simp]: "trim_space (pg_cursor sortBy c) = pg_cursor sortBy c"
  by (simp add: pg_cursor_def encodeTopCursor_def encodeNewCursor_def)

text \<open>The cursor of a page survives the trimming of the request field: the walk goes through the service.\<close>

interpretation svc_thread: pager
  "\<lambda>c. thread_page (pg_get_thread uuid_of (xs c) animeID sortBy limit (trim_space c) s)"
  "pg_roots animeID sortBy s" "pg_cursor sortBy" "clamp_limit limit"
  "pg_inv s \<and> (\<forall>c. \<not> fault (xs c) 0 \<and> \<not> fault (xs c) 1) \<and> (\<forall>c \<in> set (pComments s). pg_stored uuid_of c)" "(<)"
  for uuid_of s xs animeID sortBy limit
proof (unfold_locales, goal_cases)
  case 4
  then show ?case using pg_thread.page_first [of s xs uuid_of] by simp
next
  case (5 ys r zs)
  then show ?case using pg_thread.page_next [of s xs uuid_of animeID sortBy ys r zs limit] by simp
qed simp_all

lemma clamp_limit_twice: "clamp_limit (if l \<le> 0 \<or> 100 < l then 50 else l) = clamp_limit l"
  by (simp add: clamp_limit_def)

lemma list_page_pg:
  assumes "trim_space anime \<noteq> []"
  shows "list_page (ListComments (social_pg uuid_of) x anime so lm c s) =
    map_option (\<lambda>(xs, nxt). (map commentToProto xs, nxt))
      (thread_page (pg_get_thread uuid_of x (trim_space anime) (sort_param so) (sint lm) (trim_space c) s))"
proof -
  have "GetThread (svComments (social_pg uuid_of)) x a so' (if l \<le> 0 \<or> 100 < l then 50 else l) c' s =
      pg_get_thread uuid_of x a so' l c' s" for a so' l c'
    by (simp only: social_pg_def pg_store_def social_service.simps comment_store.simps pg_get_thread_def clamp_limit_twice)
  moreover have "(if to_lower (trim_space so) \<noteq> SortTop then ''new'' else to_lower (trim_space so)) = sort_param so"
    by (simp add: sort_param_def)
  ultimately show ?thesis
    using assms unfolding ListComments_def Let_def
    by (auto simp: list_page_def thread_page_def split: sum.splits)
qed

text \<open>
  Through the service: calling ListComments with the cursor of the previous answer until it is
  empty returns, for every anime, sort and limit a client may send, all root comments of the anime in
  the Postgres store, each once and in order, converted to their wire form.
\<close>

theorem ListComments_complete:
  assumes "pg_inv s" "\<forall>c. \<not> fault (xs c) 0 \<and> \<not> fault (xs c) 1" "\<forall>c \<in> set (pComments s). pg_stored uuid_of c"
    and "trim_space anime \<noteq> []"
  shows "\<exists>rows. walk (Suc (length (pComments s)))
        (\<lambda>c. list_page (ListComments (social_pg uuid_of) (xs c) anime so lm c s)) [] = Some (map commentToProto rows) \<and>
      distinct rows \<and> set rows = {c \<in> set (pComments s). cAnimeID c = trim_space anime \<and> cParentID c = None} \<and>
      (if sort_param so = SortTop then strict_desc top_key rows else strict_desc new_key rows)"
proof (intro exI conjI)
  let ?rows = "pg_roots (trim_space anime) (sort_param so) s"
  have len: "length ?rows < Suc (length (pComments s))" by (simp add: pg_roots_def less_Suc_eq_le)
  show "walk (Suc (length (pComments s)))
        (\<lambda>c. list_page (ListComments (social_pg uuid_of) (xs c) anime so lm c s)) [] = Some (map commentToProto ?rows)"
    unfolding list_page_pg [OF assms(4)] walk_map
    using svc_thread.walk_all [OF _ len, of xs uuid_of "sint lm"] assms(1-3) by auto
  show "distinct ?rows" using assms(1) by (simp add: pg_roots_def pg_inv_def distinct_map)
  show "set ?rows = {c \<in> set (pComments s). cAnimeID c = trim_space anime \<and> cParentID c = None}"
    by (simp add: is_root_def)
  show "if sort_param so = SortTop then strict_desc top_key ?rows else strict_desc new_key ?rows"
    using pg_roots_desc [OF assms(1)] by simp
qed

theorem ListComments_complete_witness:
  "\<exists>rows. walk 3 (\<lambda>c. list_page (ListComments (social_pg Some) (calm 0 []) ''a'' ''TOP'' 1 c pg_demo)) [] =
      Some (map commentToProto rows) \<and> distinct rows \<and> set rows = set (pComments pg_demo)"
proof -
  have st: "\<forall>c \<in> set (pComments pg_demo). pg_stored Some c"
    by (simp add: pg_demo_eq pg_stored_def pg_time_def in_int64_def)
  have a: "trim_space ''a'' = ''a''" by (rule trim_space_all_plain) (simp add: plain_ascii)
  have "set (pComments pg_demo) = {c \<in> set (pComments pg_demo). cAnimeID c = ''a'' \<and> cParentID c = None}"
    by (auto simp: pg_demo_eq)
  moreover have "Suc (length (pComments pg_demo)) = 3" by (simp add: pg_demo_eq)
  ultimately show ?thesis
    using ListComments_complete [OF pg_demo_inv _ st, of "\<lambda>_. calm 0 []" "''a''" "''TOP''" 1] a by auto
qed

text \<open>
  The range check of a vote is made after the request's 32-bit value is cut to 16 bits, so values that
  differ by a multiple of 65536 are treated alike: a request with vote 65537 is accepted and stored as an upvote.
\<close>

theorem VoteComment_truncates:
  "VoteComment sv x md cid (v + 65536 * k) s = VoteComment sv x md cid v s"
proof -
  have "uint (ucast (v + 65536 * k) :: i16) = (uint v + 65536 * uint k) mod 65536"
    by (simp add: unsigned_ucast_eq take_bit_eq_mod uint_word_ariths mod_mod_cancel mod_simps)
  also have "\<dots> = uint (ucast v :: i16)" by (simp add: unsigned_ucast_eq take_bit_eq_mod)
  finally have eq: "(ucast (v + 65536 * k) :: i16) = ucast v" by (simp only: word_uint_eq_iff)
  show ?thesis unfolding VoteComment_def eq ..
qed

lemma userIDFromMD_nonblank: "userIDFromMD md = Inr u \<Longrightarrow> u \<noteq> [] \<and> trim_space u = u"
  by (auto simp: userIDFromMD_def split: option.splits list.splits if_splits)

text \<open>
  A rating that is acknowledged was valid and is stored: the score is between 1 and 10, it is the
  user's rating of that anime afterwards, no other rating changed, and the answer counts every rater once.
\<close>

theorem RateAnime_stores:
  assumes "pg_ratings_inv r" "RateAnime (social_pg uuid_of) xs md anime sc r = (Inr resp, r')"
  shows "\<exists>user. userIDFromMD md = Inr user \<and> 1 \<le> sint sc \<and> sint sc \<le> 10 \<and> pg_ratings_inv r' \<and>
    pg_rating r' = (pg_rating r)(trim_space anime := (pg_rating r (trim_space anime))(user \<mapsto> sint sc)) \<and>
    rrCount resp = word_of_nat (card (insert user (dom (pg_rating r (trim_space anime))))) \<and>
    1 \<le> rrAverage resp \<and> rrAverage resp \<le> 10"
proof -
  let ?a = "trim_space anime"
  obtain user summary where 1: "userIDFromMD md = Inr user" "1 \<le> sint sc" "sint sc \<le> 10"
    "Upsert pg_rating_store (xs 0) ?a user (sint sc) r = (Inr (), r')"
    "GetSummary pg_rating_store (xs 1) ?a r' = Inr summary"
    "rrCount resp = word_of_int (rsTotalRatings summary)" "rrAverage resp = rsAverageScore summary"
    using assms(2) by (auto simp: RateAnime_def social_pg_def Let_def split: sum.splits if_splits prod.splits)
  have inv: "pg_ratings_inv r'" by (rule pg_ratings.upsert_inv [OF assms(1) 1(4)])
  have rat: "pg_rating r' = (pg_rating r)(?a := (pg_rating r ?a)(user \<mapsto> sint sc))"
    by (rule pg_ratings.upsert_ok [OF assms(1) 1(4)])
  have tot: "rsTotalRatings summary = int (card (insert user (dom (pg_rating r ?a))))"
    by (rule pg_ratings.total_after_upsert [OF assms(1) 1(4) TrueI 1(5)])
  have "of_int 1 \<le> rsAverageScore summary \<and> rsAverageScore summary \<le> of_int 10"
  proof (rule pg_ratings.average_bounds [OF inv TrueI 1(5)])
    show "rsTotalRatings summary \<noteq> 0"
      using tot pg_ratings.raters_finite [OF assms(1), of ?a] by (simp add: card_gt_0_iff)
    show "1 \<le> k \<and> k \<le> 10" if "pg_rating r' ?a u = Some k" for u k
      using that inv by (auto simp: pg_rating_def pg_ratings_inv_def dest!: row_by_Some)
  qed
  with 1 inv rat tot show ?thesis by auto
qed

theorem RateAnime_stores_witness:
  "\<exists>resp r'. RateAnime (social_pg Some) (\<lambda>_. calm 0 []) (Some (\<lambda>_. [''u''])) ''a'' 7 [] = (Inr resp, r') \<and>
     pg_rating r' ''a'' ''u'' = Some 7 \<and> rrCount resp = 1"
proof -
  have t: "trim_space ''a'' = ''a''" "trim_space ''u'' = ''u''" by (rule trim_space_all_plain, simp add: plain_ascii)+
  let ?R = "RateAnime (social_pg Some) (\<lambda>_. calm 0 []) (Some (\<lambda>_. [''u''])) ''a'' 7 []"
  have s: "sint (7 :: i32) = 7" by simp
  obtain resp r' where r: "?R = (Inr resp, r')"
    by (simp add: RateAnime_def social_pg_def userIDFromMD_def t pg_rating_store_def pg_upsert_def pg_summary_def Let_def s)
  have e: "pg_rating [] ''a'' = Map.empty" by (simp add: pg_rating_def fun_eq_iff)
  from RateAnime_stores [OF _ r] show ?thesis unfolding r
    by (auto simp: pg_ratings_inv_def userIDFromMD_def t e)
qed

text \<open>
  A request the service refuses for its caller or its fields leaves the comments as they were, and so
  does every write that reports an error: no handler half-applies a change.
\<close>

theorem social_errors_change_nothing:
  assumes "pg_inv s"
  shows "(case CreateComment (social_pg uuid_of) x md anime body parent s of (Inl e, s') \<Rightarrow> s' = s | (Inr _, s') \<Rightarrow> pg_inv s') \<and>
    (case UpdateComment (social_pg uuid_of) x md cid body s of (Inl e, s') \<Rightarrow> s' = s | (Inr _, s') \<Rightarrow> pg_inv s') \<and>
    (case DeleteComment (social_pg uuid_of) x md cid s of (Inl e, s') \<Rightarrow> s' = s | (Inr _, s') \<Rightarrow> pg_inv s') \<and>
    (case VoteComment (social_pg uuid_of) x md cid v s of (Inl e, s') \<Rightarrow> s' = s | (Inr _, s') \<Rightarrow> pg_inv s')"
proof (intro conjI)
  show "case CreateComment (social_pg uuid_of) x md anime body parent s of (Inl e, s') \<Rightarrow> s' = s | (Inr _, s') \<Rightarrow> pg_inv s'"
    unfolding CreateComment_def social_pg_def pg_store_def Let_def social_service.simps comment_store.simps
    by (auto split: sum.splits prod.splits dest: pg_create_cases [OF assms])
  show "case UpdateComment (social_pg uuid_of) x md cid body s of (Inl e, s') \<Rightarrow> s' = s | (Inr _, s') \<Rightarrow> pg_inv s'"
    unfolding UpdateComment_def social_pg_def pg_store_def Let_def social_service.simps comment_store.simps
    by (auto split: sum.splits prod.splits store_error.splits dest: pg_update_cases [OF assms])
  show "case DeleteComment (social_pg uuid_of) x md cid s of (Inl e, s') \<Rightarrow> s' = s | (Inr _, s') \<Rightarrow> pg_inv s'"
    unfolding DeleteComment_def social_pg_def pg_store_def Let_def social_service.simps comment_store.simps
    by (auto split: sum.splits prod.splits store_error.splits dest: pg_delete_cases [OF assms])
  show "case VoteComment (social_pg uuid_of) x md cid v s of (Inl e, s') \<Rightarrow> s' = s | (Inr _, s') \<Rightarrow> pg_inv s'"
    unfolding VoteComment_def social_pg_def pg_store_def Let_def social_service.simps comment_store.simps
    by (auto split: sum.splits prod.splits store_error.splits dest: pg_vote_cases [OF assms])
qed

theorem social_errors_change_nothing_witness:
  "snd (VoteComment (social_pg Some) (calm 0 []) None ''c1'' 1 pg_demo) = pg_demo"
  using social_errors_change_nothing [OF pg_demo_inv, of Some "calm 0 []" None "[]" "[]" None "''c1''" 1]
  by (auto simp: VoteComment_def userIDFromMD_def)

end
