(* ===== verification/Social_Handlers.thy ===== *)
theory Social_Handlers
  imports Social_Service
begin

text \<open>
  The HTTP surface of the social service (services/social/internal/handlers). A handler takes the
  values the Go code reads from the request: the authenticated user of the context, the URL
  parameter, the query values, and the decoded JSON body, \<open>None\<close> when decoding failed (\<open>voteRequest.Vote\<close>
  is an \<open>int16\<close>: a number outside its range is a decoding failure).
\<close>

record create_comment_request =
  ccBody :: string
  ccParentID :: "string option"

datatype social_json =
    JComment comment
  | JThread "comment_tree_node list" string
  | JSummary rating_summary "int option"

definition http_CreateComment ::
  "'s comment_store \<Rightarrow> ctx \<Rightarrow> auth_ctx \<Rightarrow> string \<Rightarrow> create_comment_request option \<Rightarrow> 's \<Rightarrow> social_json response \<times> 's" where
  "http_CreateComment cs x actx url_anime body s =
     (case ctxUserID actx of
        None \<Rightarrow> (Unauthorized ''UNAUTHORIZED'' ''authentication required'' [], s)
      | Some userID \<Rightarrow>
          if userID = [] then (Unauthorized ''UNAUTHORIZED'' ''authentication required'' [], s)
          else
            let animeID = trim_space url_anime
            in if animeID = [] then (BadRequest ''MISSING_ID'' ''anime_id is required'' [] None, s)
               else
                 (case body of
                    None \<Rightarrow> (BadRequest ''INVALID_JSON'' ''invalid JSON'' [] None, s)
                  | Some req \<Rightarrow>
                      if trim_space (ccBody req) = []
                      then (BadRequest ''EMPTY_BODY'' ''body must not be empty'' [] None, s)
                      else
                        let c = \<lparr>cID = [], cAnimeID = animeID, cUserID = userID, cParentID = ccParentID req,
                              cBody = ccBody req, cScore = 0, cCreatedAt = 0, cUpdatedAt = None, cDeletedAt = None\<rparr>
                        in (case Create cs x c s of
                              (Inl e, s) \<Rightarrow> (Internal [], s)
                            | (Inr created, s) \<Rightarrow> (WriteJSON 201 (JComment created), s))))"

definition http_limit :: "string \<Rightarrow> int" where
  "http_limit l =
     (if l = [] then 50
      else (case parse_int l of None \<Rightarrow> 50 | Some n \<Rightarrow> if 0 < n \<and> n \<le> 100 then n else 50))"

definition http_GetThread ::
  "'s comment_store \<Rightarrow> ctx \<Rightarrow> string \<Rightarrow> string \<Rightarrow> string \<Rightarrow> string \<Rightarrow> 's \<Rightarrow> social_json response" where
  "http_GetThread cs x url_anime q_sort q_limit q_cursor s =
     (let animeID = trim_space url_anime
      in if animeID = [] then BadRequest ''MISSING_ID'' ''anime_id is required'' [] None
         else
           let sortParam = to_lower (trim_space q_sort);
               sortParam = (if sortParam \<noteq> SortTop then ''new'' else sortParam);
               cursor = trim_space q_cursor
           in (case GetThread cs x animeID sortParam (http_limit q_limit) cursor s of
                 Inl e \<Rightarrow> Internal []
               | Inr (nodes, nextCursor) \<Rightarrow> WriteJSON 200 (JThread nodes nextCursor)))"

definition http_VoteComment ::
  "'s comment_store \<Rightarrow> ctx \<Rightarrow> auth_ctx \<Rightarrow> string \<Rightarrow> i16 option \<Rightarrow> 's \<Rightarrow> social_json response \<times> 's" where
  "http_VoteComment cs x actx url_comment body s =
     (case ctxUserID actx of
        None \<Rightarrow> (Unauthorized ''UNAUTHORIZED'' ''authentication required'' [], s)
      | Some userID \<Rightarrow>
          if userID = [] then (Unauthorized ''UNAUTHORIZED'' ''authentication required'' [], s)
          else
            let commentID = trim_space url_comment
            in if commentID = [] then (BadRequest ''MISSING_ID'' ''comment_id is required'' [] None, s)
               else
                 (case body of
                    None \<Rightarrow> (BadRequest ''INVALID_JSON'' ''invalid JSON'' [] None, s)
                  | Some vote \<Rightarrow>
                      if vote \<noteq> 1 \<and> vote \<noteq> -1
                      then (BadRequest ''INVALID_VOTE'' ''vote must be 1 or -1'' [] None, s)
                      else
                        (case Vote cs x commentID userID vote s of
                           (Inl ErrNotFoundOrForbidden, s) \<Rightarrow> (NotFound ''NOT_FOUND'' ''comment not found'' [], s)
                         | (Inl e, s) \<Rightarrow> (Internal [], s)
                         | (Inr _, s) \<Rightarrow> (WriteHeader 204, s))))"

definition http_UpdateComment ::
  "'s comment_store \<Rightarrow> ctx \<Rightarrow> auth_ctx \<Rightarrow> string \<Rightarrow> string option \<Rightarrow> 's \<Rightarrow> social_json response \<times> 's" where
  "http_UpdateComment cs x actx url_comment body s =
     (case ctxUserID actx of
        None \<Rightarrow> (Unauthorized ''UNAUTHORIZED'' ''authentication required'' [], s)
      | Some userID \<Rightarrow>
          if userID = [] then (Unauthorized ''UNAUTHORIZED'' ''authentication required'' [], s)
          else
            let commentID = trim_space url_comment
            in if commentID = [] then (BadRequest ''MISSING_ID'' ''comment_id is required'' [] None, s)
               else
                 (case body of
                    None \<Rightarrow> (BadRequest ''INVALID_JSON'' ''invalid JSON'' [] None, s)
                  | Some b \<Rightarrow>
                      if trim_space b = []
                      then (BadRequest ''EMPTY_BODY'' ''body must not be empty'' [] None, s)
                      else
                        (case UpdateBody cs x commentID userID b s of
                           (Inl ErrNotFoundOrForbidden, s) \<Rightarrow> (Forbidden ''FORBIDDEN'' ''not found or not the author'' [], s)
                         | (Inl e, s) \<Rightarrow> (Internal [], s)
                         | (Inr _, s) \<Rightarrow> (WriteHeader 204, s))))"

definition http_DeleteComment ::
  "'s comment_store \<Rightarrow> ctx \<Rightarrow> auth_ctx \<Rightarrow> string \<Rightarrow> 's \<Rightarrow> social_json response \<times> 's" where
  "http_DeleteComment cs x actx url_comment s =
     (case ctxUserID actx of
        None \<Rightarrow> (Unauthorized ''UNAUTHORIZED'' ''authentication required'' [], s)
      | Some userID \<Rightarrow>
          if userID = [] then (Unauthorized ''UNAUTHORIZED'' ''authentication required'' [], s)
          else
            let commentID = trim_space url_comment
            in if commentID = [] then (BadRequest ''MISSING_ID'' ''comment_id is required'' [] None, s)
               else
                 (case SoftDelete cs x commentID userID s of
                    (Inl ErrNotFoundOrForbidden, s) \<Rightarrow> (Forbidden ''FORBIDDEN'' ''not found or not the author'' [], s)
                  | (Inl e, s) \<Rightarrow> (Internal [], s)
                  | (Inr _, s) \<Rightarrow> (WriteHeader 204, s)))"

record rate_request =
  rqUserID :: string
  rqScore :: int

definition http_GetRatings ::
  "'r rating_store \<Rightarrow> (nat \<Rightarrow> ctx) \<Rightarrow> string \<Rightarrow> string \<Rightarrow> 'r \<Rightarrow> social_json response" where
  "http_GetRatings rs xs url_anime q_user r =
     (let animeID = trim_space url_anime
      in if animeID = [] then BadRequest ''MISSING_ID'' ''anime_id is required'' [] None
         else
           (case GetSummary rs (xs 0) animeID r of
              Inl e \<Rightarrow> Internal []
            | Inr summary \<Rightarrow>
                let uid = trim_space q_user
                in if uid \<noteq> [] then
                     (case GetUserRating rs (xs 1) animeID uid r of
                        Inr (score, True) \<Rightarrow> WriteJSON 200 (JSummary summary (Some score))
                      | _ \<Rightarrow> WriteJSON 200 (JSummary summary None))
                   else WriteJSON 200 (JSummary summary None)))"

definition http_PostRating ::
  "'r rating_store \<Rightarrow> (nat \<Rightarrow> ctx) \<Rightarrow> string \<Rightarrow> rate_request option \<Rightarrow> 'r \<Rightarrow> social_json response \<times> 'r" where
  "http_PostRating rs xs url_anime body r =
     (let animeID = trim_space url_anime
      in if animeID = [] then (BadRequest ''MISSING_ID'' ''anime_id is required'' [] None, r)
         else
           (case body of
              None \<Rightarrow> (BadRequest ''INVALID_JSON'' ''Invalid JSON'' [] None, r)
            | Some req \<Rightarrow>
                if trim_space (rqUserID req) = []
                then (BadRequest ''MISSING_USER_ID'' ''user_id is required'' [] None, r)
                else if rqScore req < 1 \<or> 10 < rqScore req
                then (BadRequest ''INVALID_SCORE'' ''score must be between 1 and 10'' [] None, r)
                else
                  (case Upsert rs (xs 0) animeID (rqUserID req) (rqScore req) r of
                     (Inl e, r) \<Rightarrow> (Internal [], r)
                   | (Inr _, r) \<Rightarrow>
                       (case GetSummary rs (xs 1) animeID r of
                          Inl e \<Rightarrow> (Internal [], r)
                        | Inr summary \<Rightarrow> (WriteJSON 200 (JSummary summary None), r)))))"

section \<open>The two surfaces agree\<close>

text \<open>The HTTP status the gRPC answer of a write corresponds to.\<close>

definition write_status :: "grpc_status + 'a \<Rightarrow> nat" where
  "write_status r =
     (case r of
        Inr _ \<Rightarrow> 204
      | Inl st \<Rightarrow>
          (case stCode st of
             InvalidArgument \<Rightarrow> 400 | Unauthenticated \<Rightarrow> 401 | PermissionDenied \<Rightarrow> 403 | NotFoundCode \<Rightarrow> 404
           | _ \<Rightarrow> 500))"

definition md_of :: "string \<Rightarrow> metadata" where
  "md_of u = Some (\<lambda>k. if k = ''user_id'' then [u] else [])"

lemma userIDFromMD_md_of: "trim_space u = u \<Longrightarrow> u \<noteq> [] \<Longrightarrow> userIDFromMD (md_of u) = Inr u"
  by (simp add: userIDFromMD_def md_of_def)

lemmas write_defs = http_VoteComment_def http_UpdateComment_def http_DeleteComment_def
  VoteComment_def UpdateComment_def DeleteComment_def write_status_def status_Error_def api_defs Let_def



end
