(* ===== verification/Social_Consumer.thy ===== *)
theory Social_Consumer
  imports Social_Stores
begin

text \<open>
  The batch consumer of comment events (services/social/internal/worker/comments_consumer.go). One
  iteration of its loop takes the messages of a fetch, works through them in one transaction and then
  commits and acknowledges, or rolls back and negatively acknowledges, all of them. The code has a
  second path for a database without the table \<open>processed_events\<close>, which it recognises by
  the error text; it is modelled too. JSON decoding and the database's reading of timestamp
  text are parameters. A statement that fails inside a transaction aborts it; \<open>pool.Begin\<close> that fails
  gives a nil transaction, and a method call on it panics.
\<close>

section \<open>Events\<close>

record create_event =
  ceEventID :: string
  ceUserID :: string
  ceAnimeID :: string
  ceParentID :: "string option"
  ceBody :: string
  ceCreatedAt :: string

record update_event =
  ueEventID :: string
  ueUserID :: string
  ueCommentID :: string
  ueBody :: string
  ueCreatedAt :: string

record delete_event =
  deEventID :: string
  deUserID :: string
  deCommentID :: string
  deCreatedAt :: string

record vote_event =
  veEventID :: string
  veUserID :: string
  veCommentID :: string
  veVote :: i32
  veCreatedAt :: string

record msg =
  mSubject :: string
  mData :: string

record consumer_env =
  uuidOf :: "string \<Rightarrow> uuid option"
  tsValid :: "string \<Rightarrow> bool"
  decCreate :: "string \<Rightarrow> create_event option"
  decUpdate :: "string \<Rightarrow> update_event option"
  decDelete :: "string \<Rightarrow> delete_event option"
  decVote :: "string \<Rightarrow> vote_event option"

section \<open>The database the consumer sees\<close>

text \<open>\<open>dProcessed\<close> is the key column of \<open>processed_events\<close>, \<open>None\<close> when that table does not exist.\<close>

record consumer_db =
  dTables :: pg_comments
  dProcessed :: "string list option"

datatype stmt = Done consumer_db | Skip | Failed | Missing

text \<open>\<open>INSERT INTO processed_events ... ON CONFLICT (event_id) DO NOTHING\<close>: \<open>Skip\<close> is no row affected.\<close>

definition mark_processed :: "consumer_env \<Rightarrow> ctx \<Rightarrow> string \<Rightarrow> string \<Rightarrow> consumer_db \<Rightarrow> stmt" where
  "mark_processed P x eventID createdAt w =
     (case dProcessed w of
        None \<Rightarrow> Missing
      | Some ids \<Rightarrow>
          if fault x 0 \<or> \<not> tsValid P createdAt then Failed
          else if eventID \<in> set ids then Skip
          else Done (w\<lparr>dProcessed := Some (ids @ [eventID])\<rparr>))"

definition event_comment :: "create_event \<Rightarrow> comment" where
  "event_comment ev = \<lparr>cID = [], cAnimeID = ceAnimeID ev, cUserID = ceUserID ev, cParentID = ceParentID ev,
     cBody = ceBody ev, cScore = 0, cCreatedAt = 0, cUpdatedAt = None, cDeletedAt = None\<rparr>"

text \<open>
  The statements on the tables. \<open>Exec\<close> of an \<open>UPDATE\<close> that matches no row is no error.
\<close>

definition exec_insert :: "consumer_env \<Rightarrow> ctx \<Rightarrow> create_event \<Rightarrow> consumer_db \<Rightarrow> consumer_db option" where
  "exec_insert P x ev w =
     (case pg_create (uuidOf P) x (event_comment ev) (dTables w) of
        (Inl e, _) \<Rightarrow> None
      | (Inr _, t) \<Rightarrow> Some (w\<lparr>dTables := t\<rparr>))"

definition exec_update :: "consumer_env \<Rightarrow> ctx \<Rightarrow> update_event \<Rightarrow> consumer_db \<Rightarrow> consumer_db option" where
  "exec_update P x ev w =
     (case pg_update_body (uuidOf P) x (ueCommentID ev) (ueUserID ev) (ueBody ev) (dTables w) of
        (Inl ErrNotFoundOrForbidden, t) \<Rightarrow> Some (w\<lparr>dTables := t\<rparr>)
      | (Inl e, _) \<Rightarrow> None
      | (Inr _, t) \<Rightarrow> Some (w\<lparr>dTables := t\<rparr>))"

definition exec_delete :: "consumer_env \<Rightarrow> ctx \<Rightarrow> delete_event \<Rightarrow> consumer_db \<Rightarrow> consumer_db option" where
  "exec_delete P x ev w =
     (case pg_soft_delete (uuidOf P) x (deCommentID ev) (deUserID ev) (dTables w) of
        (Inl ErrNotFoundOrForbidden, t) \<Rightarrow> Some (w\<lparr>dTables := t\<rparr>)
      | (Inl e, _) \<Rightarrow> None
      | (Inr _, t) \<Rightarrow> Some (w\<lparr>dTables := t\<rparr>))"

text \<open>
  The read and the two writes of a vote, statements 0 to 2: the \<open>SMALLINT\<close> parameter takes the 32-bit value
  as it is, the score moves by the 16-bit difference.
\<close>

definition exec_vote_write :: "ctx \<Rightarrow> uuid \<Rightarrow> vote_event \<Rightarrow> pg_comments \<Rightarrow> pg_comments option" where
  "exec_vote_write x k ev s =
     (if fault x 0 then None
      else
        let vote = sint (veVote ev);
            old = row_by vote_key (k, veUserID ev) (pVotes s);
            delta = (case old of None \<Rightarrow> (ucast (veVote ev) :: i16) | Some r \<Rightarrow> ucast (veVote ev) - vVote r);
            votes =
              (case old of
                 None \<Rightarrow> pVotes s @ [\<lparr>vComment = k, vUser = veUserID ev, vVote = word_of_int vote\<rparr>]
               | Some r \<Rightarrow> fst (sql_update (\<lambda>r. vote_key r = (k, veUserID ev)) (\<lambda>r. r\<lparr>vVote := word_of_int vote\<rparr>) (pVotes s)));
            rows = fst (sql_update (\<lambda>c. cID c = k) (\<lambda>c. c\<lparr>cScore := cScore c + sint delta\<rparr>) (pComments s))
        in if fault x 1 \<or> vote \<noteq> 1 \<and> vote \<noteq> -1 then None
           else if delta \<noteq> 0 \<and> (fault x 2 \<or> (\<exists>c \<in> set rows. \<not> in_int32 (cScore c))) then None
           else Some (s\<lparr>pVotes := votes, pComments := (if delta \<noteq> 0 then rows else pComments s)\<rparr>))"

definition exec_vote :: "consumer_env \<Rightarrow> ctx \<Rightarrow> vote_event \<Rightarrow> consumer_db \<Rightarrow> consumer_db option" where
  "exec_vote P x ev w =
     (case uuidOf P (veCommentID ev) of
        None \<Rightarrow> None
      | Some k \<Rightarrow>
          if fault x 0 then None
          else if k \<notin> cID ` set (pComments (dTables w)) then Some w
          else map_option (\<lambda>t. w\<lparr>dTables := t\<rparr>) (exec_vote_write (stmt_ctx x 1) k ev (dTables w)))"

section \<open>One message in the transaction\<close>

text \<open>\<open>then_exec\<close> is the shape shared by the four cases: the marker first, the statements only for a new event.\<close>

definition then_exec :: "stmt \<Rightarrow> (consumer_db \<Rightarrow> consumer_db option) \<Rightarrow> stmt" where
  "then_exec r f = (case r of Done w \<Rightarrow> (case f w of None \<Rightarrow> Failed | Some w' \<Rightarrow> Done w') | _ \<Rightarrow> r)"

definition tx_create :: "consumer_env \<Rightarrow> ctx \<Rightarrow> create_event \<Rightarrow> consumer_db \<Rightarrow> stmt" where
  "tx_create P x ev w =
     then_exec (mark_processed P x (ceEventID ev) (ceCreatedAt ev) w) (exec_insert P (stmt_ctx x 1) ev)"

definition tx_update :: "consumer_env \<Rightarrow> ctx \<Rightarrow> update_event \<Rightarrow> consumer_db \<Rightarrow> stmt" where
  "tx_update P x ev w =
     then_exec (mark_processed P x (ueEventID ev) (ueCreatedAt ev) w) (exec_update P (stmt_ctx x 1) ev)"

definition tx_delete :: "consumer_env \<Rightarrow> ctx \<Rightarrow> delete_event \<Rightarrow> consumer_db \<Rightarrow> stmt" where
  "tx_delete P x ev w =
     then_exec (mark_processed P x (deEventID ev) (deCreatedAt ev) w) (exec_delete P (stmt_ctx x 1) ev)"

definition tx_vote :: "consumer_env \<Rightarrow> ctx \<Rightarrow> vote_event \<Rightarrow> consumer_db \<Rightarrow> stmt" where
  "tx_vote P x ev w =
     then_exec (mark_processed P x (veEventID ev) (veCreatedAt ev) w) (exec_vote P (stmt_ctx x 1) ev)"

section \<open>The path without processed\_events\<close>

text \<open>
  \<open>handleCreate\<close> begins a transaction of its own. Its first statement fails when the table is missing, and the
  \<open>INSERT\<close> it then sends goes to the transaction that failure aborted, so that call returns an error.
\<close>

definition handleCreate :: "consumer_env \<Rightarrow> ctx \<Rightarrow> create_event \<Rightarrow> consumer_db \<Rightarrow> bool \<times> consumer_db" where
  "handleCreate P x ev db =
     (if fault x 0 then (False, db)
      else
        (case mark_processed P (stmt_ctx x 1) (ceEventID ev) (ceCreatedAt ev) db of
           Missing \<Rightarrow> (False, db)
         | Failed \<Rightarrow> (False, db)
         | Skip \<Rightarrow> (True, db)
         | Done w \<Rightarrow>
             (case exec_insert P (stmt_ctx x 2) ev w of
                None \<Rightarrow> (False, db)
              | Some w' \<Rightarrow> if fault x 3 then (False, db) else (True, w'))))"

text \<open>
  The vote of that path: the existence check on the pool, then a transaction of its own. \<open>None\<close> is a failure;
  the message is acknowledged at once otherwise.
\<close>

definition fallback_vote :: "consumer_env \<Rightarrow> ctx \<Rightarrow> vote_event \<Rightarrow> consumer_db \<Rightarrow> consumer_db option" where
  "fallback_vote P x ev db =
     (case uuidOf P (veCommentID ev) of
        None \<Rightarrow> None
      | Some k \<Rightarrow>
          if fault x 0 then None
          else if k \<notin> cID ` set (pComments (dTables db)) then Some db
          else if fault x 1 then None
          else
            (case exec_vote_write (stmt_ctx x 2) k ev (dTables db) of
               None \<Rightarrow> None
             | Some t \<Rightarrow> if fault x 5 then None else Some (db\<lparr>dTables := t\<rparr>)))"

section \<open>The batch\<close>

datatype tx = OpenTx consumer_db | DeadTx | NilTx

record batch =
  bDb :: consumer_db
  bTx :: tx
  bFailed :: bool
  bEarlyAcks :: "msg list"
  bPanic :: bool

text \<open>After the fallback of a message: begin a new transaction (statement 9) and go on.\<close>

definition rebegin :: "ctx \<Rightarrow> batch \<Rightarrow> batch" where
  "rebegin x b = (if fault x 9 then b\<lparr>bTx := NilTx, bFailed := True\<rparr> else b\<lparr>bTx := OpenTx (bDb b)\<rparr>)"

text \<open>
  The fallback of create, update and delete: an error sets the flag, the message is acknowledged unless the flag
  is set (by this or an earlier message), then a new transaction is begun.
\<close>

definition fallback :: "ctx \<Rightarrow> msg \<Rightarrow> bool \<times> consumer_db \<Rightarrow> batch \<Rightarrow> batch" where
  "fallback x m r b =
     (let b = b\<lparr>bDb := snd r, bFailed := bFailed b \<or> \<not> fst r\<rparr>;
          b = (if bFailed b then b else b\<lparr>bEarlyAcks := bEarlyAcks b @ [m]\<rparr>)
      in rebegin x b)"

definition pool_exec :: "(consumer_db \<Rightarrow> consumer_db option) \<Rightarrow> consumer_db \<Rightarrow> bool \<times> consumer_db" where
  "pool_exec f db = (case f db of None \<Rightarrow> (False, db) | Some db' \<Rightarrow> (True, db'))"

text \<open>
  One message: \<open>run\<close> is its case on the open transaction, \<open>fb\<close> its fallback. A \<open>break\<close> in the
  Go code leaves the \<open>switch\<close> only, so the loop goes on to the next message in every case.
\<close>

definition on_tx :: "(consumer_db \<Rightarrow> stmt) \<Rightarrow> (batch \<Rightarrow> batch) \<Rightarrow> batch \<Rightarrow> batch" where
  "on_tx run fb b =
     (case bTx b of
        NilTx \<Rightarrow> b\<lparr>bPanic := True\<rparr>
      | DeadTx \<Rightarrow> b\<lparr>bFailed := True\<rparr>
      | OpenTx w \<Rightarrow>
          (case run w of
             Done w' \<Rightarrow> b\<lparr>bTx := OpenTx w'\<rparr>
           | Skip \<Rightarrow> b
           | Failed \<Rightarrow> b\<lparr>bTx := DeadTx, bFailed := True\<rparr>
           | Missing \<Rightarrow> fb b))"

definition consume_msg :: "consumer_env \<Rightarrow> ctx \<Rightarrow> msg \<Rightarrow> batch \<Rightarrow> batch" where
  "consume_msg P x m b =
     (let action = trim_prefix (mSubject m) ''social.comments.''
      in if bPanic b then b
         else if action = ''create'' then
           (case decCreate P (mData m) of
              None \<Rightarrow> b\<lparr>bFailed := True\<rparr>
            | Some ev \<Rightarrow> on_tx (tx_create P x ev) (\<lambda>b. fallback x m (handleCreate P (stmt_ctx x 1) ev (bDb b)) b) b)
         else if action = ''update'' then
           (case decUpdate P (mData m) of
              None \<Rightarrow> b\<lparr>bFailed := True\<rparr>
            | Some ev \<Rightarrow> on_tx (tx_update P x ev) (\<lambda>b. fallback x m (pool_exec (exec_update P (stmt_ctx x 1) ev) (bDb b)) b) b)
         else if action = ''delete'' then
           (case decDelete P (mData m) of
              None \<Rightarrow> b\<lparr>bFailed := True\<rparr>
            | Some ev \<Rightarrow> on_tx (tx_delete P x ev) (\<lambda>b. fallback x m (pool_exec (exec_delete P (stmt_ctx x 1) ev) (bDb b)) b) b)
         else if action = ''vote'' then
           (case decVote P (mData m) of
              None \<Rightarrow> b\<lparr>bFailed := True\<rparr>
            | Some ev \<Rightarrow> on_tx (tx_vote P x ev)
                (\<lambda>b. case fallback_vote P (stmt_ctx x 1) ev (bDb b) of
                       None \<Rightarrow> b\<lparr>bTx := DeadTx, bFailed := True\<rparr>
                     | Some db \<Rightarrow> rebegin x (b\<lparr>bDb := db, bEarlyAcks := bEarlyAcks b @ [m]\<rparr>)) b)
         else b\<lparr>bFailed := True\<rparr>)"

text \<open>
  What the iteration ends with: the database, and for the messages all acknowledged, all
  negatively acknowledged (some possibly acknowledged before), or a panic of the goroutine.
\<close>

datatype verdict = AckAll | NakAll | Panic

definition finish_batch :: "ctx \<Rightarrow> batch \<Rightarrow> verdict \<times> consumer_db" where
  "finish_batch y b =
     (if bPanic b then (Panic, bDb b)
      else if bFailed b then (case bTx b of NilTx \<Rightarrow> (Panic, bDb b) | _ \<Rightarrow> (NakAll, bDb b))
      else
        (case bTx b of
           OpenTx w \<Rightarrow> if fault y 1 then (NakAll, bDb b) else (AckAll, w)
         | DeadTx \<Rightarrow> (NakAll, bDb b)
         | NilTx \<Rightarrow> (Panic, bDb b)))"

definition consume_batch ::
  "consumer_env \<Rightarrow> ctx \<Rightarrow> (nat \<Rightarrow> ctx) \<Rightarrow> msg list \<Rightarrow> consumer_db \<Rightarrow> verdict \<times> consumer_db" where
  "consume_batch P y xs msgs db =
     (if fault y 0 then (NakAll, db)
      else finish_batch y (fold (\<lambda>(i, m). consume_msg P (xs i) m) (enumerate 0 msgs)
             \<lparr>bDb = db, bTx = OpenTx db, bFailed = False, bEarlyAcks = [], bPanic = False\<rparr>))"

section \<open>Specification: the messages one after the other, all or none\<close>

definition tx_msg :: "consumer_env \<Rightarrow> ctx \<Rightarrow> msg \<Rightarrow> consumer_db \<Rightarrow> stmt" where
  "tx_msg P x m w =
     (let action = trim_prefix (mSubject m) ''social.comments.''
      in if action = ''create'' then (case decCreate P (mData m) of None \<Rightarrow> Failed | Some ev \<Rightarrow> tx_create P x ev w)
         else if action = ''update'' then (case decUpdate P (mData m) of None \<Rightarrow> Failed | Some ev \<Rightarrow> tx_update P x ev w)
         else if action = ''delete'' then (case decDelete P (mData m) of None \<Rightarrow> Failed | Some ev \<Rightarrow> tx_delete P x ev w)
         else if action = ''vote'' then (case decVote P (mData m) of None \<Rightarrow> Failed | Some ev \<Rightarrow> tx_vote P x ev w)
         else Failed)"

fun apply_all :: "consumer_env \<Rightarrow> (nat \<times> msg) list \<Rightarrow> (nat \<Rightarrow> ctx) \<Rightarrow> consumer_db \<Rightarrow> consumer_db option" where
  "apply_all P [] xs w = Some w"
| "apply_all P ((i, m) # ms) xs w =
     (case tx_msg P (xs i) m w of
        Done w' \<Rightarrow> apply_all P ms xs w'
      | Skip \<Rightarrow> apply_all P ms xs w
      | _ \<Rightarrow> None)"

lemma mark_cases:
  assumes "dProcessed w = Some ids"
  shows "mark_processed P x e t w = Failed \<or> mark_processed P x e t w = Skip \<and> e \<in> set ids \<or>
    mark_processed P x e t w = Done (w\<lparr>dProcessed := Some (ids @ [e])\<rparr>) \<and> e \<notin> set ids"
  using assms by (auto simp: mark_processed_def)

lemma exec_processed:
  "exec_insert P x cev w = Some w' \<Longrightarrow> dProcessed w' = dProcessed w"
  "exec_update P x uev w = Some w' \<Longrightarrow> dProcessed w' = dProcessed w"
  "exec_delete P x dev w = Some w' \<Longrightarrow> dProcessed w' = dProcessed w"
  "exec_vote P x vev w = Some w' \<Longrightarrow> dProcessed w' = dProcessed w"
  by (auto simp: exec_insert_def exec_update_def exec_delete_def exec_vote_def
      split: prod.splits sum.splits store_error.splits option.splits if_splits)

text \<open>The event identifier of a message, when it decodes.\<close>

definition event_id :: "consumer_env \<Rightarrow> msg \<Rightarrow> string option" where
  "event_id P m =
     (let action = trim_prefix (mSubject m) ''social.comments.''
      in if action = ''create'' then map_option ceEventID (decCreate P (mData m))
         else if action = ''update'' then map_option ueEventID (decUpdate P (mData m))
         else if action = ''delete'' then map_option deEventID (decDelete P (mData m))
         else if action = ''vote'' then map_option veEventID (decVote P (mData m))
         else None)"

lemma then_exec_cases:
  assumes "dProcessed w = Some ids" "\<And>w0 w'. f w0 = Some w' \<Longrightarrow> dProcessed w' = dProcessed w0"
    and "r = then_exec (mark_processed P x e t w) f"
  shows "r = Failed \<or> r = Skip \<and> e \<in> set ids \<or>
    (\<exists>w'. r = Done w' \<and> e \<notin> set ids \<and> dProcessed w' = Some (ids @ [e]))"
  using mark_cases [OF assms(1), of P x e t]
proof (elim disjE conjE)
  let ?w = "w\<lparr>dProcessed := Some (ids @ [e])\<rparr>"
  assume m: "mark_processed P x e t w = Done ?w" "e \<notin> set ids"
  show ?thesis
  proof (cases "f ?w")
    case (Some w')
    have "dProcessed w' = Some (ids @ [e])" using assms(2) [OF Some] by simp
    with Some m assms(3) show ?thesis by (simp add: then_exec_def)
  qed (simp add: m assms(3) then_exec_def)
qed (simp_all add: assms(3) then_exec_def)

text \<open>The five kinds of message.\<close>

lemma msg_cases [case_names create update delete vote bad]:
  obtains ev where "trim_prefix (mSubject m) ''social.comments.'' = ''create''" "decCreate P (mData m) = Some ev"
  | ev where "trim_prefix (mSubject m) ''social.comments.'' = ''update''" "decUpdate P (mData m) = Some ev"
  | ev where "trim_prefix (mSubject m) ''social.comments.'' = ''delete''" "decDelete P (mData m) = Some ev"
  | ev where "trim_prefix (mSubject m) ''social.comments.'' = ''vote''" "decVote P (mData m) = Some ev"
  | "event_id P m = None"
proof -
  have "event_id P m = None \<or> (\<exists>ev. trim_prefix (mSubject m) ''social.comments.'' = ''create'' \<and> decCreate P (mData m) = Some ev) \<or>
      (\<exists>ev. trim_prefix (mSubject m) ''social.comments.'' = ''update'' \<and> decUpdate P (mData m) = Some ev) \<or>
      (\<exists>ev. trim_prefix (mSubject m) ''social.comments.'' = ''delete'' \<and> decDelete P (mData m) = Some ev) \<or>
      (\<exists>ev. trim_prefix (mSubject m) ''social.comments.'' = ''vote'' \<and> decVote P (mData m) = Some ev)"
    unfolding event_id_def Let_def by auto
  then show thesis using that by blast
qed

text \<open>A message that does not decode, or whose subject has no handler.\<close>

lemma bad_msg:
  assumes "event_id P m = None"
  shows "tx_msg P x m w = Failed" "\<not> bPanic b \<Longrightarrow> consume_msg P x m b = b\<lparr>bFailed := True\<rparr>"
  using assms by (simp_all add: event_id_def tx_msg_def consume_msg_def Let_def split: if_splits)

lemma tx_msg_cases:
  assumes "dProcessed w = Some ids"
  shows "tx_msg P x m w = Failed \<or> (\<exists>e. tx_msg P x m w = Skip \<and> event_id P m = Some e \<and> e \<in> set ids) \<or>
    (\<exists>e w'. tx_msg P x m w = Done w' \<and> event_id P m = Some e \<and> e \<notin> set ids \<and> dProcessed w' = Some (ids @ [e]))"
proof (cases rule: msg_cases [where m = m and P = P])
  case (create ev)
  with then_exec_cases [OF assms exec_processed(1) tx_create_def, of P x ev] show ?thesis
    by (simp add: tx_msg_def event_id_def)
next
  case (update ev)
  with then_exec_cases [OF assms exec_processed(2) tx_update_def, of P x ev] show ?thesis
    by (simp add: tx_msg_def event_id_def)
next
  case (delete ev)
  with then_exec_cases [OF assms exec_processed(3) tx_delete_def, of P x ev] show ?thesis
    by (simp add: tx_msg_def event_id_def)
next
  case (vote ev)
  with then_exec_cases [OF assms exec_processed(4) tx_vote_def, of P x ev] show ?thesis
    by (simp add: tx_msg_def event_id_def)
qed (simp add: bad_msg)

lemma apply_all_processed:
  assumes "dProcessed w = Some ids" "apply_all P ms xs w = Some w'"
  shows "\<exists>ids'. dProcessed w' = Some ids' \<and> set ids \<subseteq> set ids' \<and>
    (\<forall>(i, m) \<in> set ms. \<exists>e \<in> set ids'. event_id P m = Some e)"
  using assms
proof (induction ms arbitrary: w ids)
  case (Cons a ms)
  obtain i m where a: "a = (i, m)" by fastforce
  from tx_msg_cases [OF Cons.prems(1), of P "xs i" m] show ?case
  proof (elim disjE exE conjE)
    assume "tx_msg P (xs i) m w = Failed"
    with Cons.prems(2) a show ?thesis by simp
  next
    fix e assume "tx_msg P (xs i) m w = Skip" and e: "event_id P m = Some e" "e \<in> set ids"
    then have "apply_all P ms xs w = Some w'" using Cons.prems(2) a by simp
    from Cons.IH [OF Cons.prems(1) this] e a show ?thesis by auto
  next
    fix e w1 assume "tx_msg P (xs i) m w = Done w1" and e: "event_id P m = Some e" "dProcessed w1 = Some (ids @ [e])"
    then have "apply_all P ms xs w1 = Some w'" using Cons.prems(2) a by simp
    from Cons.IH [OF e(2) this] e(1) a show ?thesis by auto
  qed
qed auto

text \<open>The loop with the table present: the database is not touched and no transaction is nil.\<close>

lemma on_tx_run:
  assumes "bTx b = OpenTx w" "run w \<noteq> Missing"
  shows "on_tx run fb b = (case run w of Done w' \<Rightarrow> b\<lparr>bTx := OpenTx w'\<rparr> | Skip \<Rightarrow> b | _ \<Rightarrow> b\<lparr>bTx := DeadTx, bFailed := True\<rparr>)"
  using assms by (simp add: on_tx_def split: stmt.splits)

lemma consume_msg_run:
  assumes "\<not> bPanic b" "bTx b = OpenTx w" "dProcessed w = Some ids" "event_id P m \<noteq> None"
  shows "consume_msg P x m b =
    (case tx_msg P x m w of Done w' \<Rightarrow> b\<lparr>bTx := OpenTx w'\<rparr> | Skip \<Rightarrow> b | _ \<Rightarrow> b\<lparr>bTx := DeadTx, bFailed := True\<rparr>)"
proof -
  have nm: "tx_msg P x m w \<noteq> Missing" using tx_msg_cases [OF assms(3), of P x m] by auto
  show ?thesis
  proof (cases rule: msg_cases [where m = m and P = P])
    case (create ev)
    then have t: "tx_msg P x m w = tx_create P x ev w" by (simp add: tx_msg_def)
    show ?thesis using create assms(1) on_tx_run [OF assms(2), of "tx_create P x ev"] nm
      unfolding t by (simp add: consume_msg_def)
  next
    case (update ev)
    then have t: "tx_msg P x m w = tx_update P x ev w" by (simp add: tx_msg_def)
    show ?thesis using update assms(1) on_tx_run [OF assms(2), of "tx_update P x ev"] nm
      unfolding t by (simp add: consume_msg_def)
  next
    case (delete ev)
    then have t: "tx_msg P x m w = tx_delete P x ev w" by (simp add: tx_msg_def)
    show ?thesis using delete assms(1) on_tx_run [OF assms(2), of "tx_delete P x ev"] nm
      unfolding t by (simp add: consume_msg_def)
  next
    case (vote ev)
    then have t: "tx_msg P x m w = tx_vote P x ev w" by (simp add: tx_msg_def)
    show ?thesis using vote assms(1) on_tx_run [OF assms(2), of "tx_vote P x ev"] nm
      unfolding t by (simp add: consume_msg_def)
  qed (use assms(4) in simp)
qed

lemma consume_msg_dead:
  assumes "\<not> bPanic b" "bTx b = DeadTx"
  shows "consume_msg P x m b = b\<lparr>bFailed := True\<rparr>"
  using assms by (auto simp: consume_msg_def on_tx_def Let_def split: option.splits)

definition tx_live :: "batch \<Rightarrow> bool" where
  "tx_live b \<longleftrightarrow> \<not> bPanic b \<and> (bTx b = DeadTx \<or> (\<exists>w ids. bTx b = OpenTx w \<and> dProcessed w = Some ids))"

lemma consume_msg_failed:
  assumes "tx_live b" "bFailed b"
  shows "tx_live (consume_msg P x m b) \<and> bFailed (consume_msg P x m b) \<and> bDb (consume_msg P x m b) = bDb b"
proof (cases "bTx b = DeadTx")
  case True
  with assms consume_msg_dead [of b P x m] show ?thesis by (simp add: tx_live_def)
next
  case False
  with assms obtain w ids where w: "\<not> bPanic b" "bTx b = OpenTx w" "dProcessed w = Some ids" by (auto simp: tx_live_def)
  show ?thesis
  proof (cases "event_id P m = None")
    case True
    with bad_msg(2) [OF True w(1), of x] assms w show ?thesis by (simp add: tx_live_def)
  next
    case False
    from tx_msg_cases [OF w(3), of P x m] consume_msg_run [OF w False, of x] assms w show ?thesis
      by (elim disjE exE conjE) (simp_all add: tx_live_def)
  qed
qed

lemma fold_consume_failed:
  assumes "tx_live b" "bFailed b" "b' = fold (\<lambda>(i, m). consume_msg P (xs i) m) ms b"
  shows "tx_live b' \<and> bFailed b' \<and> bDb b' = bDb b"
  using assms
proof (induction ms arbitrary: b)
  case (Cons a ms)
  obtain i m where a: "a = (i, m)" by fastforce
  from consume_msg_failed [OF Cons.prems(1,2), of P "xs i" m] Cons.IH [of "consume_msg P (xs i) m b"] Cons.prems(3) a
  show ?case by simp
qed simp

lemma fold_consume:
  assumes "\<not> bPanic b" "bTx b = OpenTx w" "dProcessed w = Some ids" "\<not> bFailed b"
    and "b' = fold (\<lambda>(i, m). consume_msg P (xs i) m) ms b"
  shows "(case apply_all P ms xs w of
      Some w' \<Rightarrow> b' = b\<lparr>bTx := OpenTx w'\<rparr>
    | None \<Rightarrow> tx_live b' \<and> bFailed b' \<and> bDb b' = bDb b)"
  using assms
proof (induction ms arbitrary: b w ids)
  case Nil
  then show ?case by (cases b) simp
next
  case (Cons a ms)
  obtain i m where a: "a = (i, m)" by fastforce
  note run = consume_msg_run [OF Cons.prems(1,2,3), of P m "xs i"]
  have b': "b' = fold (\<lambda>(i, m). consume_msg P (xs i) m) ms (consume_msg P (xs i) m b)"
    using Cons.prems(5) a by simp
  from tx_msg_cases [OF Cons.prems(3), of P "xs i" m] show ?case
  proof (elim disjE exE conjE)
    assume f: "tx_msg P (xs i) m w = Failed"
    have "tx_live (consume_msg P (xs i) m b)" "bFailed (consume_msg P (xs i) m b)" "bDb (consume_msg P (xs i) m b) = bDb b"
      using f Cons.prems run bad_msg(2) [of P m b "xs i"] by (cases "event_id P m = None"; simp add: tx_live_def)+
    from fold_consume_failed [OF this(1,2) b'] this(3) f a show ?thesis by simp
  next
    fix e assume f: "tx_msg P (xs i) m w = Skip" "event_id P m = Some e"
    with Cons.IH [OF Cons.prems(1-4)] b' run a show ?thesis by simp
  next
    fix e w1 assume f: "tx_msg P (xs i) m w = Done w1" "dProcessed w1 = Some (ids @ [e])" "event_id P m = Some e"
    from Cons.IH [of "b\<lparr>bTx := OpenTx w1\<rparr>" w1, OF _ _ f(2)] b' run f a Cons.prems(1,4)
    show ?thesis by (simp split: option.splits)
  qed
qed

section \<open>Properties\<close>

lemma consume_batch_apply:
  assumes "dProcessed db = Some ids"
  shows "consume_batch P y xs msgs db =
    (if fault y 0 then (NakAll, db)
     else (case apply_all P (enumerate 0 msgs) xs db of
             None \<Rightarrow> (NakAll, db)
           | Some w \<Rightarrow> if fault y 1 then (NakAll, db) else (AckAll, w)))"
proof -
  let ?b = "\<lparr>bDb = db, bTx = OpenTx db, bFailed = False, bEarlyAcks = [], bPanic = False\<rparr>"
  have "case apply_all P (enumerate 0 msgs) xs db of
      Some w' \<Rightarrow> fold (\<lambda>(i, m). consume_msg P (xs i) m) (enumerate 0 msgs) ?b = ?b\<lparr>bTx := OpenTx w'\<rparr>
    | None \<Rightarrow> tx_live (fold (\<lambda>(i, m). consume_msg P (xs i) m) (enumerate 0 msgs) ?b) \<and>
        bFailed (fold (\<lambda>(i, m). consume_msg P (xs i) m) (enumerate 0 msgs) ?b) \<and>
        bDb (fold (\<lambda>(i, m). consume_msg P (xs i) m) (enumerate 0 msgs) ?b) = bDb ?b"
    by (rule fold_consume [OF _ _ assms _ refl]) simp_all
  then show ?thesis
    by (auto simp: consume_batch_def finish_batch_def tx_live_def split: option.splits)
qed

text \<open>
  C17. A batch is all or nothing: the consumer either negatively acknowledges every message and leaves the
  database as it was, or acknowledges every message, and then the database is the one reached by applying the
  messages one after the other. It never panics while the table of processed events is there.
\<close>

theorem consume_batch_atomic:
  assumes "dProcessed db = Some ids"
  shows "consume_batch P y xs msgs db = (NakAll, db) \<or>
    (\<exists>w. apply_all P (enumerate 0 msgs) xs db = Some w \<and> consume_batch P y xs msgs db = (AckAll, w))"
  using consume_batch_apply [OF assms, of P y xs msgs] by (auto split: option.splits)

definition demo_env :: consumer_env where
  "demo_env = \<lparr>uuidOf = Some, tsValid = (\<lambda>_. True), decCreate = (\<lambda>_. None), decUpdate = (\<lambda>_. None),
     decDelete = (\<lambda>_. None), decVote = (\<lambda>d. if d = ''v'' then Some \<lparr>veEventID = ''e1'', veUserID = ''u9'',
       veCommentID = ''c2'', veVote = 1, veCreatedAt = []\<rparr> else None)\<rparr>"

definition demo_msg :: msg where
  "demo_msg = \<lparr>mSubject = ''social.comments.vote'', mData = ''v''\<rparr>"

definition demo_db :: consumer_db where
  "demo_db = \<lparr>dTables = pg_demo, dProcessed = Some []\<rparr>"

lemma demo_batch:
  "\<exists>w. consume_batch demo_env (calm 0 []) (\<lambda>_. calm 0 []) [demo_msg] demo_db = (AckAll, w) \<and> dProcessed w = Some [''e1'']"
proof -
  have p: "dProcessed demo_db = Some []" by (simp add: demo_db_def)
  show ?thesis unfolding consume_batch_apply [OF p]
    by (simp add: demo_db_def tx_msg_def demo_msg_def trim_prefix_def has_prefix_def
      demo_env_def tx_vote_def then_exec_def mark_processed_def exec_vote_def exec_vote_write_def stmt_ctx_def
      pg_demo_eq vote_key_def sql_update_def in_int32_def Let_def calm_def)
qed

theorem consume_batch_atomic_witness:
  "\<exists>w. apply_all demo_env [(0, demo_msg)] (\<lambda>_. calm 0 []) demo_db = Some w \<and>
     consume_batch demo_env (calm 0 []) (\<lambda>_. calm 0 []) [demo_msg] demo_db = (AckAll, w)"
proof -
  have "dProcessed demo_db = Some []" by (simp add: demo_db_def)
  from consume_batch_atomic [OF this, of demo_env "calm 0 []" "\<lambda>_. calm 0 []" "[demo_msg]"] demo_batch
  show ?thesis by auto
qed

lemma apply_all_seen:
  assumes "dProcessed w = Some ids" "\<forall>(i, m) \<in> set ms. \<exists>e \<in> set ids. event_id P m = Some e"
    and "apply_all P ms xs w = Some w'"
  shows "w' = w"
  using assms(2,3)
proof (induction ms)
  case (Cons a ms)
  obtain i m where a: "a = (i, m)" by fastforce
  with Cons.prems obtain e where "event_id P m = Some e" "e \<in> set ids" by auto
  with tx_msg_cases [OF assms(1), of P "xs i" m] Cons a show ?case by auto
qed simp

text \<open>
  Every event takes effect once: after a batch was acknowledged, any later batch made of its messages, in any
  order and number and with any faults, leaves the database unchanged, however often the broker redelivers them.
\<close>

theorem consume_batch_once:
  assumes "dProcessed db = Some ids" "consume_batch P y xs msgs db = (AckAll, db')" "set msgs' \<subseteq> set msgs"
  shows "snd (consume_batch P y' xs' msgs' db') = db'"
proof -
  have a: "apply_all P (enumerate 0 msgs) xs db = Some db'"
    using assms(2) consume_batch_apply [OF assms(1), of P y xs msgs] by (auto split: option.splits if_splits)
  from apply_all_processed [OF assms(1) a] obtain ids' where
    i: "dProcessed db' = Some ids'" "\<forall>(i, m) \<in> set (enumerate 0 msgs). \<exists>e \<in> set ids'. event_id P m = Some e" by blast
  have "\<exists>e \<in> set ids'. event_id P m = Some e" if "m \<in> set msgs'" for m
  proof -
    from that assms(3) obtain j where "(j, m) \<in> set (enumerate 0 msgs)"
      by (metis in_set_impl_in_set_zip2 length_enumerate map_snd_enumerate enumerate_eq_zip length_upt diff_zero add_0 subsetD)
    with i(2) show ?thesis by auto
  qed
  then have "\<forall>(i, m) \<in> set (enumerate 0 msgs'). \<exists>e \<in> set ids'. event_id P m = Some e"
    by (auto dest!: in_set_enumerate_eq [THEN iffD1])
  then have "apply_all P (enumerate 0 msgs') xs' db' \<in> {None, Some db'}"
    using apply_all_seen [OF i(1)] by (cases "apply_all P (enumerate 0 msgs') xs' db'") auto
  then show ?thesis using consume_batch_apply [OF i(1), of P y' xs' msgs'] by (auto split: option.splits)
qed

theorem consume_batch_once_witness:
  "\<exists>w. consume_batch demo_env (calm 0 []) (\<lambda>_. calm 0 []) [demo_msg] demo_db = (AckAll, w) \<and>
     snd (consume_batch demo_env (calm 0 []) (\<lambda>_. calm 0 []) [demo_msg, demo_msg] w) = w"
proof -
  obtain w where w: "consume_batch demo_env (calm 0 []) (\<lambda>_. calm 0 []) [demo_msg] demo_db = (AckAll, w)"
    using demo_batch by blast
  have "dProcessed demo_db = Some []" by (simp add: demo_db_def)
  from consume_batch_once [OF this w, of "[demo_msg, demo_msg]"] w show ?thesis by auto
qed

text \<open>
  One message that does not decode, or whose subject has no handler, holds back its whole batch: nothing of the
  batch is applied and all of it is negatively acknowledged, so it comes back with the same result every time.
\<close>

theorem poison_message_blocks_batch:
  assumes "dProcessed db = Some ids" "m \<in> set msgs" "event_id P m = None"
  shows "consume_batch P y xs msgs db = (NakAll, db)"
proof -
  have "apply_all P ms xs w = None" if "m \<in> snd ` set ms" for ms w
    using that assms(3) by (induction ms arbitrary: w) (force simp: bad_msg split: stmt.splits)+
  moreover have "m \<in> snd ` set (enumerate 0 msgs)" using assms(2) by (metis list.set_map map_snd_enumerate)
  ultimately show ?thesis using consume_batch_apply [OF assms(1), of P y xs msgs] by simp
qed

theorem poison_message_blocks_batch_witness:
  "consume_batch demo_env (calm 0 []) (\<lambda>_. calm 0 []) [demo_msg, \<lparr>mSubject = ''social.comments.pin'', mData = []\<rparr>] demo_db =
     (NakAll, demo_db)"
proof (rule poison_message_blocks_batch)
  show "dProcessed demo_db = Some []" by (simp add: demo_db_def)
  show "\<lparr>mSubject = ''social.comments.pin'', mData = []\<rparr> \<in> set [demo_msg, \<lparr>mSubject = ''social.comments.pin'', mData = []\<rparr>]"
    by simp
  show "event_id demo_env \<lparr>mSubject = ''social.comments.pin'', mData = []\<rparr> = None"
    by (simp add: event_id_def trim_prefix_def has_prefix_def Let_def)
qed

text \<open>
  The statements of an event have the effect of one operation of the comment store, so its contract applies.
\<close>

definition store_step :: "consumer_env \<Rightarrow> pg_comments \<Rightarrow> pg_comments \<Rightarrow> bool" where
  "store_step P t t' \<longleftrightarrow> t' = t \<or> (\<exists>op. fresh_op pg_look op t \<and> t' = exec_op (pg_store (uuidOf P)) op t)"

lemma exec_steps:
  "exec_insert P x cev w = Some w' \<Longrightarrow> store_step P (dTables w) (dTables w')"
  "exec_update P x uev w = Some w' \<Longrightarrow> store_step P (dTables w) (dTables w')"
  "exec_delete P x dev w = Some w' \<Longrightarrow> store_step P (dTables w) (dTables w')"
proof -
  assume "exec_insert P x cev w = Some w'"
  then obtain c t where c: "pg_create (uuidOf P) x (event_comment cev) (dTables w) = (Inr c, t)" "dTables w' = t"
    by (auto simp: exec_insert_def split: prod.splits sum.splits)
  have "fresh x \<notin> cID ` set (pComments (dTables w))"
    using c(1) by (auto simp: pg_create_def Let_def split: option.splits if_splits)
  then have "fresh_op pg_look (OpCreate x (event_comment cev)) (dTables w)" by (simp add: pg_look_def row_by_None)
  with c show "store_step P (dTables w) (dTables w')"
    unfolding store_step_def by (intro disjI2 exI [of _ "OpCreate x (event_comment cev)"]) (simp add: pg_store_def)
next
  assume "exec_update P x uev w = Some w'"
  then have "dTables w' = exec_op (pg_store (uuidOf P)) (OpUpdate x (ueCommentID uev) (ueUserID uev) (ueBody uev)) (dTables w)"
    by (auto simp: exec_update_def pg_store_def split: prod.splits sum.splits store_error.splits)
  then show "store_step P (dTables w) (dTables w')" unfolding store_step_def by (metis fresh_op.simps(2))
next
  assume "exec_delete P x dev w = Some w'"
  then have "dTables w' = exec_op (pg_store (uuidOf P)) (OpDelete x (deCommentID dev) (deUserID dev)) (dTables w)"
    by (auto simp: exec_delete_def pg_store_def split: prod.splits sum.splits store_error.splits)
  then show "store_step P (dTables w) (dTables w')" unfolding store_step_def by (metis fresh_op.simps(3))
qed

lemma sint_vote_cases: "sint (v :: i32) = 1 \<or> sint v = -1 \<Longrightarrow> v = 1 \<or> v = -1"
proof (elim disjE)
  assume "sint v = 1"
  then have "sint v = sint (1 :: i32)" by simp
  then show ?thesis by (blast intro: signed_word_eqI)
next
  assume "sint v = -1"
  then have "sint v = sint (-1 :: i32)" by simp
  then show ?thesis by (blast intro: signed_word_eqI)
qed

lemma exec_vote_write_step:
  assumes "exec_vote_write x k ev s = Some t" "uuid_of (veCommentID ev) = Some k" "k \<in> cID ` set (pComments s)"
  shows "t = snd (pg_vote uuid_of (calm 0 []) (veCommentID ev) (veUserID ev) (ucast (veVote ev)) s)"
proof -
  have v: "veVote ev = 1 \<or> veVote ev = -1"
    using assms(1) by (intro sint_vote_cases) (auto simp: exec_vote_write_def Let_def split: if_splits)
  have m: "(ucast (-1 :: i32) :: i16) = -1" by code_simp
  have w: "word_of_int (sint (veVote ev)) = (ucast (veVote ev) :: i16)" using v m by (elim disjE) simp_all
  have u: "(ucast (veVote ev) :: i16) = 1 \<or> (ucast (veVote ev) :: i16) = -1" using v m by (elim disjE) simp_all
  show ?thesis
    using assms u unfolding exec_vote_write_def w pg_vote_def Let_def
    by (simp split: if_splits) (elim disjE, simp_all)+
qed

lemma exec_vote_step: "exec_vote P x ev w = Some w' \<Longrightarrow> store_step P (dTables w) (dTables w')"
proof -
  assume v: "exec_vote P x ev w = Some w'"
  then obtain k where k: "uuidOf P (veCommentID ev) = Some k" by (auto simp: exec_vote_def split: option.splits)
  show ?thesis
  proof (cases "k \<in> cID ` set (pComments (dTables w))")
    case True
    with v k obtain t where "exec_vote_write (stmt_ctx x 1) k ev (dTables w) = Some t" "dTables w' = t"
      by (auto simp: exec_vote_def split: if_splits)
    with exec_vote_write_step [where uuid_of = "uuidOf P" and ev = ev and k = k and s = "dTables w"] k True
    have "dTables w' = exec_op (pg_store (uuidOf P)) (OpVote (calm 0 []) (veCommentID ev) (veUserID ev) (ucast (veVote ev))) (dTables w)"
      by (simp add: pg_store_def)
    then show ?thesis unfolding store_step_def by (metis fresh_op.simps(4))
  next
    case False
    with v k show ?thesis by (auto simp: exec_vote_def store_step_def split: if_splits)
  qed
qed

lemma then_exec_step:
  assumes "then_exec (mark_processed P x e t w) f = Done w'" "\<And>w0 w1. f w0 = Some w1 \<Longrightarrow> store_step P (dTables w0) (dTables w1)"
  shows "store_step P (dTables w) (dTables w')"
proof -
  from assms(1) obtain w0 where "mark_processed P x e t w = Done w0" "f w0 = Some w'"
    by (auto simp: then_exec_def split: stmt.splits option.splits)
  moreover have "dTables w0 = dTables w" using calculation(1) by (auto simp: mark_processed_def split: option.splits if_splits)
  ultimately show ?thesis using assms(2) by metis
qed

lemma tx_msg_step: "tx_msg P x m w = Done w' \<Longrightarrow> store_step P (dTables w) (dTables w')"
  by (auto simp: tx_msg_def tx_create_def tx_update_def tx_delete_def tx_vote_def Let_def
      intro: then_exec_step exec_steps exec_vote_step split: if_splits option.splits)

definition ledger_ok :: "pg_comments \<Rightarrow> bool" where
  "ledger_ok t \<longleftrightarrow> pg_inv t \<and> (\<forall>k c. pg_look t k = Some c \<longrightarrow> cScore c = tally (pg_vote_of t) k)"

lemma ledger_ok_step: "store_step P t t' \<Longrightarrow> ledger_ok t \<Longrightarrow> ledger_ok t'"
  using postgres.ledger_step [of t _ "uuidOf P"] pg_inv_exec [of t]
  unfolding store_step_def ledger_ok_def by blast

lemma apply_all_ledger: "apply_all P ms xs w = Some w' \<Longrightarrow> ledger_ok (dTables w) \<Longrightarrow> ledger_ok (dTables w')"
  by (induction P ms xs w rule: apply_all.induct)
     (auto split: stmt.splits dest: tx_msg_step ledger_ok_step)

text \<open>
  The consumer keeps the books of the store: whatever batches arrive, in whatever order and with whatever
  faults, every comment's score is the sum of its votes and the constraints of the tables hold.
\<close>

theorem consumer_keeps_scores:
  assumes "dProcessed db = Some ids" "ledger_ok (dTables db)"
  shows "ledger_ok (dTables (snd (consume_batch P y xs msgs db)))"
  using consume_batch_apply [OF assms(1), of P y xs msgs] assms(2) apply_all_ledger
  by (auto split: option.splits)

theorem consumer_keeps_scores_witness:
  "ledger_ok (dTables (snd (consume_batch demo_env (calm 0 []) (\<lambda>_. calm 0 []) [demo_msg] \<lparr>dTables = pg_empty, dProcessed = Some []\<rparr>)))"
  by (rule consumer_keeps_scores) (simp_all add: ledger_ok_def)

text \<open>
  When the table of processed events is missing and the database refuses the transaction that should follow the
  fallback of a message, the code goes on with a nil transaction: the goroutine panics, and what the
  fallback wrote stays.
\<close>

theorem nil_transaction_panics:
  assumes "dProcessed db = None" "\<not> fault y 0" "fault (xs 0) 9"
    and "mSubject m = ''social.comments.update''" "decUpdate P (mData m) = Some ev"
    and "exec_update P (stmt_ctx (xs 0) 1) ev db = Some db'"
  shows "consume_batch P y xs [m] db = (Panic, db')"
  using assms
  by (simp add: consume_batch_def consume_msg_def trim_prefix_def has_prefix_def on_tx_def tx_update_def then_exec_def
      mark_processed_def fallback_def pool_exec_def rebegin_def finish_batch_def Let_def)

definition panic_env :: consumer_env where
  "panic_env = demo_env\<lparr>decUpdate := (\<lambda>_. Some \<lparr>ueEventID = ''e'', ueUserID = ''u1'', ueCommentID = ''c1'', ueBody = ''x'', ueCreatedAt = []\<rparr>)\<rparr>"

theorem nil_transaction_panics_witness:
  "fst (consume_batch panic_env (calm 0 []) (\<lambda>_. (calm 0 [])\<lparr>fault := (\<lambda>i. i = 9)\<rparr>)
     [\<lparr>mSubject = ''social.comments.update'', mData = []\<rparr>] \<lparr>dTables = pg_demo, dProcessed = None\<rparr>) = Panic"
proof -
  let ?db = "\<lparr>dTables = pg_demo, dProcessed = None\<rparr>"
  let ?ev = "\<lparr>ueEventID = ''e'', ueUserID = ''u1'', ueCommentID = ''c1'', ueBody = ''x'', ueCreatedAt = []\<rparr>"
  have "\<exists>d. exec_update panic_env (stmt_ctx ((calm 0 [])\<lparr>fault := (\<lambda>i. i = 9)\<rparr>) 1) ?ev ?db = Some d"
    by (simp add: exec_update_def panic_env_def demo_env_def pg_update_body_def stmt_ctx_def pg_demo_eq sql_update_def)
  then obtain d where d: "exec_update panic_env (stmt_ctx ((calm 0 [])\<lparr>fault := (\<lambda>i. i = 9)\<rparr>) 1) ?ev ?db = Some d" by blast
  show ?thesis
    using nil_transaction_panics [OF _ _ _ _ _ d, of "calm 0 []" "\<lparr>mSubject = ''social.comments.update'', mData = []\<rparr>"]
    by (simp add: panic_env_def)
qed

end
