(* ===== verification/Activity.thy ===== *)
theory Activity
  imports Keyset Go_Base64 Api
begin

text \<open>
  The activity service: the progress table with its guarded upsert
  (services/activity/internal/store/postgres.go) and the gRPC handlers over it
  (services/activity/internal/grpc/activity_service.go). Identifiers are the canonical text of a UUID;
  \<open>uuid.Parse\<close> of the library is the parameter \<open>parse\<close>.
\<close>

section \<open>The repository\<close>

record progress_record =
  prUserID :: uuid
  prEpisodeID :: uuid
  prPositionSeconds :: int
  prDurationSeconds :: int
  prCompleted :: bool
  prClientTsMs :: int
  prUpdatedAt :: time

record progress_cursor =
  pcUpdatedAt :: time
  pcEpisodeID :: uuid

definition progress_key :: "progress_record \<Rightarrow> uuid \<times> uuid" where
  "progress_key r = (prUserID r, prEpisodeID r)"

definition db_error :: grpc_status where
  "db_error = status_Error InternalCode ''db''"

definition fetchOne :: "ctx \<Rightarrow> uuid \<Rightarrow> uuid \<Rightarrow> progress_record list \<Rightarrow> grpc_status + progress_record" where
  "fetchOne x userID episodeID rows =
     (if fault x 0 then Inl db_error
      else (case row_by progress_key (userID, episodeID) rows of None \<Rightarrow> Inl db_error | Some r \<Rightarrow> Inr r))"

text \<open>
  \<open>INSERT ... ON CONFLICT DO UPDATE ... WHERE existing.client_ts_ms <= EXCLUDED.client_ts_ms RETURNING ...\<close>; no
  row is returned when the condition blocks the update, and the stored record is read instead.
\<close>

definition progress_upsert_sql :: "progress_record \<Rightarrow> progress_record list \<Rightarrow> progress_record option \<times> progress_record list" where
  "progress_upsert_sql rec rows =
     (case row_by progress_key (progress_key rec) rows of
        None \<Rightarrow> (Some rec, rows @ [rec])
      | Some old \<Rightarrow>
          if prClientTsMs old \<le> prClientTsMs rec
          then (Some rec, fst (sql_update (\<lambda>r. progress_key r = progress_key rec) (\<lambda>_. rec) rows))
          else (None, rows))"

definition progress_Upsert ::
  "ctx \<Rightarrow> progress_record \<Rightarrow> progress_record list \<Rightarrow> (grpc_status + progress_record) \<times> progress_record list" where
  "progress_Upsert x rec rows =
     (if fault x 0 then (Inl db_error, rows)
      else
        (case progress_upsert_sql (rec\<lparr>prUpdatedAt := pg_time (now x)\<rparr>) rows of
           (Some out, rows') \<Rightarrow> (Inr out, rows')
         | (None, rows') \<Rightarrow> (fetchOne (stmt_ctx x 1) (prUserID rec) (prEpisodeID rec) rows', rows')))"

text \<open>
  The keyset condition compares with \<open>to_timestamp(ms / 1000.0)\<close>: the cursor's time in whole milliseconds.
\<close>

definition ms :: "time \<Rightarrow> int" where
  "ms t = t div 1000000"

definition list_key :: "progress_record \<Rightarrow> time \<times> uuid" where
  "list_key r = (prUpdatedAt r, prEpisodeID r)"

definition progress_List ::
  "ctx \<Rightarrow> uuid \<Rightarrow> nat \<Rightarrow> progress_cursor option \<Rightarrow> progress_record list \<Rightarrow> grpc_status + progress_record list" where
  "progress_List x userID limit cursor rows =
     (if fault x 0 then Inl db_error
      else
        Inr (take limit (order_by_desc list_key
          (filter (\<lambda>r. prUserID r = userID \<and>
              (case cursor of None \<Rightarrow> True
               | Some c \<Rightarrow> list_key r < (ms (pcUpdatedAt c) * 1000000, pcEpisodeID c))) rows))))"

section \<open>The service\<close>

definition clampLimit :: "int \<Rightarrow> int \<Rightarrow> int \<Rightarrow> int" where
  "clampLimit v def' maxVal = (if v \<le> 0 then def' else if maxVal < v then maxVal else v)"

definition clampMin :: "int \<Rightarrow> int \<Rightarrow> int" where
  "clampMin v minVal = (if v < minVal then minVal else v)"

record pb_progress =
  ppUserId :: string
  ppEpisodeId :: string
  ppPositionSeconds :: i32
  ppDurationSeconds :: i32
  ppCompleted :: bool
  ppUpdatedAtMs :: int
  ppClientTsMs :: int

definition toProtoProgress :: "progress_record \<Rightarrow> pb_progress" where
  "toProtoProgress r = \<lparr>ppUserId = prUserID r, ppEpisodeId = prEpisodeID r,
     ppPositionSeconds = word_of_int (prPositionSeconds r), ppDurationSeconds = word_of_int (prDurationSeconds r),
     ppCompleted = prCompleted r, ppUpdatedAtMs = ms (prUpdatedAt r), ppClientTsMs = prClientTsMs r\<rparr>"

text \<open>
  \<open>float64(pos)/float64(dur) >= 0.90\<close> for 32-bit operands: the quotient of two such integers is
  0.90 or differs from it by far more than the rounding of a \<open>float64\<close>, so the test is this comparison.
\<close>

definition completed_ratio :: "int \<Rightarrow> int \<Rightarrow> bool" where
  "completed_ratio pos dur \<longleftrightarrow> 0 < dur \<and> 9 * dur \<le> 10 * pos"

record upsert_request =
  uqUserId :: string
  uqEpisodeId :: string
  uqPositionSeconds :: i32
  uqDurationSeconds :: i32
  uqClientTsMs :: int

definition UpsertEpisodeProgress ::
  "(string \<Rightarrow> uuid option) \<Rightarrow> ctx \<Rightarrow> upsert_request \<Rightarrow> progress_record list \<Rightarrow> (grpc_status + pb_progress) \<times> progress_record list" where
  "UpsertEpisodeProgress parse x req rows =
     (case parse (trim_space (uqUserId req)) of
        None \<Rightarrow> (Inl (status_Error InvalidArgument ''invalid user_id''), rows)
      | Some userID \<Rightarrow>
          (case parse (trim_space (uqEpisodeId req)) of
             None \<Rightarrow> (Inl (status_Error InvalidArgument ''invalid episode_id''), rows)
           | Some epID \<Rightarrow>
               let pos = clampMin (sint (uqPositionSeconds req)) 0;
                   dur = clampMin (sint (uqDurationSeconds req)) 0;
                   rec = \<lparr>prUserID = userID, prEpisodeID = epID, prPositionSeconds = pos, prDurationSeconds = dur,
                     prCompleted = completed_ratio pos dur, prClientTsMs = uqClientTsMs req, prUpdatedAt = 0\<rparr>
               in (case progress_Upsert x rec rows of
                     (Inl e, rows') \<Rightarrow> (Inl e, rows')
                   | (Inr out, rows') \<Rightarrow> (Inr (toProtoProgress out), rows'))))"

definition encodeCursor :: "int \<Rightarrow> string \<Rightarrow> string" where
  "encodeCursor tsMs episodeID = b64_encode False (format_int tsMs @ CHR '':'' # episodeID)"

definition decodeCursor :: "(string \<Rightarrow> uuid option) \<Rightarrow> string \<Rightarrow> progress_cursor option" where
  "decodeCursor parse raw =
     (let raw = trim_space raw
      in if raw = [] then None
         else
           (case b64_decode False raw of
              None \<Rightarrow> None
            | Some b \<Rightarrow>
                (case split_n 2 CHR '':'' b of
                   [p0, p1] \<Rightarrow>
                     (case parse_int p0 of
                        None \<Rightarrow> None
                      | Some ts \<Rightarrow>
                          (case parse p1 of
                             None \<Rightarrow> None
                           | Some eid \<Rightarrow> Some \<lparr>pcUpdatedAt = ts * 1000000, pcEpisodeID = eid\<rparr>))
                 | _ \<Rightarrow> None)))"

definition GetContinueWatching ::
  "(string \<Rightarrow> uuid option) \<Rightarrow> ctx \<Rightarrow> string \<Rightarrow> i32 \<Rightarrow> string \<Rightarrow> progress_record list \<Rightarrow>
   grpc_status + pb_progress list \<times> i32 \<times> string" where
  "GetContinueWatching parse x req_user req_limit req_cursor rows =
     (case parse (trim_space req_user) of
        None \<Rightarrow> Inl (status_Error InvalidArgument ''invalid user_id'')
      | Some userID \<Rightarrow>
          let limit = clampLimit (sint req_limit) 25 100;
              cursor = decodeCursor parse req_cursor
          in (case progress_List x userID (nat limit) cursor rows of
                Inl e \<Rightarrow> Inl e
              | Inr records \<Rightarrow>
                  let nextCursor =
                        (if int (length records) = limit
                         then let last = records ! (length records - 1)
                              in encodeCursor (ms (prUpdatedAt last)) (prEpisodeID last)
                         else [])
                  in Inr (map toProtoProgress records, word_of_int limit, nextCursor)))"

section \<open>The guarded upsert\<close>

definition progress_inv :: "progress_record list \<Rightarrow> bool" where
  "progress_inv rows \<longleftrightarrow> distinct (map progress_key rows)"

abbreviation stored :: "uuid \<times> uuid \<Rightarrow> progress_record list \<Rightarrow> progress_record option" where
  "stored k rows \<equiv> row_by progress_key k rows"

definition newer :: "progress_record option \<Rightarrow> progress_record \<Rightarrow> bool" where
  "newer old rec \<longleftrightarrow> (case old of None \<Rightarrow> True | Some o' \<Rightarrow> prClientTsMs o' \<le> prClientTsMs rec)"

lemma upsert_sql_stored:
  "stored k (snd (progress_upsert_sql rec rows)) =
     (if k = progress_key rec \<and> newer (stored k rows) rec then Some rec else stored k rows)"
proof (cases "stored (progress_key rec) rows")
  case None
  then show ?thesis by (auto simp: progress_upsert_sql_def row_by_append newer_def split: option.splits)
next
  case (Some old)
  have "stored k (fst (sql_update (\<lambda>r. progress_key r = progress_key rec) (\<lambda>_. rec) rows)) =
      (if k = progress_key rec then Some rec else stored k rows)"
  proof -
    have "stored k (map (\<lambda>r. if progress_key r = progress_key rec then rec else r) rows) =
        map_option (\<lambda>r. if progress_key r = progress_key rec then rec else r) (stored k rows)"
      by (rule row_by_map) simp
    with Some show ?thesis
      by (cases "stored k rows") (auto simp: sql_update_def dest: row_by_Some)
  qed
  with Some show ?thesis by (auto simp: progress_upsert_sql_def newer_def)
qed

lemma upsert_sql_inv:
  assumes "progress_inv rows"
  shows "progress_inv (snd (progress_upsert_sql rec rows))"
proof -
  have "map progress_key (map (\<lambda>r. if progress_key r = progress_key rec then rec else r) rows) = map progress_key rows"
    by simp
  with assms show ?thesis
    by (auto simp: progress_upsert_sql_def progress_inv_def sql_update_def row_by_None split: option.splits simp del: map_map)
qed

lemma Upsert_stored:
  assumes "\<not> fault x 0"
  shows "stored k (snd (progress_Upsert x rec rows)) =
     (if k = progress_key rec \<and> newer (stored k rows) rec then Some (rec\<lparr>prUpdatedAt := pg_time (now x)\<rparr>) else stored k rows)"
proof -
  have "progress_key (rec\<lparr>prUpdatedAt := pg_time (now x)\<rparr>) = progress_key rec" by (simp add: progress_key_def)
  moreover have "newer s (rec\<lparr>prUpdatedAt := pg_time (now x)\<rparr>) = newer s rec" for s by (simp add: newer_def split: option.splits)
  ultimately show ?thesis
    using assms upsert_sql_stored [of k "rec\<lparr>prUpdatedAt := pg_time (now x)\<rparr>" rows]
    by (auto simp: progress_Upsert_def split: prod.splits option.splits)
qed

text \<open>A run of writes; each has its own environment.\<close>

definition upserts :: "(ctx \<times> progress_record) list \<Rightarrow> progress_record list \<Rightarrow> progress_record list" where
  "upserts ws rows = fold (\<lambda>(x, rec) rows. snd (progress_Upsert x rec rows)) ws rows"

definition content :: "progress_record \<Rightarrow> progress_record" where
  "content r = r\<lparr>prUpdatedAt := 0\<rparr>"

lemma content_ts: "content r = content r' \<Longrightarrow> prClientTsMs r = prClientTsMs r'"
  by (cases r; cases r') (simp add: content_def)

text \<open>After a run the stored record is one that was written, and none with a later client time was lost.\<close>

lemma upserts_max:
  assumes "\<forall>(x, rec) \<in> set ws. \<not> fault x 0"
  shows "case stored k (upserts ws rows) of
      None \<Rightarrow> stored k rows = None \<and> (\<forall>(x, rec) \<in> set ws. progress_key rec \<noteq> k)
    | Some r \<Rightarrow> (stored k rows = Some r \<or> (\<exists>(x, rec) \<in> set ws. progress_key rec = k \<and> content r = content rec)) \<and>
        (\<forall>(x, rec) \<in> set ws. progress_key rec = k \<longrightarrow> prClientTsMs rec \<le> prClientTsMs r) \<and>
        (\<forall>o' \<in> set_option (stored k rows). prClientTsMs o' \<le> prClientTsMs r)"
  using assms
proof (induction ws arbitrary: rows)
  case Nil
  then show ?case by (simp add: upserts_def split: option.splits)
next
  case (Cons a ws)
  obtain x rec where a: "a = (x, rec)" by fastforce
  let ?rows = "snd (progress_Upsert x rec rows)"
  have up: "upserts (a # ws) rows = upserts ws ?rows" by (simp add: upserts_def a)
  have st: "stored k ?rows =
     (if k = progress_key rec \<and> newer (stored k rows) rec then Some (rec\<lparr>prUpdatedAt := pg_time (now x)\<rparr>) else stored k rows)"
    using Cons.prems a by (intro Upsert_stored) simp
  have IH: "case stored k (upserts ws ?rows) of
      None \<Rightarrow> stored k ?rows = None \<and> (\<forall>(x, rec) \<in> set ws. progress_key rec \<noteq> k)
    | Some r \<Rightarrow> (stored k ?rows = Some r \<or> (\<exists>(x, rec) \<in> set ws. progress_key rec = k \<and> content r = content rec)) \<and>
        (\<forall>(x, rec) \<in> set ws. progress_key rec = k \<longrightarrow> prClientTsMs rec \<le> prClientTsMs r) \<and>
        (\<forall>o' \<in> set_option (stored k ?rows). prClientTsMs o' \<le> prClientTsMs r)"
    by (rule Cons.IH) (use Cons.prems in simp)
  show ?case
  proof (cases "k = progress_key rec \<and> newer (stored k rows) rec")
    case True
    with IH st show ?thesis unfolding up unfolding a
      by (auto simp: newer_def content_def split: option.splits)
  next
    case False
    then have e: "stored k ?rows = stored k rows" using st by auto
    have n: "\<exists>o'. stored k rows = Some o' \<and> prClientTsMs rec < prClientTsMs o'" if "progress_key rec = k"
      using False that by (auto simp: newer_def split: option.splits)
    show ?thesis using IH n unfolding up unfolding a e
      by (cases "stored k (upserts ws ?rows)"; cases "stored k rows") auto
  qed
qed

text \<open>
  C11. Progress converges: two deliveries of the same writes in different orders and at different times leave the same
  progress for every user and episode, provided no two writes for one episode of a user carry the same
  client time.
\<close>

theorem progress_order_independent:
  assumes "mset (map snd ws) = mset (map snd ws')"
    and "\<forall>(x, rec) \<in> set ws. \<not> fault x 0" "\<forall>(x, rec) \<in> set ws'. \<not> fault x 0"
    and "\<forall>r \<in> snd ` set ws. \<forall>r' \<in> snd ` set ws. progress_key r = progress_key r' \<and> prClientTsMs r = prClientTsMs r' \<longrightarrow> r = r'"
  shows "map_option content (stored k (upserts ws [])) = map_option content (stored k (upserts ws' []))"
proof -
  have recs: "snd ` set ws = snd ` set ws'"
    using assms(1) by (metis list.set_map set_mset_mset)
  have char: "case stored k (upserts vs []) of
      None \<Rightarrow> \<forall>rec \<in> snd ` set vs. progress_key rec \<noteq> k
    | Some r \<Rightarrow> (\<exists>rec \<in> snd ` set vs. progress_key rec = k \<and> content r = content rec) \<and>
        (\<forall>rec \<in> snd ` set vs. progress_key rec = k \<longrightarrow> prClientTsMs rec \<le> prClientTsMs r)"
    if "\<forall>(x, rec) \<in> set vs. \<not> fault x 0" for vs
    using upserts_max [OF that, of k "[]"] by (cases "stored k (upserts vs [])") force+
  show ?thesis
  proof (cases "stored k (upserts ws [])")
    case None
    with char [OF assms(2)] char [OF assms(3)] recs show ?thesis
      by (cases "stored k (upserts ws' [])") auto
  next
    case (Some r)
    with char [OF assms(2)] obtain rec where r: "rec \<in> snd ` set ws" "progress_key rec = k" "content r = content rec"
      "\<forall>q \<in> snd ` set ws. progress_key q = k \<longrightarrow> prClientTsMs q \<le> prClientTsMs r" by auto
    with char [OF assms(3)] recs obtain r' rec' where r': "stored k (upserts ws' []) = Some r'"
      "rec' \<in> snd ` set ws" "progress_key rec' = k" "content r' = content rec'"
      "\<forall>q \<in> snd ` set ws. progress_key q = k \<longrightarrow> prClientTsMs q \<le> prClientTsMs r'"
      by (cases "stored k (upserts ws' [])") auto
    have "prClientTsMs rec = prClientTsMs rec'"
      using r r' content_ts [OF r(3)] content_ts [OF r'(4)] by (metis order_antisym)
    then have "rec = rec'" using assms(4) r(1,2) r'(2,3) by metis
    with r(3) r'(1,4) Some show ?thesis by simp
  qed
qed

definition demo_progress :: "int \<Rightarrow> int \<Rightarrow> progress_record" where
  "demo_progress pos ts = \<lparr>prUserID = ''u'', prEpisodeID = ''e'', prPositionSeconds = pos, prDurationSeconds = 100,
     prCompleted = False, prClientTsMs = ts, prUpdatedAt = 0\<rparr>"

theorem progress_order_independent_witness:
  "map_option content (stored (''u'', ''e'') (upserts [(calm 5 [], demo_progress 10 1), (calm 6 [], demo_progress 20 2)] [])) =
   map_option content (stored (''u'', ''e'') (upserts [(calm 7 [], demo_progress 20 2), (calm 8 [], demo_progress 10 1)] []))"
  by (rule progress_order_independent) (auto simp: demo_progress_def progress_key_def)

text \<open>
  An acknowledged write is answered with the record that is stored then, and the stored client time never goes back:
  it is at least the request's, and for every user and episode at least what it was.
\<close>

theorem UpsertEpisodeProgress_monotone:
  assumes "UpsertEpisodeProgress parse x req rows = (Inr resp, rows')"
  shows "(\<exists>u e r. parse (trim_space (uqUserId req)) = Some u \<and> parse (trim_space (uqEpisodeId req)) = Some e \<and>
      stored (u, e) rows' = Some r \<and> resp = toProtoProgress r \<and> uqClientTsMs req \<le> prClientTsMs r) \<and>
    (\<forall>k o'. stored k rows = Some o' \<longrightarrow> (\<exists>r. stored k rows' = Some r \<and> prClientTsMs o' \<le> prClientTsMs r))"
proof -
  obtain u e where ue: "parse (trim_space (uqUserId req)) = Some u" "parse (trim_space (uqEpisodeId req)) = Some e"
    using assms by (auto simp: UpsertEpisodeProgress_def split: option.splits)
  define rec where "rec = \<lparr>prUserID = u, prEpisodeID = e, prPositionSeconds = clampMin (sint (uqPositionSeconds req)) 0,
    prDurationSeconds = clampMin (sint (uqDurationSeconds req)) 0,
    prCompleted = completed_ratio (clampMin (sint (uqPositionSeconds req)) 0) (clampMin (sint (uqDurationSeconds req)) 0),
    prClientTsMs = uqClientTsMs req, prUpdatedAt = 0\<rparr>"
  have up: "\<exists>out. progress_Upsert x rec rows = (Inr out, rows') \<and> resp = toProtoProgress out"
    using assms ue by (auto simp: UpsertEpisodeProgress_def rec_def Let_def split: prod.splits sum.splits)
  then obtain out where out: "progress_Upsert x rec rows = (Inr out, rows')" "resp = toProtoProgress out" by blast
  then have nf: "\<not> fault x 0" by (auto simp: progress_Upsert_def)
  have key: "progress_key rec = (u, e)" by (simp add: progress_key_def rec_def)
  have st: "stored k rows' = (if k = (u, e) \<and> newer (stored k rows) rec then Some (rec\<lparr>prUpdatedAt := pg_time (now x)\<rparr>) else stored k rows)" for k
    using Upsert_stored [OF nf, of k rec rows] out(1) key by simp
  have "stored (u, e) rows' = Some out \<and> uqClientTsMs req \<le> prClientTsMs out"
    using out(1) nf st [of "(u, e)"] key
    by (auto simp: progress_Upsert_def progress_upsert_sql_def fetchOne_def newer_def progress_key_def rec_def
        split: option.splits if_splits)
  moreover have "\<forall>k o'. stored k rows = Some o' \<longrightarrow> (\<exists>r. stored k rows' = Some r \<and> prClientTsMs o' \<le> prClientTsMs r)"
    using st by (auto simp: newer_def)
  ultimately show ?thesis using ue out(2) by blast
qed

definition demo_request :: upsert_request where
  "demo_request = \<lparr>uqUserId = ''u'', uqEpisodeId = ''e'', uqPositionSeconds = 95, uqDurationSeconds = 100, uqClientTsMs = 7\<rparr>"

theorem UpsertEpisodeProgress_monotone_witness:
  "\<exists>resp rows'. UpsertEpisodeProgress Some (calm 0 []) demo_request [] = (Inr resp, rows') \<and>
     (\<exists>r. stored (''u'', ''e'') rows' = Some r \<and> resp = toProtoProgress r \<and> 7 \<le> prClientTsMs r)"
proof -
  have t: "trim_space ''u'' = ''u''" "trim_space ''e'' = ''e''" by (rule trim_space_all_plain, simp add: plain_ascii)+
  have "\<exists>resp rows'. UpsertEpisodeProgress Some (calm 0 []) demo_request [] = (Inr resp, rows')"
    by (simp add: UpsertEpisodeProgress_def demo_request_def progress_Upsert_def progress_upsert_sql_def Let_def)
  then obtain resp rows' where r: "UpsertEpisodeProgress Some (calm 0 []) demo_request [] = (Inr resp, rows')" by blast
  from UpsertEpisodeProgress_monotone [OF r] r t show ?thesis by (auto simp: demo_request_def)
qed

text \<open>
  A write with the stored client time is applied: the later of two writes with one client time replaces the earlier,
  although the interface says such a write is stale.
\<close>

theorem equal_client_time_replaces:
  assumes "\<not> fault x 0" "stored (progress_key rec) rows = Some old" "prClientTsMs old = prClientTsMs rec"
  shows "stored (progress_key rec) (snd (progress_Upsert x rec rows)) = Some (rec\<lparr>prUpdatedAt := pg_time (now x)\<rparr>)"
  using assms Upsert_stored [OF assms(1), of "progress_key rec" rec rows] by (simp add: newer_def)

theorem equal_client_time_replaces_witness:
  "map_option prPositionSeconds (stored (''u'', ''e'') (snd (progress_Upsert (calm 0 []) (demo_progress 3 1) [demo_progress 50 1]))) = Some 3"
proof -
  have k: "progress_key (demo_progress 3 1) = (''u'', ''e'')" by (simp add: demo_progress_def progress_key_def)
  have "stored (progress_key (demo_progress 3 1)) [demo_progress 50 1] = Some (demo_progress 50 1)"
    by (simp add: demo_progress_def progress_key_def)
  from equal_client_time_replaces [OF _ this, of "calm 0 []"] k show ?thesis by (simp add: demo_progress_def)
qed

section \<open>Paging of the continue-watching list\<close>

definition user_rows :: "uuid \<Rightarrow> progress_record list \<Rightarrow> progress_record list" where
  "user_rows u rows = order_by_desc list_key (filter (\<lambda>r. prUserID r = u) rows)"

definition progress_cur :: "progress_record \<Rightarrow> string" where
  "progress_cur r = encodeCursor (ms (prUpdatedAt r)) (prEpisodeID r)"

text \<open>Stored identifiers are canonical and stored times in the range of the cursor's integer.\<close>

definition progress_stored :: "(string \<Rightarrow> uuid option) \<Rightarrow> progress_record \<Rightarrow> bool" where
  "progress_stored parse r \<longleftrightarrow> parse (prEpisodeID r) = Some (prEpisodeID r) \<and> in_int64 (ms (prUpdatedAt r))"

definition distinct_ms :: "uuid \<Rightarrow> progress_record list \<Rightarrow> bool" where
  "distinct_ms u rows \<longleftrightarrow> inj_on (ms \<circ> prUpdatedAt) (set (filter (\<lambda>r. prUserID r = u) rows))"

lemma decode_encode_cursor:
  assumes "in_int64 t" "parse e = Some e'"
  shows "decodeCursor parse (encodeCursor t e) = Some \<lparr>pcUpdatedAt = t * 1000000, pcEpisodeID = e'\<rparr>"
proof -
  have "CHR '':'' \<notin> set (format_int t)" by (rule format_int_no_sep)
  with assms show ?thesis
    by (simp add: decodeCursor_def encodeCursor_def split_n_two Let_def)
qed

lemma ms_bounds: "ms t * 1000000 \<le> t" "t < ms t * 1000000 + 1000000"
  using div_mult_mod_eq [of t 1000000] pos_mod_bound [of 1000000 t] pos_mod_sign [of 1000000 t]
  unfolding ms_def by linarith+

lemmas ms_le = ms_bounds(1)

lemma ms_less: "ms a < ms t \<longleftrightarrow> a < ms t * 1000000"
  using ms_bounds [of a] by linarith

lemma ms_mono: "a \<le> t \<Longrightarrow> ms a \<le> ms t"
  unfolding ms_def by (simp add: zdiv_mono1)

lemma user_rows_desc:
  assumes "progress_inv rows"
  shows "strict_desc list_key (user_rows u rows)"
proof -
  have "distinct (filter (\<lambda>r. prUserID r = u) rows)" using assms by (simp add: progress_inv_def distinct_map)
  moreover have "inj_on list_key (set (filter (\<lambda>r. prUserID r = u) rows))"
    using assms by (auto simp: progress_inv_def distinct_map inj_on_def list_key_def progress_key_def)
  ultimately show ?thesis unfolding user_rows_def by (rule strict_desc_order_by)
qed

text \<open>Comparing with the truncated time keeps exactly the rows after the cursor's row if no millisecond has two.\<close>

lemma filter_after_ms:
  assumes "progress_inv rows" "distinct_ms u rows" "user_rows u rows = ys @ r # zs"
  shows "filter (\<lambda>q. list_key q < (ms (prUpdatedAt r) * 1000000, prEpisodeID r)) (user_rows u rows) = zs"
proof -
  have desc: "strict_desc list_key (ys @ r # zs)" using user_rows_desc [OF assms(1), of u] assms(3) by simp
  have inj: "inj_on (ms \<circ> prUpdatedAt) (set (ys @ r # zs))"
    using assms(2) unfolding distinct_ms_def assms(3) [symmetric] user_rows_def by simp
  have r: "list_key q < (ms (prUpdatedAt r) * 1000000, prEpisodeID r) \<longleftrightarrow> list_key q < list_key r"
    if q: "q \<in> set (ys @ r # zs)" for q
  proof (cases "ms (prUpdatedAt q) = ms (prUpdatedAt r)")
    case True
    then have "q = r" using inj_onD [OF inj, of q r] q by simp
    then show ?thesis using ms_le [of "prUpdatedAt r"] by (auto simp: list_key_def)
  next
    case False
    then have "prUpdatedAt q < prUpdatedAt r \<longleftrightarrow> prUpdatedAt q < ms (prUpdatedAt r) * 1000000"
      using ms_mono [of "prUpdatedAt q" "prUpdatedAt r"] ms_less [of "prUpdatedAt q" "prUpdatedAt r"] ms_le [of "prUpdatedAt r"]
      by auto
    moreover have "prUpdatedAt q \<noteq> ms (prUpdatedAt r) * 1000000" using False by (auto simp: ms_def)
    moreover have "prUpdatedAt q \<noteq> prUpdatedAt r" using False by auto
    ultimately show ?thesis by (auto simp: list_key_def)
  qed
  have "filter (\<lambda>q. list_key q < (ms (prUpdatedAt r) * 1000000, prEpisodeID r)) (ys @ r # zs) =
      filter (\<lambda>q. list_key q < list_key r) (ys @ r # zs)"
    by (rule filter_cong) (use r in auto)
  also have "\<dots> = zs" by (rule filter_after [OF desc])
  finally show ?thesis unfolding assms(3) .
qed

text \<open>One page before conversion to the wire form.\<close>

definition records_page ::
  "(string \<Rightarrow> uuid option) \<Rightarrow> ctx \<Rightarrow> uuid \<Rightarrow> nat \<Rightarrow> string \<Rightarrow> progress_record list \<Rightarrow> (progress_record list \<times> string) option" where
  "records_page parse x u n c rows =
     (case progress_List x u n (decodeCursor parse c) rows of
        Inl e \<Rightarrow> None
      | Inr rs \<Rightarrow> Some (rs, if length rs = n then progress_cur (rs ! (length rs - 1)) else []))"

lemma records_page_of:
  assumes "progress_List x u n (decodeCursor parse c) rows = Inr (take n zs)" "0 < n"
  shows "records_page parse x u n c rows = Some (page_of (\<le>) n progress_cur zs)"
  using assms by (auto simp: records_page_def page_of_def min_def split: if_splits)

lemma progress_List_first:
  "\<not> fault x 0 \<Longrightarrow> progress_List x u n (decodeCursor parse []) rows = Inr (take n (user_rows u rows))"
  by (simp add: progress_List_def decodeCursor_def user_rows_def)

lemma progress_List_next:
  assumes "\<not> fault x 0" "progress_inv rows" "distinct_ms u rows" "progress_stored parse r" "user_rows u rows = ys @ r # zs"
  shows "progress_List x u n (decodeCursor parse (progress_cur r)) rows = Inr (take n zs)"
proof -
  have d: "decodeCursor parse (progress_cur r) = Some \<lparr>pcUpdatedAt = ms (prUpdatedAt r) * 1000000, pcEpisodeID = prEpisodeID r\<rparr>"
    using assms(4) unfolding progress_cur_def progress_stored_def by (intro decode_encode_cursor) auto
  have "ms (ms (prUpdatedAt r) * 1000000) = ms (prUpdatedAt r)" by (simp add: ms_def)
  moreover have "order_by_desc list_key (filter (\<lambda>q. prUserID q = u \<and> list_key q < (ms (prUpdatedAt r) * 1000000, prEpisodeID r)) rows) = zs"
    using filter_after_ms [OF assms(2,3,5)]
    unfolding user_rows_def filter_order_by_desc [symmetric] filter_filter by (simp add: conj_commute)
  ultimately show ?thesis using assms(1) by (simp add: progress_List_def d)
qed

interpretation continue_watching: pager
  "\<lambda>c. records_page parse (xs c) u (Suc n) c rows" "user_rows u rows" progress_cur "Suc n"
  "progress_inv rows \<and> distinct_ms u rows \<and> (\<forall>c. \<not> fault (xs c) 0) \<and> (\<forall>r \<in> set rows. progress_stored parse r)" "(\<le>)"
  for parse xs u n rows
proof (unfold_locales, goal_cases)
  case 4
  then show ?case by (intro records_page_of progress_List_first) auto
next
  case (5 ys r zs)
  have "r \<in> set (user_rows u rows)" using 5(2) by simp
  then have "r \<in> set rows" by (auto simp: user_rows_def)
  with 5 show ?case by (intro records_page_of progress_List_next) auto
qed (simp_all add: progress_cur_def encodeCursor_def)

definition cw_page :: "grpc_status + pb_progress list \<times> i32 \<times> string \<Rightarrow> (pb_progress list \<times> string) option" where
  "cw_page r = (case r of Inl e \<Rightarrow> None | Inr (items, _, nxt) \<Rightarrow> Some (items, nxt))"

lemma clampLimit_range: "1 \<le> clampLimit v 25 100 \<and> clampLimit v 25 100 \<le> 100"
  by (auto simp: clampLimit_def)

lemma cw_page_records:
  assumes "parse (trim_space user) = Some u" "n = nat (clampLimit (sint lm) 25 100)"
  shows "cw_page (GetContinueWatching parse x user lm c rows) =
    map_option (\<lambda>(rs, nxt). (map toProtoProgress rs, nxt)) (records_page parse x u n c rows)"
proof -
  have "(int k = clampLimit (sint lm) 25 100) = (k = n)" for k
    using clampLimit_range [of "sint lm"] assms(2) by auto
  then show ?thesis
    using assms
    by (auto simp: GetContinueWatching_def cw_page_def records_page_def progress_cur_def Let_def split: sum.splits)
qed

text \<open>
  C30. Following the cursors of the continue-watching list gives every progress record of the user once, most
  recently updated first, for every limit the request may carry, provided no two of the user's records were
  updated in the same millisecond.
\<close>

theorem continue_watching_complete:
  assumes "progress_inv rows" "distinct_ms u rows" "\<forall>c. \<not> fault (xs c) 0" "\<forall>r \<in> set rows. progress_stored parse r"
    and "parse (trim_space user) = Some u"
  shows "\<exists>rs. walk (Suc (length rows)) (\<lambda>c. cw_page (GetContinueWatching parse (xs c) user lm c rows)) [] =
      Some (map toProtoProgress rs) \<and> distinct rs \<and> set rs = {r \<in> set rows. prUserID r = u} \<and>
      sorted_wrt (\<lambda>a b. prUpdatedAt b \<le> prUpdatedAt a) rs"
proof (intro exI conjI)
  obtain n where n: "Suc n = nat (clampLimit (sint lm) 25 100)"
    using clampLimit_range [of "sint lm"] by (cases "nat (clampLimit (sint lm) 25 100)") auto
  have len: "length (user_rows u rows) < Suc (length rows)" by (simp add: user_rows_def less_Suc_eq_le)
  show "walk (Suc (length rows)) (\<lambda>c. cw_page (GetContinueWatching parse (xs c) user lm c rows)) [] =
      Some (map toProtoProgress (user_rows u rows))"
    unfolding cw_page_records [of parse user u "Suc n" lm, OF assms(5) n] walk_map
    using continue_watching.walk_all [OF _ len, of xs parse n] assms(1-4) by auto
  show "distinct (user_rows u rows)" using assms(1) by (simp add: user_rows_def progress_inv_def distinct_map)
  show "set (user_rows u rows) = {r \<in> set rows. prUserID r = u}" by (auto simp: user_rows_def)
  show "sorted_wrt (\<lambda>a b. prUpdatedAt b \<le> prUpdatedAt a) (user_rows u rows)"
    using user_rows_desc [OF assms(1), of u] unfolding strict_desc_def
    by (rule sorted_wrt_mono_rel [rotated]) (auto simp: list_key_def)
qed

definition cw_row :: "string \<Rightarrow> time \<Rightarrow> progress_record" where
  "cw_row e t = \<lparr>prUserID = ''u'', prEpisodeID = e, prPositionSeconds = 1, prDurationSeconds = 2,
     prCompleted = False, prClientTsMs = 1, prUpdatedAt = t\<rparr>"

theorem continue_watching_complete_witness:
  "\<exists>rs. walk 3 (\<lambda>c. cw_page (GetContinueWatching Some (calm 0 []) ''u'' 1 c [cw_row ''e1'' 1000000, cw_row ''e2'' 5000000])) [] =
     Some (map toProtoProgress rs) \<and> distinct rs \<and> set rs = {cw_row ''e1'' 1000000, cw_row ''e2'' 5000000}"
proof -
  let ?rows = "[cw_row ''e1'' 1000000, cw_row ''e2'' 5000000]"
  have 1: "progress_inv ?rows" by (simp add: progress_inv_def progress_key_def cw_row_def)
  have 2: "distinct_ms ''u'' ?rows" by (simp add: distinct_ms_def cw_row_def ms_def)
  have 3: "\<forall>r \<in> set ?rows. progress_stored Some r" by (simp add: progress_stored_def cw_row_def ms_def in_int64_def)
  have 4: "trim_space ''u'' = ''u''" by (rule trim_space_all_plain) (simp add: plain_ascii)
  have "{r \<in> set ?rows. prUserID r = ''u''} = {cw_row ''e1'' 1000000, cw_row ''e2'' 5000000}" by (auto simp: cw_row_def)
  with continue_watching_complete [OF 1 2 _ 3, of "\<lambda>_. calm 0 []" "''u''" 1] 4 show ?thesis by (auto simp: eval_nat_numeral)
qed

text \<open>
  Without that condition records are lost: two records updated within one millisecond, read with a limit of one,
  come back as one record, because the cursor carries whole milliseconds and the table microseconds.
\<close>

theorem continue_watching_skips_same_ms:
  "walk 5 (\<lambda>c. map_option (\<lambda>(rs, nxt). (map prEpisodeID rs, nxt))
      (records_page Some (calm 0 []) ''u'' 1 c [cw_row ''e1'' 1000001000, cw_row ''e2'' 1000002000])) [] = Some [''e2'']"
proof -
  let ?rows = "[cw_row ''e1'' 1000001000, cw_row ''e2'' 1000002000]"
  have d: "decodeCursor Some (progress_cur (cw_row ''e2'' 1000002000)) = Some \<lparr>pcUpdatedAt = 1000000000, pcEpisodeID = ''e2''\<rparr>"
    using decode_encode_cursor [of 1000 Some "''e2''" "''e2''"] by (simp add: progress_cur_def cw_row_def ms_def in_int64_def)
  have ne: "progress_cur (cw_row ''e2'' 1000002000) \<noteq> []" by (simp add: progress_cur_def encodeCursor_def)
  have "records_page Some (calm 0 []) ''u'' 1 [] ?rows = Some ([cw_row ''e2'' 1000002000], progress_cur (cw_row ''e2'' 1000002000))"
    by (simp add: records_page_def progress_List_def decodeCursor_def order_by_desc_def cw_row_def list_key_def)
  moreover have "records_page Some (calm 0 []) ''u'' 1 (progress_cur (cw_row ''e2'' 1000002000)) ?rows = Some ([], [])"
    unfolding records_page_def progress_List_def d
    by (simp add: order_by_desc_def cw_row_def list_key_def ms_def)
  moreover have "prEpisodeID (cw_row ''e2'' t) = ''e2''" for t by (simp add: cw_row_def)
  ultimately show ?thesis using ne by (simp add: eval_nat_numeral)
qed

end
