(* ===== verification/Activity_Consumer.thy ===== *)
theory Activity_Consumer
  imports Activity
begin

text \<open>
  The batch consumer of progress events (services/activity/internal/worker/progress_consumer.go). Unlike the
  comment consumer its error branches leave the message loop. \<open>dec\<close> is the JSON decoding of a message,
  \<open>uuid_of\<close> the driver's reading of identifier text, \<open>ts_ok\<close> the database's acceptance of timestamp text.
\<close>

section \<open>State\<close>

record progress_event =
  peEventID :: string
  peUserID :: string
  peAnimeID :: string
  peEpisodeID :: string
  pePosition :: i32
  peClientTsMs :: int
  peCreatedAt :: string

record progress_env =
  peDecode :: "string \<Rightarrow> progress_event option"
  peUuid :: "string \<Rightarrow> uuid option"
  peTsOk :: "string \<Rightarrow> bool"

record activity_db =
  aRows :: "progress_record list"
  aProcessed :: "string list option"

datatype progress_tx = TxOpen activity_db | TxClosed | TxNil

record progress_batch =
  pbDb :: activity_db
  pbTx :: progress_tx
  pbFailed :: bool
  pbEarlyAcks :: "string list"

section \<open>Operations\<close>

definition event_record :: "time \<Rightarrow> uuid \<Rightarrow> uuid \<Rightarrow> progress_event \<Rightarrow> progress_record" where
  "event_record t u e ev = \<lparr>prUserID = u, prEpisodeID = e, prPositionSeconds = sint (pePosition ev),
     prDurationSeconds = 0, prCompleted = False, prClientTsMs = peClientTsMs ev, prUpdatedAt = pg_time t\<rparr>"

definition applyProgressUpsert :: "progress_env \<Rightarrow> ctx \<Rightarrow> progress_event \<Rightarrow> activity_db \<Rightarrow> activity_db option" where
  "applyProgressUpsert P x ev w =
     (case (peUuid P (peUserID ev), peUuid P (peEpisodeID ev)) of
        (Some u, Some e) \<Rightarrow>
          if fault x 0 then None
          else Some (w\<lparr>aRows := snd (progress_upsert_sql (event_record (now x) u e ev) (aRows w))\<rparr>)
      | _ \<Rightarrow> None)"

text \<open>A transaction of its own: begin, the upsert, commit.\<close>

definition applyProgressWithoutIdempotency ::
  "progress_env \<Rightarrow> ctx \<Rightarrow> progress_event \<Rightarrow> activity_db \<Rightarrow> bool \<times> activity_db" where
  "applyProgressWithoutIdempotency P x ev db =
     (if fault x 0 then (False, db)
      else
        (case applyProgressUpsert P (stmt_ctx x 1) ev db of
           None \<Rightarrow> (False, db)
         | Some db' \<Rightarrow> if fault x 2 then (False, db) else (True, db')))"

text \<open>The message loop over the open transaction \<open>w\<close>; a recursive call is \<open>continue\<close>, a result is \<open>break\<close> or the end.\<close>

fun progress_loop ::
  "progress_env \<Rightarrow> (nat \<Rightarrow> ctx) \<Rightarrow> (nat \<times> string) list \<Rightarrow> activity_db \<Rightarrow> activity_db \<Rightarrow> bool \<Rightarrow> string list \<Rightarrow> progress_batch" where
  "progress_loop P xs [] db w failed acks = \<lparr>pbDb = db, pbTx = TxOpen w, pbFailed = failed, pbEarlyAcks = acks\<rparr>"
| "progress_loop P xs ((i, m) # msgs) db w failed acks =
     (case peDecode P m of
        None \<Rightarrow> \<lparr>pbDb = db, pbTx = TxOpen w, pbFailed = True, pbEarlyAcks = acks\<rparr>
      | Some ev \<Rightarrow>
          (case aProcessed w of
             None \<Rightarrow>
               let (ok, db') = applyProgressWithoutIdempotency P (stmt_ctx (xs i) 2) ev db;
                   failed' = (failed \<or> \<not> ok);
                   acks' = (if failed' then acks else acks @ [m])
               in if fault (xs i) 9 then \<lparr>pbDb = db', pbTx = TxNil, pbFailed = True, pbEarlyAcks = acks'\<rparr>
                  else progress_loop P xs msgs db' db' failed' acks'
           | Some ids \<Rightarrow>
               if fault (xs i) 0 \<or> \<not> peTsOk P (peCreatedAt ev)
               then \<lparr>pbDb = db, pbTx = TxClosed, pbFailed = True, pbEarlyAcks = acks\<rparr>
               else if peEventID ev \<in> set ids then progress_loop P xs msgs db w failed acks
               else
                 (case applyProgressUpsert P (stmt_ctx (xs i) 1) ev (w\<lparr>aProcessed := Some (ids @ [peEventID ev])\<rparr>) of
                    None \<Rightarrow> \<lparr>pbDb = db, pbTx = TxClosed, pbFailed = True, pbEarlyAcks = acks\<rparr>
                  | Some w' \<Rightarrow> progress_loop P xs msgs db w' failed acks)))"

datatype progress_verdict = AckMsgs | NakMsgs | NilPanic

definition consume_progress ::
  "progress_env \<Rightarrow> ctx \<Rightarrow> (nat \<Rightarrow> ctx) \<Rightarrow> string list \<Rightarrow> activity_db \<Rightarrow> progress_verdict \<times> activity_db" where
  "consume_progress P y xs msgs db =
     (if fault y 0 then (NakMsgs, db)
      else
        let b = progress_loop P xs (enumerate 0 msgs) db db False []
        in if pbFailed b then (case pbTx b of TxNil \<Rightarrow> (NilPanic, pbDb b) | _ \<Rightarrow> (NakMsgs, pbDb b))
           else
             (case pbTx b of
                TxOpen w \<Rightarrow> if fault y 1 then (NakMsgs, pbDb b) else (AckMsgs, w)
              | TxClosed \<Rightarrow> (NakMsgs, pbDb b)
              | TxNil \<Rightarrow> (NilPanic, pbDb b)))"

section \<open>The loop with the table of processed events present\<close>

lemma apply_processed: "applyProgressUpsert P x ev w = Some w' \<Longrightarrow> aProcessed w' = aProcessed w"
  by (auto simp: applyProgressUpsert_def split: option.splits if_splits)

lemma loop_normal:
  assumes "aProcessed w = Some ids" "b = progress_loop P xs mm db w False acks"
  shows "pbDb b = db \<and> pbTx b \<noteq> TxNil \<and> (\<not> pbFailed b \<longrightarrow> (\<exists>w' ids'. pbTx b = TxOpen w' \<and> aProcessed w' = Some ids' \<and>
    set ids \<subseteq> set ids' \<and> (\<forall>(i, m) \<in> set mm. \<exists>ev. peDecode P m = Some ev \<and> peEventID ev \<in> set ids')))"
  using assms
proof (induction mm arbitrary: w ids)
  case (Cons a mm)
  obtain i m where a: "a = (i, m)" by fastforce
  show ?case
  proof (cases "peDecode P m")
    case None
    with Cons.prems a show ?thesis by simp
  next
    case (Some ev)
    let ?w = "w\<lparr>aProcessed := Some (ids @ [peEventID ev])\<rparr>"
    consider (fail) "fault (xs i) 0 \<or> \<not> peTsOk P (peCreatedAt ev)"
      | (seen) "\<not> (fault (xs i) 0 \<or> \<not> peTsOk P (peCreatedAt ev))" "peEventID ev \<in> set ids"
      | (new) "\<not> (fault (xs i) 0 \<or> \<not> peTsOk P (peCreatedAt ev))" "peEventID ev \<notin> set ids" by blast
    then show ?thesis
    proof cases
      case fail
      with Cons.prems a Some show ?thesis by auto
    next
      case seen
      with Cons.prems a Some have "b = progress_loop P xs mm db w False acks" by simp
      from Cons.IH [OF Cons.prems(1) this] seen(2) Some a show ?thesis by auto
    next
      case new
      show ?thesis
      proof (cases "applyProgressUpsert P (stmt_ctx (xs i) 1) ev ?w")
        case None
        with new Cons.prems a Some show ?thesis by simp
      next
        case w': (Some w')
        have p: "aProcessed w' = Some (ids @ [peEventID ev])" using apply_processed [OF w'] by simp
        from new Cons.prems a Some w' have "b = progress_loop P xs mm db w' False acks" by simp
        from Cons.IH [OF p this] Some a show ?thesis by auto
      qed
    qed
  qed
qed auto

lemma loop_seen:
  assumes "aProcessed w = Some ids" "\<forall>(i, m) \<in> set mm. \<exists>ev. peDecode P m = Some ev \<and> peEventID ev \<in> set ids"
    and "b = progress_loop P xs mm db w False acks" "\<not> pbFailed b"
  shows "pbTx b = TxOpen w"
  using assms(2-4)
proof (induction mm)
  case (Cons a mm)
  obtain i m where a: "a = (i, m)" by fastforce
  with Cons assms(1) show ?case by (auto split: option.splits if_splits)
qed simp

text \<open>
  Each progress event is applied once: a batch is acknowledged as a whole or leaves the database unchanged, and
  after it was acknowledged no redelivery of any of its messages changes anything.
\<close>

theorem consume_progress_once:
  assumes "aProcessed db = Some ids"
  shows "(fst (consume_progress P y xs msgs db) \<noteq> AckMsgs \<longrightarrow> consume_progress P y xs msgs db = (NakMsgs, db)) \<and>
    (\<forall>db' y' xs' msgs'. consume_progress P y xs msgs db = (AckMsgs, db') \<and> set msgs' \<subseteq> set msgs \<longrightarrow>
       snd (consume_progress P y' xs' msgs' db') = db')"
proof (intro conjI allI impI)
  let ?b = "progress_loop P xs (enumerate 0 msgs) db db False []"
  note n = loop_normal [OF assms refl, of P xs "enumerate 0 msgs" db "[]"]
  show "consume_progress P y xs msgs db = (NakMsgs, db)" if "fst (consume_progress P y xs msgs db) \<noteq> AckMsgs"
    using that n by (cases "pbTx ?b") (auto simp: consume_progress_def Let_def split: if_splits)
  fix db' y' xs' msgs'
  assume r: "consume_progress P y xs msgs db = (AckMsgs, db') \<and> set msgs' \<subseteq> set msgs"
  then have "\<not> pbFailed ?b" "pbTx ?b = TxOpen db'"
    using n by (auto simp: consume_progress_def Let_def split: if_splits progress_tx.splits)
  with n obtain ids' where i: "aProcessed db' = Some ids'"
    "\<forall>(i, m) \<in> set (enumerate 0 msgs). \<exists>ev. peDecode P m = Some ev \<and> peEventID ev \<in> set ids'" by auto
  have "\<exists>ev. peDecode P m = Some ev \<and> peEventID ev \<in> set ids'" if "m \<in> set msgs" for m
  proof -
    from that have "m \<in> snd ` set (enumerate 0 msgs)" by (metis list.set_map map_snd_enumerate)
    with i(2) show ?thesis by auto
  qed
  then have s: "\<forall>(i, m) \<in> set (enumerate 0 msgs'). \<exists>ev. peDecode P m = Some ev \<and> peEventID ev \<in> set ids'"
    using r by (auto dest!: in_set_enumerate_eq [THEN iffD1]) (meson nth_mem subsetD)
  let ?b' = "progress_loop P xs' (enumerate 0 msgs') db' db' False []"
  have "pbDb ?b' = db'" "pbTx ?b' \<noteq> TxNil" using loop_normal [OF i(1) refl, of P xs' "enumerate 0 msgs'" db' "[]"] by auto
  moreover have "\<not> pbFailed ?b' \<Longrightarrow> pbTx ?b' = TxOpen db'" using loop_seen [OF i(1) s refl] .
  ultimately show "snd (consume_progress P y' xs' msgs' db') = db'"
    by (cases "pbTx ?b'") (auto simp: consume_progress_def Let_def split: if_splits)
qed

definition demo_penv :: progress_env where
  "demo_penv = \<lparr>peDecode = (\<lambda>d. Some \<lparr>peEventID = d, peUserID = ''u'', peAnimeID = [], peEpisodeID = ''e'',
     pePosition = 30, peClientTsMs = 5, peCreatedAt = []\<rparr>), peUuid = Some, peTsOk = (\<lambda>_. True)\<rparr>"

theorem consume_progress_once_witness:
  "\<exists>db'. consume_progress demo_penv (calm 0 []) (\<lambda>_. calm 0 []) [''m1''] \<lparr>aRows = [], aProcessed = Some []\<rparr> = (AckMsgs, db') \<and>
     snd (consume_progress demo_penv (calm 0 []) (\<lambda>_. calm 0 []) [''m1'', ''m1''] db') = db'"
proof -
  let ?db = "\<lparr>aRows = [], aProcessed = Some []\<rparr>"
  have "\<exists>db'. consume_progress demo_penv (calm 0 []) (\<lambda>_. calm 0 []) [''m1''] ?db = (AckMsgs, db')"
    by (simp add: consume_progress_def demo_penv_def applyProgressUpsert_def stmt_ctx_def Let_def)
  then obtain db' where r: "consume_progress demo_penv (calm 0 []) (\<lambda>_. calm 0 []) [''m1''] ?db = (AckMsgs, db')" by blast
  have p: "aProcessed ?db = Some []" by simp
  from consume_progress_once [OF p, of demo_penv "calm 0 []" "\<lambda>_. calm 0 []" "[''m1'']"] r show ?thesis by auto
qed

end
