(* ===== verification/Auth_Store.thy ===== *)
theory Auth_Store
  imports Keyset Api
begin

text \<open>
  Persistence of the auth service (services/auth/internal/store, bootstrap): the tables \<open>users\<close> and
  \<open>refresh_sessions\<close> of services/auth/migrations with their unique indexes. The database's \<open>lower()\<close> is the parameter
  \<open>lower\<close> and its reading of identifier text \<open>uuid_of\<close>. The interface a session client relies on is
  the locale \<open>session_store\<close>.
\<close>

section \<open>Data\<close>

record user =
  uID :: uuid
  uEmail :: string
  uUsername :: string
  uRole :: string
  uCreatedAt :: time

record user_row =
  urUser :: user
  urPasswordHash :: string

record refresh_session =
  rsID :: uuid
  rsUserID :: uuid
  rsTokenHash :: string
  rsExpiresAt :: time
  rsCreatedAt :: time
  rsRevokedAt :: "time option"
  rsReplacedBy :: "uuid option"
  rsUserAgent :: "string option"
  rsIP :: "string option"

record auth_db =
  dbUsers :: "user_row list"
  dbSessions :: "refresh_session list"

datatype auth_error = ErrConflict | ErrNotFound | ErrOther

section \<open>Users\<close>

text \<open>The two unique indexes are on \<open>lower(email)\<close> and \<open>lower(username)\<close>.\<close>

definition CreateUser ::
  "(string \<Rightarrow> string) \<Rightarrow> ctx \<Rightarrow> string \<Rightarrow> string \<Rightarrow> string \<Rightarrow> auth_db \<Rightarrow> (auth_error + user) \<times> auth_db" where
  "CreateUser lower x email username hash db =
     (if fault x 0 then (Inl ErrOther, db)
      else if (\<exists>r \<in> set (dbUsers db). uID (urUser r) = fresh x \<or> lower (uEmail (urUser r)) = lower email \<or>
                 lower (uUsername (urUser r)) = lower username)
      then (Inl ErrConflict, db)
      else
        let u = \<lparr>uID = fresh x, uEmail = email, uUsername = username, uRole = ''user'', uCreatedAt = now x\<rparr>
        in (Inr u, db\<lparr>dbUsers := dbUsers db @ [\<lparr>urUser = u, urPasswordHash = hash\<rparr>]\<rparr>))"

definition FindUserByLogin :: "(string \<Rightarrow> string) \<Rightarrow> ctx \<Rightarrow> string \<Rightarrow> auth_db \<Rightarrow> auth_error + user_row" where
  "FindUserByLogin lower x login db =
     (let login = trim_space login
      in if login = [] then Inl ErrNotFound
         else if fault x 0 then Inl ErrOther
         else
           (case List.find (\<lambda>r. lower (uEmail (urUser r)) = lower login \<or> lower (uUsername (urUser r)) = lower login)
                   (dbUsers db) of
              None \<Rightarrow> Inl ErrNotFound
            | Some r \<Rightarrow> Inr r))"

definition GetUserByID :: "(string \<Rightarrow> uuid option) \<Rightarrow> ctx \<Rightarrow> string \<Rightarrow> auth_db \<Rightarrow> auth_error + user" where
  "GetUserByID uuid_of x userID db =
     (case uuid_of userID of
        None \<Rightarrow> Inl ErrOther
      | Some k \<Rightarrow>
          if fault x 0 then Inl ErrOther
          else (case row_by (\<lambda>r. uID (urUser r)) k (dbUsers db) of None \<Rightarrow> Inl ErrNotFound | Some r \<Rightarrow> Inr (urUser r)))"

definition SetUserRoleByID :: "ctx \<Rightarrow> uuid \<Rightarrow> string \<Rightarrow> auth_db \<Rightarrow> (auth_error + unit) \<times> auth_db" where
  "SetUserRoleByID x userID role db =
     (if fault x 0 then (Inl ErrOther, db)
      else (Inr (), db\<lparr>dbUsers := fst (sql_update (\<lambda>r. uID (urUser r) = userID)
              (\<lambda>r. r\<lparr>urUser := (urUser r)\<lparr>uRole := role\<rparr>\<rparr>) (dbUsers db))\<rparr>))"

text \<open>\<open>table_missing\<close> is Postgres error 42P01, which the bootstrap tolerates.\<close>

definition PromoteAdmin ::
  "(string \<Rightarrow> string) \<Rightarrow> ctx \<Rightarrow> bool \<Rightarrow> string \<Rightarrow> auth_db \<Rightarrow> (auth_error + unit) \<times> auth_db" where
  "PromoteAdmin lower x table_missing username db =
     (let username = trim_space username
      in if username = [] then (Inr (), db)
         else if table_missing then (Inr (), db)
         else if fault x 0 then (Inl ErrOther, db)
         else (Inr (), db\<lparr>dbUsers := fst (sql_update (\<lambda>r. lower (uUsername (urUser r)) = lower username)
                 (\<lambda>r. r\<lparr>urUser := (urUser r)\<lparr>uRole := ''admin''\<rparr>\<rparr>) (dbUsers db))\<rparr>))"

section \<open>Refresh sessions\<close>

definition nullableString :: "string \<Rightarrow> string option" where
  "nullableString s = (let s = trim_space s in if s = [] then None else Some s)"

record session_params =
  spSessionID :: uuid
  spUserID :: uuid
  spTokenHash :: string
  spExpiresAt :: time
  spUserAgent :: string
  spIP :: "string option"
  spNow :: time

definition CreateRefreshSession :: "ctx \<Rightarrow> session_params \<Rightarrow> auth_db \<Rightarrow> (auth_error + unit) \<times> auth_db" where
  "CreateRefreshSession x p db =
     (if fault x 0 \<or> spUserID p \<notin> (\<lambda>r. uID (urUser r)) ` set (dbUsers db) then (Inl ErrOther, db)
      else if (\<exists>s \<in> set (dbSessions db). rsID s = spSessionID p \<or> rsTokenHash s = spTokenHash p) then (Inl ErrConflict, db)
      else (Inr (), db\<lparr>dbSessions := dbSessions db @
              [\<lparr>rsID = spSessionID p, rsUserID = spUserID p, rsTokenHash = spTokenHash p, rsExpiresAt = spExpiresAt p,
                rsCreatedAt = spNow p, rsRevokedAt = None, rsReplacedBy = None,
                rsUserAgent = nullableString (spUserAgent p), rsIP = spIP p\<rparr>]\<rparr>))"

definition GetRefreshSessionByHash :: "ctx \<Rightarrow> string \<Rightarrow> auth_db \<Rightarrow> auth_error + refresh_session" where
  "GetRefreshSessionByHash x hash db =
     (if fault x 0 then Inl ErrOther
      else (case row_by rsTokenHash hash (dbSessions db) of None \<Rightarrow> Inl ErrNotFound | Some s \<Rightarrow> Inr s))"

definition RevokeRefreshSession :: "ctx \<Rightarrow> uuid \<Rightarrow> time \<Rightarrow> auth_db \<Rightarrow> (auth_error + unit) \<times> auth_db" where
  "RevokeRefreshSession x sessionID t db =
     (if fault x 0 then (Inl ErrOther, db)
      else (Inr (), db\<lparr>dbSessions := fst (sql_update (\<lambda>s. rsID s = sessionID \<and> rsRevokedAt s = None)
              (\<lambda>s. s\<lparr>rsRevokedAt := Some t\<rparr>) (dbSessions db))\<rparr>))"

definition ReplaceRefreshSession :: "ctx \<Rightarrow> uuid \<Rightarrow> uuid \<Rightarrow> time \<Rightarrow> auth_db \<Rightarrow> (auth_error + unit) \<times> auth_db" where
  "ReplaceRefreshSession x oldID newID t db =
     (if fault x 0 then (Inl ErrOther, db)
      else (Inr (), db\<lparr>dbSessions := fst (sql_update (\<lambda>s. rsID s = oldID \<and> rsRevokedAt s = None)
              (\<lambda>s. s\<lparr>rsRevokedAt := Some t, rsReplacedBy := Some newID\<rparr>) (dbSessions db))\<rparr>))"

definition sessions_inv :: "auth_db \<Rightarrow> bool" where
  "sessions_inv db \<longleftrightarrow> distinct (map rsID (dbSessions db)) \<and> distinct (map rsTokenHash (dbSessions db))"

definition session_of :: "auth_db \<Rightarrow> string \<Rightarrow> refresh_session option" where
  "session_of db hash = row_by rsTokenHash hash (dbSessions db)"

section \<open>What a client of the sessions relies on\<close>

text \<open>
  \<open>sess db hash\<close> is the session of a token hash. Creating adds one, revoking and replacing only ever move
  sessions from live to revoked, and a session that is revoked never becomes live again.
\<close>

locale session_store =
  fixes sess :: "'db \<Rightarrow> string \<Rightarrow> refresh_session option"
    and create :: "ctx \<Rightarrow> session_params \<Rightarrow> 'db \<Rightarrow> (auth_error + unit) \<times> 'db"
    and revoke :: "ctx \<Rightarrow> uuid \<Rightarrow> time \<Rightarrow> 'db \<Rightarrow> (auth_error + unit) \<times> 'db"
    and replace :: "ctx \<Rightarrow> uuid \<Rightarrow> uuid \<Rightarrow> time \<Rightarrow> 'db \<Rightarrow> (auth_error + unit) \<times> 'db"
    and inv :: "'db \<Rightarrow> bool"
  assumes inv_ops: "inv db \<Longrightarrow> inv (snd (create x p db))" "inv db \<Longrightarrow> inv (snd (revoke x i t db))"
      "inv db \<Longrightarrow> inv (snd (replace x i j t db))"
    and create_keeps: "inv db \<Longrightarrow> sess db h = Some s \<Longrightarrow> sess (snd (create x p db)) h = Some s"
    and create_ok: "inv db \<Longrightarrow> fst (create x p db) = Inr () \<Longrightarrow>
      sess db (spTokenHash p) = None \<and>
      (\<exists>s. sess (snd (create x p db)) (spTokenHash p) = Some s \<and> rsRevokedAt s = None \<and> rsUserID s = spUserID p)"
    and revoke_at: "inv db \<Longrightarrow> fst (revoke x i t db) = Inr () \<Longrightarrow> sess db h = Some s \<Longrightarrow> rsID s = i \<Longrightarrow>
      \<exists>s' r. sess (snd (revoke x i t db)) h = Some s' \<and> rsRevokedAt s' = Some r"
    and replace_at: "inv db \<Longrightarrow> fst (replace x i j t db) = Inr () \<Longrightarrow> sess db h = Some s \<Longrightarrow> rsID s = i \<Longrightarrow>
      \<exists>s' r. sess (snd (replace x i j t db)) h = Some s' \<and> rsRevokedAt s' = Some r"
    and revoked_stays: "inv db \<Longrightarrow> sess db h = Some s \<Longrightarrow> rsRevokedAt s = Some r \<Longrightarrow> sess (snd (revoke x i t db)) h = Some s"
      "inv db \<Longrightarrow> sess db h = Some s \<Longrightarrow> rsRevokedAt s = Some r \<Longrightarrow> sess (snd (replace x i j t db)) h = Some s"
begin

definition dead :: "'db \<Rightarrow> string \<Rightarrow> bool" where
  "dead db h \<longleftrightarrow> (\<exists>s r. sess db h = Some s \<and> rsRevokedAt s = Some r)"

lemma dead_stays:
  assumes "inv db" "dead db h"
  shows "dead (snd (create x p db)) h" "dead (snd (revoke x i t db)) h" "dead (snd (replace x i j t db)) h"
proof -
  from assms(2) obtain s r where s: "sess db h = Some s" "rsRevokedAt s = Some r" by (auto simp: dead_def)
  show "dead (snd (create x p db)) h" using create_keeps [OF assms(1) s(1)] s(2) by (simp add: dead_def)
  show "dead (snd (revoke x i t db)) h" using revoked_stays(1) [OF assms(1) s] s(2) by (simp add: dead_def)
  show "dead (snd (replace x i j t db)) h" using revoked_stays(2) [OF assms(1) s] s(2) by (simp add: dead_def)
qed

lemma replaced_dead:
  "inv db \<Longrightarrow> fst (replace x i j t db) = Inr () \<Longrightarrow> sess db h = Some s \<Longrightarrow> rsID s = i \<Longrightarrow> dead (snd (replace x i j t db)) h"
  using replace_at unfolding dead_def by blast

lemma revoked_dead:
  "inv db \<Longrightarrow> fst (revoke x i t db) = Inr () \<Longrightarrow> sess db h = Some s \<Longrightarrow> rsID s = i \<Longrightarrow> dead (snd (revoke x i t db)) h"
  using revoke_at unfolding dead_def by blast

end

lemma session_update:
  assumes "sessions_inv db" "\<And>s. rsTokenHash (f s) = rsTokenHash s" "\<And>s. rsID (f s) = rsID s"
  shows "sessions_inv (db\<lparr>dbSessions := fst (sql_update hit f (dbSessions db))\<rparr>)"
    and "session_of (db\<lparr>dbSessions := fst (sql_update hit f (dbSessions db))\<rparr>) h =
      map_option (\<lambda>s. if hit s then f s else s) (session_of db h)"
proof -
  show "sessions_inv (db\<lparr>dbSessions := fst (sql_update hit f (dbSessions db))\<rparr>)"
    using assms sql_update_keys [of rsID f hit] sql_update_keys [of rsTokenHash f hit] by (simp add: sessions_inv_def)
  show "session_of (db\<lparr>dbSessions := fst (sql_update hit f (dbSessions db))\<rparr>) h =
      map_option (\<lambda>s. if hit s then f s else s) (session_of db h)"
    unfolding session_of_def sql_update_def using row_by_map [of rsTokenHash "\<lambda>s. if hit s then f s else s"] assms(2) by simp
qed

interpretation pg_sessions: session_store session_of CreateRefreshSession RevokeRefreshSession ReplaceRefreshSession sessions_inv
proof (unfold_locales, goal_cases)
  case (1 db x p)
  then show ?case by (auto simp: CreateRefreshSession_def sessions_inv_def)
next
  case (4 db h s x p)
  then show ?case by (auto simp: CreateRefreshSession_def session_of_def row_by_append)
next
  case (5 db x p)
  then show ?case
    by (auto simp: CreateRefreshSession_def session_of_def row_by_append row_by_None image_iff split: if_splits option.splits
        dest: row_by_Some)
next
  case (6 db x i t h s)
  then show ?case using session_update(2) [OF 6(1)] by (auto simp: RevokeRefreshSession_def split: if_splits)
next
  case (7 db x i j t h s)
  then show ?case using session_update(2) [OF 7(1)] by (auto simp: ReplaceRefreshSession_def split: if_splits)
qed (auto simp: RevokeRefreshSession_def ReplaceRefreshSession_def session_update)

end
