(* ===== verification/Auth_Service.thy ===== *)
theory Auth_Service
  imports Auth_Store Go_Base64
begin

text \<open>
  The auth service (services/auth/internal/grpc, tokens): registration, login, refresh-token rotation, logout
  and \<open>Me\<close>. Cryptography is a parameter: bcrypt, SHA-256 in hex, and the JWT library, as the record
  \<open>crypto\<close>; so are \<open>uuid.Parse\<close>, \<open>net.ParseIP\<close>, and of the database \<open>lower()\<close> and the reading of UUID text. Each call of a handler takes
  its environments \<open>xs i\<close> in the order of the store calls, and the 32 random bytes of a new refresh
  token, \<open>None\<close> when the random source fails.
\<close>

section \<open>Parameters\<close>

record access_claims =
  acSubject :: string
  acIssuedAt :: time
  acExpiresAt :: time
  acRole :: string

record crypto =
  bcryptHash :: "string \<Rightarrow> string option"
  bcryptOk :: "string \<Rightarrow> string \<Rightarrow> bool"
  sha256Hex :: "string \<Rightarrow> string"
  jwtSign :: "string \<Rightarrow> access_claims \<Rightarrow> string option"
  jwtParse :: "(string \<Rightarrow> string option) \<Rightarrow> string \<Rightarrow> (access_claims \<times> bool) option"
  uuidParse :: "string \<Rightarrow> uuid option"
  sqlUuid :: "string \<Rightarrow> uuid option"
  parseIP :: "string \<Rightarrow> string option"
  sqlLower :: "string \<Rightarrow> string"

record auth_config =
  cfgSecret :: string
  cfgAccessTTL :: int
  cfgRefreshTTL :: int
  cfgBootstrapAdmin :: string

section \<open>Errors and tokens\<close>

definition errInvalidArgument :: "string \<Rightarrow> string \<Rightarrow> (string \<times> string) list \<Rightarrow> grpc_status" where
  "errInvalidArgument code msg fvs =
     \<lparr>stCode = InvalidArgument, stMessage = msg, stDetails = [ErrorInfo code, BadRequestDetail fvs]\<rparr>"

definition errAlreadyExists :: "string \<Rightarrow> string \<Rightarrow> grpc_status" where
  "errAlreadyExists code msg = \<lparr>stCode = AlreadyExists, stMessage = msg, stDetails = [ErrorInfo code]\<rparr>"

definition errUnauthenticated :: "string \<Rightarrow> string \<Rightarrow> grpc_status" where
  "errUnauthenticated code msg = \<lparr>stCode = Unauthenticated, stMessage = msg, stDetails = [ErrorInfo code]\<rparr>"

definition errInternal :: "string \<Rightarrow> string \<Rightarrow> grpc_status" where
  "errInternal code msg = \<lparr>stCode = InternalCode, stMessage = msg, stDetails = [ErrorInfo code]\<rparr>"

text \<open>The zero \<open>time.Time\<close>, January 1 of year 1, in nanoseconds of the Unix epoch.\<close>

definition zero_time :: time where
  "zero_time = -62135596800000000000"

definition NewAccessToken ::
  "crypto \<Rightarrow> auth_config \<Rightarrow> string \<Rightarrow> string \<Rightarrow> time \<Rightarrow> time \<Rightarrow> (string \<times> time) option" where
  "NewAccessToken cr cfg userID role t clock =
     (if cfgSecret cfg = [] then None
      else
        let t = (if t = zero_time then clock else t);
            e = t + cfgAccessTTL cfg
        in (case jwtSign cr (cfgSecret cfg) \<lparr>acSubject = userID, acIssuedAt = t, acExpiresAt = e, acRole = role\<rparr> of
              None \<Rightarrow> None
            | Some tok \<Rightarrow> Some (tok, e)))"

definition ParseAccessToken :: "crypto \<Rightarrow> auth_config \<Rightarrow> string \<Rightarrow> access_claims option" where
  "ParseAccessToken cr cfg token =
     (case jwtParse cr (\<lambda>alg. if alg \<noteq> ''HS256'' then None else Some (cfgSecret cfg)) token of
        None \<Rightarrow> None
      | Some (c, valid) \<Rightarrow> if \<not> valid then None else Some c)"

definition NewRefreshToken :: "crypto \<Rightarrow> string option \<Rightarrow> (string \<times> string) option" where
  "NewRefreshToken cr bytes =
     (case bytes of
        None \<Rightarrow> None
      | Some b \<Rightarrow> let raw = b64_encode False b in Some (raw, sha256Hex cr raw))"

text \<open>\<open>int64(d.Seconds())\<close>: whole seconds, towards zero.\<close>

definition whole_seconds :: "int \<Rightarrow> int" where
  "whole_seconds d = (if d < 0 then - (- d div 1000000000) else d div 1000000000)"

section \<open>Validation and metadata\<close>

definition username_char :: "char \<Rightarrow> bool" where
  "username_char c \<longleftrightarrow>
     (let n = (of_char c :: nat) in 97 \<le> n \<and> n \<le> 122 \<or> 65 \<le> n \<and> n \<le> 90 \<or> 48 \<le> n \<and> n \<le> 57 \<or> n = 95)"

definition isValidUsername :: "string \<Rightarrow> bool" where
  "isValidUsername s =
     (let s = trim_space s in 3 \<le> length s \<and> length s \<le> 32 \<and> (\<forall>c \<in> set s. username_char c))"

text \<open>The class \<open>[^\s@]\<close>: not one of the five ASCII spaces of \<open>\s\<close>, not the at sign.\<close>

definition email_char :: "char \<Rightarrow> bool" where
  "email_char c \<longleftrightarrow> c \<notin> {CHR 0x09, CHR 0x0A, CHR 0x0C, CHR 0x0D, CHR '' '', CHR ''@''}"

definition isValidEmail :: "string \<Rightarrow> bool" where
  "isValidEmail s =
     (let s = trim_space s
      in if 254 < length s then False
         else
           (case split_on CHR ''@'' s of
              [loc, dom'] \<Rightarrow>
                loc \<noteq> [] \<and> (\<forall>c \<in> set loc. email_char c) \<and> (\<forall>c \<in> set dom'. email_char c) \<and>
                list_ex (\<lambda>i. dom' ! i = CHR ''.'') [1..<length dom' - 1]
            | _ \<Rightarrow> False))"

type_synonym md = "string \<Rightarrow> string list"

definition first :: "string list \<Rightarrow> string" where
  "first v = (case v of [] \<Rightarrow> [] | a # _ \<Rightarrow> a)"

definition clientIPFromMD :: "crypto \<Rightarrow> md \<Rightarrow> string option" where
  "clientIPFromMD cr m =
     (let xff = first (m ''x-forwarded-for'')
      in if xff = [] then None else parseIP cr (trim_space (hd (split_on CHR '','' xff))))"

definition userAgentFromMD :: "md \<Rightarrow> string" where
  "userAgentFromMD m = (let ua = first (m ''user-agent'') in if ua = [] then first (m ''user-agent'') else ua)"

section \<open>Handlers\<close>

record auth_response =
  arUser :: user
  arAccessToken :: string
  arRefreshToken :: string
  arExpiresIn :: int

definition nil_uuid :: uuid where
  "nil_uuid = ''00000000-0000-0000-0000-000000000000''"

definition issueTokens ::
  "crypto \<Rightarrow> auth_config \<Rightarrow> ctx \<Rightarrow> time \<Rightarrow> string option \<Rightarrow> user \<Rightarrow> string option \<Rightarrow> string \<Rightarrow> auth_db \<Rightarrow> auth_response option \<times> auth_db" where
  "issueTokens cr cfg x later bytes u ip userAgent db =
     (let t = now x
      in case NewAccessToken cr cfg (uID u) (uRole u) t later of
           None \<Rightarrow> (None, db)
         | Some (access, e) \<Rightarrow>
             (case NewRefreshToken cr bytes of
                None \<Rightarrow> (None, db)
              | Some (raw, hash) \<Rightarrow>
                  let userID = (case uuidParse cr (uID u) of None \<Rightarrow> nil_uuid | Some i \<Rightarrow> i)
                  in (case CreateRefreshSession x
                        \<lparr>spSessionID = fresh x, spUserID = userID, spTokenHash = hash, spExpiresAt = t + cfgRefreshTTL cfg,
                          spUserAgent = userAgent, spIP = ip, spNow = t\<rparr> db of
                        (Inl e', db') \<Rightarrow> (None, db')
                      | (Inr _, db') \<Rightarrow>
                          (Some \<lparr>arUser = u, arAccessToken = access, arRefreshToken = raw,
                             arExpiresIn = whole_seconds (e - later)\<rparr>, db'))))"

definition Register ::
  "crypto \<Rightarrow> auth_config \<Rightarrow> (nat \<Rightarrow> ctx) \<Rightarrow> string option \<Rightarrow> md \<Rightarrow> string \<Rightarrow> string \<Rightarrow> string \<Rightarrow> auth_db \<Rightarrow>
   (grpc_status + auth_response) \<times> auth_db" where
  "Register cr cfg xs bytes m req_email req_username password db =
     (let email = trim_space req_email; username = trim_space req_username
      in if \<not> isValidEmail email
         then (Inl (errInvalidArgument ''VALIDATION_EMAIL'' ''Invalid email'' [(''email'', ''invalid'')]), db)
         else if \<not> isValidUsername username
         then (Inl (errInvalidArgument ''VALIDATION_USERNAME'' ''Invalid username'' [(''username'', ''invalid'')]), db)
         else if length password < 8
         then (Inl (errInvalidArgument ''VALIDATION_PASSWORD'' ''Password too short'' [(''password'', ''min length 8'')]), db)
         else
           (case bcryptHash cr password of
              None \<Rightarrow> (Inl (errInternal ''INTERNAL'' ''Internal error''), db)
            | Some hash \<Rightarrow>
                (case CreateUser (sqlLower cr) (xs 0) email username hash db of
                   (Inl ErrConflict, db1) \<Rightarrow> (Inl (errAlreadyExists ''USER_ALREADY_EXISTS'' ''User already exists''), db1)
                 | (Inl e, db1) \<Rightarrow> (Inl (errInternal ''INTERNAL'' ''Internal error''), db1)
                 | (Inr u, db1) \<Rightarrow>
                     let (u, db2) =
                           (if equal_fold (trim_space (cfgBootstrapAdmin cfg)) (uUsername u) \<and> cfgBootstrapAdmin cfg \<noteq> []
                            then (case uuidParse cr (uID u) of
                                    None \<Rightarrow> (u, db1)
                                  | Some i \<Rightarrow> (u\<lparr>uRole := ''admin''\<rparr>, snd (SetUserRoleByID (xs 1) i ''admin'' db1)))
                            else (u, db1))
                     in (case issueTokens cr cfg (xs 2) (now (xs 3)) bytes u (clientIPFromMD cr m) (userAgentFromMD m) db2 of
                           (None, db3) \<Rightarrow> (Inl (errInternal ''INTERNAL'' ''Internal error''), db3)
                         | (Some resp, db3) \<Rightarrow> (Inr resp, db3)))))"

definition Login ::
  "crypto \<Rightarrow> auth_config \<Rightarrow> (nat \<Rightarrow> ctx) \<Rightarrow> string option \<Rightarrow> md \<Rightarrow> string \<Rightarrow> string \<Rightarrow> auth_db \<Rightarrow>
   (grpc_status + auth_response) \<times> auth_db" where
  "Login cr cfg xs bytes m req_login password db =
     (let login = trim_space req_login
      in if login = []
         then (Inl (errInvalidArgument ''VALIDATION_LOGIN'' ''Login is required'' [(''login'', ''required'')]), db)
         else if password = []
         then (Inl (errInvalidArgument ''VALIDATION_PASSWORD'' ''Password is required'' [(''password'', ''required'')]), db)
         else
           (case FindUserByLogin (sqlLower cr) (xs 0) login db of
              Inl e \<Rightarrow> (Inl (errUnauthenticated ''AUTH_INVALID_CREDENTIALS'' ''Invalid credentials''), db)
            | Inr row \<Rightarrow>
                if \<not> bcryptOk cr (urPasswordHash row) password
                then (Inl (errUnauthenticated ''AUTH_INVALID_CREDENTIALS'' ''Invalid credentials''), db)
                else
                  (case issueTokens cr cfg (xs 2) (now (xs 3)) bytes (urUser row) (clientIPFromMD cr m) (userAgentFromMD m) db of
                     (None, db') \<Rightarrow> (Inl (errInternal ''INTERNAL'' ''Internal error''), db')
                   | (Some resp, db') \<Rightarrow> (Inr resp, db'))))"

text \<open>
  \<open>Refresh\<close> in the two halves the database sees: \<open>refresh_check\<close> reads the session and prepares the new tokens,
  \<open>refresh_write\<close> replaces the old session and creates the new one.
\<close>

record refresh_plan =
  rpSession :: refresh_session
  rpUser :: user
  rpAccess :: string
  rpExpires :: time
  rpRaw :: string
  rpHash :: string
  rpNewID :: uuid
  rpNow :: time

definition refresh_check ::
  "crypto \<Rightarrow> auth_config \<Rightarrow> (nat \<Rightarrow> ctx) \<Rightarrow> string option \<Rightarrow> string \<Rightarrow> auth_db \<Rightarrow> grpc_status + refresh_plan" where
  "refresh_check cr cfg xs bytes req_token db =
     (let raw = trim_space req_token
      in if raw = []
         then Inl (errInvalidArgument ''VALIDATION_REFRESH_TOKEN'' ''refresh_token is required'' [(''refresh_token'', ''required'')])
         else
           (case GetRefreshSessionByHash (xs 0) (sha256Hex cr raw) db of
              Inl e \<Rightarrow> Inl (errUnauthenticated ''AUTH_INVALID_REFRESH'' ''Invalid refresh token'')
            | Inr sess \<Rightarrow>
                let t = now (xs 1)
                in if rsRevokedAt sess \<noteq> None \<or> rsExpiresAt sess < t
                   then Inl (errUnauthenticated ''AUTH_INVALID_REFRESH'' ''Invalid refresh token'')
                   else
                     (case GetUserByID (sqlUuid cr) (xs 2) (rsUserID sess) db of
                        Inl e \<Rightarrow> Inl (errInternal ''INTERNAL'' ''Internal error'')
                      | Inr u \<Rightarrow>
                          (case NewAccessToken cr cfg (rsUserID sess) (uRole u) t (now (xs 2)) of
                             None \<Rightarrow> Inl (errInternal ''INTERNAL'' ''Internal error'')
                           | Some (access, e) \<Rightarrow>
                               (case NewRefreshToken cr bytes of
                                  None \<Rightarrow> Inl (errInternal ''INTERNAL'' ''Internal error'')
                                | Some (newRaw, newHash) \<Rightarrow>
                                    Inr \<lparr>rpSession = sess, rpUser = u, rpAccess = access, rpExpires = e, rpRaw = newRaw,
                                      rpHash = newHash, rpNewID = fresh (xs 3), rpNow = t\<rparr>)))))"

definition refresh_write ::
  "crypto \<Rightarrow> auth_config \<Rightarrow> (nat \<Rightarrow> ctx) \<Rightarrow> md \<Rightarrow> refresh_plan \<Rightarrow> auth_db \<Rightarrow> (grpc_status + auth_response) \<times> auth_db" where
  "refresh_write cr cfg xs m p db =
     (case ReplaceRefreshSession (xs 3) (rsID (rpSession p)) (rpNewID p) (rpNow p) db of
        (Inl e, db1) \<Rightarrow> (Inl (errInternal ''INTERNAL'' ''Internal error''), db1)
      | (Inr _, db1) \<Rightarrow>
          (case CreateRefreshSession (xs 4)
                  \<lparr>spSessionID = rpNewID p, spUserID = rsUserID (rpSession p), spTokenHash = rpHash p,
                    spExpiresAt = rpNow p + cfgRefreshTTL cfg, spUserAgent = userAgentFromMD m,
                    spIP = clientIPFromMD cr m, spNow = rpNow p\<rparr> db1 of
             (Inl e, db2) \<Rightarrow> (Inl (errInternal ''INTERNAL'' ''Internal error''), db2)
           | (Inr _, db2) \<Rightarrow>
               (Inr \<lparr>arUser = rpUser p, arAccessToken = rpAccess p, arRefreshToken = rpRaw p,
                  arExpiresIn = whole_seconds (rpExpires p - now (xs 5))\<rparr>, db2)))"

definition Refresh ::
  "crypto \<Rightarrow> auth_config \<Rightarrow> (nat \<Rightarrow> ctx) \<Rightarrow> string option \<Rightarrow> md \<Rightarrow> string \<Rightarrow> auth_db \<Rightarrow> (grpc_status + auth_response) \<times> auth_db" where
  "Refresh cr cfg xs bytes m req_token db =
     (case refresh_check cr cfg xs bytes req_token db of
        Inl e \<Rightarrow> (Inl e, db)
      | Inr p \<Rightarrow> refresh_write cr cfg xs m p db)"

definition Logout :: "crypto \<Rightarrow> (nat \<Rightarrow> ctx) \<Rightarrow> string \<Rightarrow> auth_db \<Rightarrow> (grpc_status + unit) \<times> auth_db" where
  "Logout cr xs req_token db =
     (let raw = trim_space req_token
      in if raw = []
         then (Inl (errInvalidArgument ''VALIDATION_REFRESH_TOKEN'' ''refresh_token is required'' [(''refresh_token'', ''required'')]), db)
         else
           (case GetRefreshSessionByHash (xs 0) (sha256Hex cr raw) db of
              Inl e \<Rightarrow> (Inr (), db)
            | Inr sess \<Rightarrow> (Inr (), snd (RevokeRefreshSession (xs 1) (rsID sess) (now (xs 1)) db))))"

record me_response =
  meUserId :: string
  meEmail :: string
  meUsername :: string

definition Me :: "crypto \<Rightarrow> auth_config \<Rightarrow> ctx \<Rightarrow> md \<Rightarrow> auth_db \<Rightarrow> grpc_status + me_response" where
  "Me cr cfg x m db =
     (let authz = first (m ''authorization'');
          authz = (if authz = [] then first (m ''authorization'') else authz);
          authz = trim_space authz
      in if authz = [] then Inl (errUnauthenticated ''AUTH_MISSING'' ''Missing bearer token'')
         else
           (case split_n 2 CHR '' '' authz of
              [scheme, rest] \<Rightarrow>
                if to_lower scheme \<noteq> ''bearer'' then Inl (errUnauthenticated ''AUTH_INVALID'' ''Invalid bearer token'')
                else
                  (case ParseAccessToken cr cfg (trim_space rest) of
                     None \<Rightarrow> Inl (errUnauthenticated ''AUTH_INVALID'' ''Invalid token'')
                   | Some c \<Rightarrow>
                       if trim_space (acSubject c) = [] then Inl (errUnauthenticated ''AUTH_INVALID'' ''Invalid token'')
                       else
                         (case GetUserByID (sqlUuid cr) x (acSubject c) db of
                            Inl e \<Rightarrow> Inr \<lparr>meUserId = acSubject c, meEmail = [], meUsername = []\<rparr>
                          | Inr u \<Rightarrow> Inr \<lparr>meUserId = uID u, meEmail = uEmail u, meUsername = uUsername u\<rparr>))
            | _ \<Rightarrow> Inl (errUnauthenticated ''AUTH_INVALID'' ''Invalid bearer token'')))"

end
