(* ===== verification/Auth_Rotation.thy ===== *)
theory Auth_Rotation
  imports Auth_Service
begin

text \<open>
  What the auth service promises about refresh tokens and credentials: along any sequence of
  requests a token is good for one refresh, logout ends it, the new token of a refresh works, and
  registered credentials log in. The last section is the interleaving of two refreshes of one
  token, statement by statement, as a step relation.
\<close>

section \<open>Sequences of requests\<close>

datatype auth_op =
    ARegister "nat \<Rightarrow> ctx" "string option" md string string string
  | ALogin "nat \<Rightarrow> ctx" "string option" md string string
  | ARefresh "nat \<Rightarrow> ctx" "string option" md string
  | ALogout "nat \<Rightarrow> ctx" string
  | APromote ctx bool string

fun exec_auth :: "crypto \<Rightarrow> auth_config \<Rightarrow> auth_op \<Rightarrow> auth_db \<Rightarrow> auth_db" where
  "exec_auth cr cfg (ARegister xs bytes m e u p) db = snd (Register cr cfg xs bytes m e u p db)"
| "exec_auth cr cfg (ALogin xs bytes m l p) db = snd (Login cr cfg xs bytes m l p db)"
| "exec_auth cr cfg (ARefresh xs bytes m t) db = snd (Refresh cr cfg xs bytes m t db)"
| "exec_auth cr cfg (ALogout xs t) db = snd (Logout cr xs t db)"
| "exec_auth cr cfg (APromote x tm u) db = snd (PromoteAdmin (sqlLower cr) x tm u db)"

abbreviation exec_auths :: "crypto \<Rightarrow> auth_config \<Rightarrow> auth_op list \<Rightarrow> auth_db \<Rightarrow> auth_db" where
  "exec_auths cr cfg ops db \<equiv> fold (exec_auth cr cfg) ops db"

text \<open>
  How one request changes the sessions: as a sequence of store calls. \<open>good\<close> is any property those calls keep.
\<close>

lemma same_sessions:
  assumes "dbSessions a = dbSessions b"
  shows "sessions_inv a = sessions_inv b" "session_of a = session_of b" "pg_sessions.dead a h = pg_sessions.dead b h"
  using assms by (simp_all add: sessions_inv_def session_of_def fun_eq_iff pg_sessions.dead_def)

definition kept :: "(auth_db \<Rightarrow> bool) \<Rightarrow> bool" where
  "kept good \<longleftrightarrow> (\<forall>a b. dbSessions a = dbSessions b \<longrightarrow> good a = good b) \<and>
     (\<forall>db x p. good db \<longrightarrow> good (snd (CreateRefreshSession x p db))) \<and>
     (\<forall>db x i t. good db \<longrightarrow> good (snd (RevokeRefreshSession x i t db))) \<and>
     (\<forall>db x i j t. good db \<longrightarrow> good (snd (ReplaceRefreshSession x i j t db)))"

lemma kept_issue: "kept good \<Longrightarrow> good db \<Longrightarrow> good (snd (issueTokens cr cfg x later bytes u ip ua db))"
proof -
  assume k: "kept good" and g: "good db"
  have "good db'" if "CreateRefreshSession x p db = (r, db')" for p r db'
    using k g that unfolding kept_def by (metis snd_conv)
  with g show ?thesis unfolding issueTokens_def Let_def by (auto split: option.splits prod.splits sum.splits)
qed

lemma kept_users:
  assumes "kept good" "good db"
  shows "good (snd (CreateUser lower x e u h db))" "good (snd (SetUserRoleByID x i r db))" "good (snd (PromoteAdmin lower x tm u' db))"
proof -
  have "dbSessions (snd (CreateUser lower x e u h db)) = dbSessions db" "dbSessions (snd (SetUserRoleByID x i r db)) = dbSessions db"
    "dbSessions (snd (PromoteAdmin lower x tm u' db)) = dbSessions db"
    by (simp_all add: CreateUser_def SetUserRoleByID_def PromoteAdmin_def Let_def)
  with assms show "good (snd (CreateUser lower x e u h db))" "good (snd (SetUserRoleByID x i r db))" "good (snd (PromoteAdmin lower x tm u' db))"
    unfolding kept_def by metis+
qed

lemma kept_register:
  assumes "kept good" "good db"
  shows "good (snd (Register cr cfg xs bytes m e u p db))"
proof -
  have 1: "good db1" if "CreateUser lower x a b c db = (r, db1)" for lower x a b c r db1
    using kept_users(1) [OF assms, of lower x a b c] that by simp
  have 2: "good db1 \<Longrightarrow> good (snd (SetUserRoleByID x i ro db1))" for x i ro db1 by (rule kept_users(2) [OF assms(1)])
  have 3: "good db2 \<Longrightarrow> issueTokens cr cfg x later bytes v ip ua db2 = (o', db3) \<Longrightarrow> good db3" for db2 x later v ip ua o' db3
    using kept_issue [OF assms(1), of db2 cr cfg x later bytes v ip ua] by simp
  show ?thesis
    using assms(2) unfolding Register_def Let_def
    by (auto split: option.splits prod.splits sum.splits auth_error.splits if_splits intro: 1 2 3)
qed

lemma kept_refresh:
  assumes "kept good" "good db"
  shows "good (snd (Refresh cr cfg xs bytes m t db))"
proof (cases "refresh_check cr cfg xs bytes t db")
  case (Inl e)
  then show ?thesis using assms(2) by (simp add: Refresh_def)
next
  case (Inr p)
  obtain r db1 where 1: "ReplaceRefreshSession (xs 3) (rsID (rpSession p)) (rpNewID p) (rpNow p) db = (r, db1)" by (meson surj_pair)
  have g1: "good (snd (ReplaceRefreshSession (xs 3) (rsID (rpSession p)) (rpNewID p) (rpNow p) db))"
    using assms unfolding kept_def by blast
  have g2: "good (snd (CreateRefreshSession (xs 4) sp db1))" for sp
    using assms(1) g1 unfolding kept_def 1 snd_conv by blast
  show ?thesis
    using g1 g2 by (simp add: Refresh_def Inr refresh_write_def 1 split: sum.split prod.split) (metis snd_conv)
qed

lemma kept_exec:
  assumes "kept good" "good db"
  shows "good (exec_auth cr cfg op db)"
proof (cases op)
  case (ARegister xs bytes m e u p)
  then show ?thesis using kept_register [OF assms] by simp
next
  case (ALogin xs bytes m l p)
  have "good db3" if "issueTokens cr cfg x later bytes v ip ua db = (o', db3)" for x later v ip ua o' db3
    using kept_issue [OF assms, of cr cfg x later bytes v ip ua] that by simp
  then show ?thesis using assms(2) ALogin
    by (auto simp: Login_def Let_def split: option.splits prod.splits sum.splits)
next
  case (ARefresh xs bytes m t)
  then show ?thesis using kept_refresh [OF assms] by simp
next
  case (ALogout xs t)
  have "good (snd (RevokeRefreshSession x i now' db))" for x i now' using assms unfolding kept_def by blast
  then show ?thesis using assms(2) ALogout by (simp add: Logout_def Let_def split: sum.split)
next
  case (APromote x tm u)
  then show ?thesis using kept_users(3) [OF assms] by simp
qed

lemma kept_execs: "kept good \<Longrightarrow> good db \<Longrightarrow> good (exec_auths cr cfg ops db)"
  by (induction ops arbitrary: db) (auto simp: kept_exec)

lemma kept_dead: "kept (\<lambda>db. sessions_inv db \<and> pg_sessions.dead db h)"
  unfolding kept_def
proof (intro conjI allI impI)
  fix a b :: auth_db assume "dbSessions a = dbSessions b"
  then show "(sessions_inv a \<and> pg_sessions.dead a h) = (sessions_inv b \<and> pg_sessions.dead b h)"
    using same_sessions by blast
qed (simp_all add: pg_sessions.inv_ops pg_sessions.dead_stays)

lemma dead_refused:
  assumes "pg_sessions.dead db (sha256Hex cr (trim_space tok))" "trim_space tok \<noteq> []"
  shows "\<exists>e. Refresh cr cfg xs bytes m tok db = (Inl e, db)"
  using assms
  by (auto simp: pg_sessions.dead_def session_of_def Refresh_def refresh_check_def GetRefreshSessionByHash_def Let_def)

text \<open>A refresh that succeeds found a live session and leaves it revoked.\<close>

lemma refresh_kills:
  assumes "sessions_inv db" "Refresh cr cfg xs bytes m tok db = (Inr resp, db')"
  shows "trim_space tok \<noteq> []" "sessions_inv db'" "pg_sessions.dead db' (sha256Hex cr (trim_space tok))"
proof -
  obtain p where p: "refresh_check cr cfg xs bytes tok db = Inr p" "refresh_write cr cfg xs m p db = (Inr resp, db')"
    using assms(2) by (auto simp: Refresh_def split: sum.splits)
  then show "trim_space tok \<noteq> []" by (auto simp: refresh_check_def Let_def)
  have sess: "session_of db (sha256Hex cr (trim_space tok)) = Some (rpSession p)"
    using p(1) by (auto simp: refresh_check_def GetRefreshSessionByHash_def session_of_def Let_def
        split: if_splits sum.splits option.splits)
  obtain db1 sp where w: "ReplaceRefreshSession (xs 3) (rsID (rpSession p)) (rpNewID p) (rpNow p) db = (Inr (), db1)"
    "CreateRefreshSession (xs 4) sp db1 = (Inr (), db')"
    using p(2) by (auto simp: refresh_write_def split: prod.splits sum.splits)
  have 1: "sessions_inv db1" "pg_sessions.dead db1 (sha256Hex cr (trim_space tok))"
    using pg_sessions.inv_ops(3) [OF assms(1)] pg_sessions.replaced_dead [OF assms(1) _ sess refl] w(1) by (metis fst_conv snd_conv)+
  then show "sessions_inv db'" "pg_sessions.dead db' (sha256Hex cr (trim_space tok))"
    using pg_sessions.inv_ops(1) pg_sessions.dead_stays(1) w(2) by (metis snd_conv)+
qed

text \<open>What a successful write half leaves behind: the new session, live, of the same user.\<close>

lemma created:
  assumes "CreateRefreshSession x p db = (Inr u, db')"
  shows "row_by rsTokenHash (spTokenHash p) (dbSessions db') =
      Some \<lparr>rsID = spSessionID p, rsUserID = spUserID p, rsTokenHash = spTokenHash p, rsExpiresAt = spExpiresAt p,
        rsCreatedAt = spNow p, rsRevokedAt = None, rsReplacedBy = None, rsUserAgent = nullableString (spUserAgent p), rsIP = spIP p\<rparr>"
    and "dbUsers db' = dbUsers db" and "spUserID p \<in> (\<lambda>r. uID (urUser r)) ` set (dbUsers db)"
proof -
  have "row_by rsTokenHash (spTokenHash p) (dbSessions db) = None"
    using assms unfolding row_by_None by (auto simp: CreateRefreshSession_def split: if_splits)
  then show "row_by rsTokenHash (spTokenHash p) (dbSessions db') =
      Some \<lparr>rsID = spSessionID p, rsUserID = spUserID p, rsTokenHash = spTokenHash p, rsExpiresAt = spExpiresAt p,
        rsCreatedAt = spNow p, rsRevokedAt = None, rsReplacedBy = None, rsUserAgent = nullableString (spUserAgent p), rsIP = spIP p\<rparr>"
    using assms by (auto simp: CreateRefreshSession_def row_by_append split: if_splits)
  show "dbUsers db' = dbUsers db" "spUserID p \<in> (\<lambda>r. uID (urUser r)) ` set (dbUsers db)"
    using assms by (auto simp: CreateRefreshSession_def split: if_splits)
qed

lemma written:
  assumes "refresh_write cr cfg xs m p db = (Inr resp, db')"
  shows "\<exists>s'. dbUsers db' = dbUsers db \<and> rsUserID (rpSession p) \<in> (\<lambda>r. uID (urUser r)) ` set (dbUsers db) \<and>
    row_by rsTokenHash (rpHash p) (dbSessions db') = Some s' \<and> rsRevokedAt s' = None \<and> rsUserID s' = rsUserID (rpSession p) \<and>
    rsExpiresAt s' = rpNow p + cfgRefreshTTL cfg \<and> arRefreshToken resp = rpRaw p \<and> arUser resp = rpUser p"
proof -
  let ?db1 = "snd (ReplaceRefreshSession (xs 3) (rsID (rpSession p)) (rpNewID p) (rpNow p) db)"
  have u: "dbUsers ?db1 = dbUsers db" by (simp add: ReplaceRefreshSession_def)
  have r: "CreateRefreshSession (xs 4) \<lparr>spSessionID = rpNewID p, spUserID = rsUserID (rpSession p), spTokenHash = rpHash p,
       spExpiresAt = rpNow p + cfgRefreshTTL cfg, spUserAgent = userAgentFromMD m, spIP = clientIPFromMD cr m, spNow = rpNow p\<rparr> ?db1 = (Inr (), db')"
    "arRefreshToken resp = rpRaw p" "arUser resp = rpUser p"
    using assms by (auto simp: refresh_write_def split: sum.splits prod.splits)
  then show ?thesis using created [OF r(1)] u by simp
qed

lemma write_succeeds:
  assumes "\<not> fault (xs 3) 0" "\<not> fault (xs 4) 0" "rsUserID (rpSession p) \<in> (\<lambda>r. uID (urUser r)) ` set (dbUsers db)"
    "rpNewID p \<notin> rsID ` set (dbSessions db)" "rpHash p \<notin> rsTokenHash ` set (dbSessions db)"
  shows "\<exists>resp db'. refresh_write cr cfg xs m p db = (Inr resp, db') \<and> arUser resp = rpUser p"
proof -
  have "\<forall>s \<in> set (fst (sql_update hit (\<lambda>s. s\<lparr>rsRevokedAt := r, rsReplacedBy := n\<rparr>) (dbSessions db))). rsID s \<noteq> rpNewID p \<and> rsTokenHash s \<noteq> rpHash p"
    for hit r n using assms(4,5) unfolding sql_update_def by (force simp: image_iff)
  then show ?thesis
    using assms(1-3) by (simp add: refresh_write_def ReplaceRefreshSession_def CreateRefreshSession_def)
qed

lemma written_row:
  assumes "refresh_write cr cfg xs m p db = (Inr resp, db')"
  shows "\<exists>s'. dbUsers db' = dbUsers db \<and> session_of db' (rpHash p) = Some s' \<and> rsRevokedAt s' = None \<and> rsID s' = rpNewID p"
proof -
  let ?db1 = "snd (ReplaceRefreshSession (xs 3) (rsID (rpSession p)) (rpNewID p) (rpNow p) db)"
  have u: "dbUsers ?db1 = dbUsers db" by (simp add: ReplaceRefreshSession_def)
  have r: "CreateRefreshSession (xs 4) \<lparr>spSessionID = rpNewID p, spUserID = rsUserID (rpSession p), spTokenHash = rpHash p,
       spExpiresAt = rpNow p + cfgRefreshTTL cfg, spUserAgent = userAgentFromMD m, spIP = clientIPFromMD cr m, spNow = rpNow p\<rparr> ?db1 = (Inr (), db')"
    using assms by (auto simp: refresh_write_def split: sum.splits prod.splits)
  then show ?thesis using created [OF r] u by (simp add: session_of_def)
qed

lemma sessions_inv_write:
  assumes "sessions_inv db" "refresh_write cr cfg xs m p db = (Inr resp, db')"
  shows "sessions_inv db'"
proof -
  have "\<exists>x sp. db' = snd (CreateRefreshSession x sp (snd (ReplaceRefreshSession (xs 3) (rsID (rpSession p)) (rpNewID p) (rpNow p) db)))"
    using assms(2) by (simp add: refresh_write_def split: sum.splits prod.splits) (metis snd_conv)
  then show ?thesis using pg_sessions.inv_ops(1,3) assms(1) by blast
qed

section \<open>A running example\<close>

text \<open>A crypto library that satisfies the laws the properties assume: tagged text for hashes and tokens.\<close>

definition demo_crypto :: crypto where
  "demo_crypto = \<lparr>bcryptHash = (\<lambda>p. if length p \<le> 72 then Some (CHR ''h'' # p) else None), bcryptOk = (\<lambda>h p. h = CHR ''h'' # p),
     sha256Hex = (\<lambda>s. s), jwtSign = (\<lambda>k c. Some (acSubject c)), jwtParse = (\<lambda>f t. None), uuidParse = Some, sqlUuid = Some,
     parseIP = (\<lambda>_. None), sqlLower = (\<lambda>s. s)\<rparr>"

definition demo_cfg :: auth_config where
  "demo_cfg = \<lparr>cfgSecret = ''k'', cfgAccessTTL = 10, cfgRefreshTTL = 100, cfgBootstrapAdmin = []\<rparr>"

definition demo_auth_db :: auth_db where
  "demo_auth_db = \<lparr>dbUsers = [\<lparr>urUser = \<lparr>uID = ''u1'', uEmail = ''a@b.cd'', uUsername = ''ann'', uRole = ''user'', uCreatedAt = 0\<rparr>, urPasswordHash = ''hpw''\<rparr>],
     dbSessions = [\<lparr>rsID = ''s1'', rsUserID = ''u1'', rsTokenHash = ''tok'', rsExpiresAt = 50, rsCreatedAt = 0, rsRevokedAt = None,
       rsReplacedBy = None, rsUserAgent = None, rsIP = None\<rparr>]\<rparr>"

definition demo_md :: md where
  "demo_md = (\<lambda>_. [])"

lemma demo_token: "trim_space ''tok'' = ''tok''"
  by code_simp

lemma demo_hash: "sha256Hex demo_crypto h = h"
  by (simp add: demo_crypto_def)

lemma demo_inv: "sessions_inv demo_auth_db"
  by (simp add: sessions_inv_def demo_auth_db_def)

lemmas demo_simps = demo_crypto_def demo_cfg_def demo_auth_db_def demo_md_def demo_token

lemma demo_check:
  "\<exists>p. refresh_check demo_crypto demo_cfg (\<lambda>_. calm 1 i) (Some [c]) ''tok'' demo_auth_db = Inr p \<and>
     rpNewID p = i \<and> rpHash p = b64_encode False [c] \<and> rsUserID (rpSession p) = ''u1'' \<and> rsID (rpSession p) = ''s1''"
  by (simp add: refresh_check_def demo_simps GetRefreshSessionByHash_def GetUserByID_def NewAccessToken_def NewRefreshToken_def
      zero_time_def Let_def)

lemma demo_refresh:
  "\<exists>resp db'. Refresh demo_crypto demo_cfg (\<lambda>_. calm 1 ''s2'') (Some ''x'') demo_md ''tok'' demo_auth_db = (Inr resp, db') \<and>
     rsID ` set (dbSessions db') = {''s1'', ''s2''} \<and> rsTokenHash ` set (dbSessions db') = {''tok'', b64_encode False ''x''}"
  by (simp add: Refresh_def refresh_check_def refresh_write_def demo_simps GetRefreshSessionByHash_def GetUserByID_def NewAccessToken_def
      NewRefreshToken_def ReplaceRefreshSession_def CreateRefreshSession_def sql_update_def zero_time_def Let_def)

section \<open>Properties\<close>

text \<open>
  C4. A refresh token is good for one refresh: once a refresh with it succeeded, no later request with the same token
  succeeds, whatever requests of any users come in between and whatever fails in them.
\<close>

theorem refresh_token_single_use:
  assumes "sessions_inv db" "Refresh cr cfg xs bytes m tok db = (Inr resp, db')"
  shows "\<exists>e. fst (Refresh cr cfg xs' bytes' m' tok (exec_auths cr cfg ops db')) = Inl e"
proof -
  note k = refresh_kills [OF assms]
  have "pg_sessions.dead (exec_auths cr cfg ops db') (sha256Hex cr (trim_space tok))"
    using kept_execs [OF kept_dead] k(2,3) by blast
  with dead_refused k(1) show ?thesis by (metis fst_conv)
qed

theorem refresh_token_single_use_witness:
  "\<exists>resp db'. Refresh demo_crypto demo_cfg (\<lambda>_. calm 1 ''s2'') (Some ''x'') demo_md ''tok'' demo_auth_db = (Inr resp, db') \<and>
     (\<exists>e. fst (Refresh demo_crypto demo_cfg (\<lambda>_. calm 2 ''s3'') (Some ''y'') demo_md ''tok'' db') = Inl e)"
proof -
  obtain resp db' where r: "Refresh demo_crypto demo_cfg (\<lambda>_. calm 1 ''s2'') (Some ''x'') demo_md ''tok'' demo_auth_db = (Inr resp, db')"
    using demo_refresh by (elim exE conjE) (erule that)
  have e: "\<exists>e. fst (Refresh demo_crypto demo_cfg (\<lambda>_. calm 2 ''s3'') (Some ''y'') demo_md ''tok'' db') = Inl e"
    using refresh_token_single_use [OF demo_inv r, of "\<lambda>_. calm 2 ''s3''" "Some ''y''" demo_md "[]"] by (simp only: fold_simps id_apply)
  show ?thesis by (rule exI, rule exI, rule conjI [OF r e])
qed



text \<open>
  Rotation hands over: the refresh token in the response of a successful refresh is itself good for a refresh of the same user, as
  long as it is used before its expiry, the statements reach the database and the new identifier and hash are unused.
\<close>

theorem rotated_token_works:
  assumes first_ok: "Refresh cr cfg xs (Some b) m tok db = (Inr resp, db')" and nonempty: "b \<noteq> []"
    and calm: "\<forall>i. \<not> fault (ys i) 0" and in_time: "now (ys 1) \<le> now (xs 1) + cfgRefreshTTL cfg"
    and signs: "\<forall>c. jwtSign cr (cfgSecret cfg) c \<noteq> None"
    and unused: "fresh (ys 3) \<notin> rsID ` set (dbSessions db')" "sha256Hex cr (b64_encode False b') \<notin> rsTokenHash ` set (dbSessions db')"
  shows "\<exists>resp' db''. Refresh cr cfg ys (Some b') m' (arRefreshToken resp) db' = (Inr resp', db'') \<and> arUser resp' = arUser resp"
proof -
  obtain p where p: "refresh_check cr cfg xs (Some b) tok db = Inr p" "refresh_write cr cfg xs m p db = (Inr resp, db')"
    using first_ok by (auto simp: Refresh_def split: sum.splits)
  let ?s = "rpSession p"
  from p(1) obtain k where c: "sqlUuid cr (rsUserID ?s) = Some k" "\<exists>r. row_by (\<lambda>r. uID (urUser r)) k (dbUsers db) = Some r \<and> urUser r = rpUser p"
    "rpRaw p = b64_encode False b" "rpHash p = sha256Hex cr (b64_encode False b)" "rpNow p = now (xs 1)" "cfgSecret cfg \<noteq> []"
    by (auto simp: refresh_check_def GetUserByID_def NewRefreshToken_def NewAccessToken_def Let_def
        split: if_splits sum.splits option.splits)
  obtain s' where w: "dbUsers db' = dbUsers db" "rsUserID ?s \<in> (\<lambda>r. uID (urUser r)) ` set (dbUsers db)"
    "row_by rsTokenHash (rpHash p) (dbSessions db') = Some s'" "rsRevokedAt s' = None" "rsUserID s' = rsUserID ?s"
    "rsExpiresAt s' = rpNow p + cfgRefreshTTL cfg" "arRefreshToken resp = rpRaw p" "arUser resp = rpUser p"
    using written [OF p(2)] by blast
  have u: "sha256Hex cr (b64_encode False b') \<noteq> rpHash p" using unused(2) row_by_Some [OF w(3)] by force
  let ?raw = "b64_encode False b"
  define sg where "sg a = the (jwtSign cr (cfgSecret cfg) a)" for a
  have sign: "jwtSign cr (cfgSecret cfg) a = Some (sg a)" for a using signs by (simp add: sg_def)
  have "\<exists>q. refresh_check cr cfg ys (Some b') ?raw db' = Inr q \<and> rpSession q = s' \<and> rpUser q = rpUser p \<and> rpNewID q = fresh (ys 3) \<and>
      rpHash q = sha256Hex cr (b64_encode False b')"
    using c w calm in_time nonempty sign
    by (auto simp: refresh_check_def GetRefreshSessionByHash_def GetUserByID_def NewAccessToken_def NewRefreshToken_def Let_def
        split: option.split)
  then obtain q where q: "refresh_check cr cfg ys (Some b') ?raw db' = Inr q" "rpSession q = s'" "rpUser q = rpUser p"
    "rpNewID q = fresh (ys 3)" "rpHash q = sha256Hex cr (b64_encode False b')" by blast
  have "\<exists>resp' db''. refresh_write cr cfg ys m' q db' = (Inr resp', db'') \<and> arUser resp' = rpUser q"
    by (rule write_succeeds) (use q w calm unused in auto)
  then show ?thesis using q c(3) w(7,8) by (simp add: Refresh_def)
qed

theorem rotated_token_works_witness:
  "\<exists>resp db'. Refresh demo_crypto demo_cfg (\<lambda>_. calm 1 ''s2'') (Some ''x'') demo_md ''tok'' demo_auth_db = (Inr resp, db') \<and>
     (\<exists>resp' db''. Refresh demo_crypto demo_cfg (\<lambda>_. calm 2 ''s3'') (Some ''y'') demo_md (arRefreshToken resp) db' = (Inr resp', db'') \<and>
        arUser resp' = arUser resp)"
proof -
  obtain resp db' where r: "Refresh demo_crypto demo_cfg (\<lambda>_. calm 1 ''s2'') (Some ''x'') demo_md ''tok'' demo_auth_db = (Inr resp, db')"
    and i: "rsID ` set (dbSessions db') = {''s1'', ''s2''}" and h: "rsTokenHash ` set (dbSessions db') = {''tok'', b64_encode False ''x''}"
    using demo_refresh by (elim exE conjE) (rule that)
  have n: "b64_encode False ''y'' \<notin> {''tok'', b64_encode False ''x''}" by code_simp
  have e: "\<exists>resp' db''. Refresh demo_crypto demo_cfg (\<lambda>_. calm 2 ''s3'') (Some ''y'') demo_md (arRefreshToken resp) db' = (Inr resp', db'') \<and>
        arUser resp' = arUser resp"
    by (rule rotated_token_works [OF r]) (use n in \<open>simp_all add: i h demo_crypto_def demo_cfg_def\<close>)
  show ?thesis by (rule exI, rule exI, rule conjI [OF r e])
qed

section \<open>Refreshes in flight\<close>

text \<open>
  \<open>Refresh\<close> holds no transaction: other requests run between its statements. A call in flight is waiting, has checked its
  token, has replaced the old session, or is done; \<open>refresh_step\<close> lets one call take its next step or a whole other request run.
\<close>

record refresh_call =
  rcToken :: string
  rcEnv :: "nat \<Rightarrow> ctx"
  rcBytes :: "string option"
  rcMd :: md

datatype phase = Waiting | Checked refresh_plan | Replaced refresh_plan | Done "grpc_status + auth_response"

type_synonym in_flight = "auth_db \<times> (refresh_call \<times> phase) list"

definition after_check :: "crypto \<Rightarrow> auth_config \<Rightarrow> refresh_call \<Rightarrow> auth_db \<Rightarrow> phase" where
  "after_check cr cfg c db =
     (case refresh_check cr cfg (rcEnv c) (rcBytes c) (rcToken c) db of Inl e \<Rightarrow> Done (Inl e) | Inr p \<Rightarrow> Checked p)"

definition replace_step :: "refresh_call \<Rightarrow> refresh_plan \<Rightarrow> auth_db \<Rightarrow> phase \<times> auth_db" where
  "replace_step c p db =
     (case ReplaceRefreshSession (rcEnv c 3) (rsID (rpSession p)) (rpNewID p) (rpNow p) db of
        (Inl e, db1) \<Rightarrow> (Done (Inl (errInternal ''INTERNAL'' ''Internal error'')), db1)
      | (Inr _, db1) \<Rightarrow> (Replaced p, db1))"

definition create_step :: "crypto \<Rightarrow> auth_config \<Rightarrow> refresh_call \<Rightarrow> refresh_plan \<Rightarrow> auth_db \<Rightarrow> phase \<times> auth_db" where
  "create_step cr cfg c p db =
     (case CreateRefreshSession (rcEnv c 4)
             \<lparr>spSessionID = rpNewID p, spUserID = rsUserID (rpSession p), spTokenHash = rpHash p,
               spExpiresAt = rpNow p + cfgRefreshTTL cfg, spUserAgent = userAgentFromMD (rcMd c),
               spIP = clientIPFromMD cr (rcMd c), spNow = rpNow p\<rparr> db of
        (Inl e, db2) \<Rightarrow> (Done (Inl (errInternal ''INTERNAL'' ''Internal error'')), db2)
      | (Inr _, db2) \<Rightarrow>
          (Done (Inr \<lparr>arUser = rpUser p, arAccessToken = rpAccess p, arRefreshToken = rpRaw p,
             arExpiresIn = whole_seconds (rpExpires p - now (rcEnv c 5))\<rparr>), db2))"

inductive refresh_step :: "crypto \<Rightarrow> auth_config \<Rightarrow> in_flight \<Rightarrow> in_flight \<Rightarrow> bool" for cr cfg where
  check: "i < length ps \<Longrightarrow> ps ! i = (c, Waiting) \<Longrightarrow>
    refresh_step cr cfg (db, ps) (db, ps[i := (c, after_check cr cfg c db)])"
| replace: "i < length ps \<Longrightarrow> ps ! i = (c, Checked p) \<Longrightarrow> replace_step c p db = (ph, db') \<Longrightarrow>
    refresh_step cr cfg (db, ps) (db', ps[i := (c, ph)])"
| create: "i < length ps \<Longrightarrow> ps ! i = (c, Replaced p) \<Longrightarrow> create_step cr cfg c p db = (ph, db') \<Longrightarrow>
    refresh_step cr cfg (db, ps) (db', ps[i := (c, ph)])"
| other: "refresh_step cr cfg (db, ps) (exec_auth cr cfg op db, ps)"

inductive_cases refresh_stepE [consumes 1, case_names check replace create other]: "refresh_step cr cfg (db, ps) (db', ps')"

text \<open>Left alone, the steps of a call are the handler.\<close>

lemma steps_are_Refresh:
  "Refresh cr cfg (rcEnv c) (rcBytes c) (rcMd c) (rcToken c) db = (r, db') \<Longrightarrow>
   (refresh_step cr cfg)\<^sup>*\<^sup>* (db, [(c, Waiting)]) (db', [(c, Done r)])"
proof (cases "refresh_check cr cfg (rcEnv c) (rcBytes c) (rcToken c) db")
  case (Inl e)
  assume "Refresh cr cfg (rcEnv c) (rcBytes c) (rcMd c) (rcToken c) db = (r, db')"
  then show ?thesis using refresh_step.check [of 0 "[(c, Waiting)]" c cr cfg db] Inl by (auto simp: Refresh_def after_check_def)
next
  case (Inr p)
  assume a: "Refresh cr cfg (rcEnv c) (rcBytes c) (rcMd c) (rcToken c) db = (r, db')"
  let ?r = "refresh_step cr cfg"
  have 1: "?r (db, [(c, Waiting)]) (db, [(c, Checked p)])"
    using refresh_step.check [of 0 "[(c, Waiting)]" c cr cfg db] Inr by (simp add: after_check_def)
  obtain ph db1 where 2: "replace_step c p db = (ph, db1)" by (meson surj_pair)
  then have 3: "?r (db, [(c, Checked p)]) (db1, [(c, ph)])"
    using refresh_step.replace [of 0 "[(c, Checked p)]" c p db ph db1 cr cfg] by simp
  show ?thesis
  proof (cases "ph = Replaced p")
    case True
    obtain ph' db2 where 4: "create_step cr cfg c p db1 = (ph', db2)" by (meson surj_pair)
    then have "?r (db1, [(c, ph)]) (db2, [(c, ph')])"
      using refresh_step.create [of 0 "[(c, Replaced p)]" c p cr cfg db1 ph' db2] True by simp
    moreover have "ph' = Done r \<and> db2 = db'" using a 2 4 True Inr
      by (simp add: Refresh_def refresh_write_def replace_step_def create_step_def split: prod.splits sum.splits)
    ultimately show ?thesis using 1 3 by (meson rtranclp.rtrancl_refl rtranclp.rtrancl_into_rtrancl)
  next
    case False
    then have "ph = Done r \<and> db1 = db'" using a 2 Inr
      by (simp add: Refresh_def refresh_write_def replace_step_def split: prod.splits sum.splits)
    then show ?thesis using 1 3 by (meson rtranclp.rtrancl_refl rtranclp.rtrancl_into_rtrancl)
  qed
qed

lemma step_keeps_good:
  assumes "kept good" "refresh_step cr cfg (db, ps) (db', ps')" "good db"
  shows "good db'"
  using assms(2)
proof (cases rule: refresh_stepE)
  case (replace i c p ph)
  have "db' = snd (ReplaceRefreshSession (rcEnv c 3) (rsID (rpSession p)) (rpNewID p) (rpNow p) db)"
    using replace by (simp add: replace_step_def split: prod.splits sum.splits)
  then show ?thesis using assms(1,3) unfolding kept_def by blast
next
  case (create i c p ph)
  then obtain x sp where "db' = snd (CreateRefreshSession x sp db)"
    by (simp add: create_step_def split: prod.splits sum.splits) (metis snd_conv)+
  then show ?thesis using assms(1,3) unfolding kept_def by blast
qed (use assms kept_exec in auto)

definition refused :: "refresh_call \<Rightarrow> refresh_call \<times> phase \<Rightarrow> bool" where
  "refused c q \<longleftrightarrow> q = (c, Waiting) \<or> (\<exists>e. q = (c, Done (Inl e)))"

lemma step_refused:
  assumes "refresh_step cr cfg (db, ps) (db', ps')" "pg_sessions.dead db (sha256Hex cr (trim_space (rcToken c)))"
    "trim_space (rcToken c) \<noteq> []" "i < length ps" "refused c (ps ! i)"
  shows "i < length ps' \<and> refused c (ps' ! i)"
proof -
  have d: "\<exists>e. after_check cr cfg c db = Done (Inl e)"
    using assms(2,3)
    by (auto simp: after_check_def pg_sessions.dead_def session_of_def refresh_check_def GetRefreshSessionByHash_def Let_def)
  from assms(1) show ?thesis
  proof (cases rule: refresh_stepE)
    case (check j c')
    show ?thesis
    proof (cases "j = i")
      case True
      then have "c' = c" using check assms(5) by (auto simp: refused_def)
      then show ?thesis using check True d by (auto simp: refused_def)
    qed (use check assms(4,5) in simp)
  next
    case (replace j c' p ph)
    then have "j \<noteq> i" using assms(5) by (auto simp: refused_def)
    then show ?thesis using replace assms(4,5) by simp
  next
    case (create j c' p ph)
    then have "j \<noteq> i" using assms(5) by (auto simp: refused_def)
    then show ?thesis using create assms(4,5) by simp
  qed (use assms in simp)
qed

lemma write_steps:
  assumes "refresh_write cr cfg (rcEnv c) (rcMd c) p db = (Inr r, db')" "i < length ps" "ps ! i = (c, Checked p)"
  shows "(refresh_step cr cfg)\<^sup>*\<^sup>* (db, ps) (db', ps[i := (c, Done (Inr r))])"
proof -
  obtain db1 where 1: "replace_step c p db = (Replaced p, db1)" "create_step cr cfg c p db1 = (Done (Inr r), db')"
    using assms(1) by (auto simp: refresh_write_def replace_step_def create_step_def split: prod.splits sum.splits)
  have "refresh_step cr cfg (db, ps) (db1, ps[i := (c, Replaced p)])" using assms(2,3) 1(1) by (rule refresh_step.replace)
  moreover have "refresh_step cr cfg (db1, ps[i := (c, Replaced p)]) (db', ps[i := (c, Replaced p), i := (c, Done (Inr r))])"
    by (rule refresh_step.create) (use 1(2) assms(2) in simp_all)
  ultimately show ?thesis by (simp add: converse_rtranclp_into_rtranclp)
qed

lemma replace_keys:
  "map rsID (dbSessions (snd (ReplaceRefreshSession x i j t db))) = map rsID (dbSessions db)"
  "map rsTokenHash (dbSessions (snd (ReplaceRefreshSession x i j t db))) = map rsTokenHash (dbSessions db)"
  by (simp_all add: ReplaceRefreshSession_def sql_update_keys)

lemma create_keys:
  "CreateRefreshSession x p db = (Inr u, db') \<Longrightarrow>
   map rsID (dbSessions db') = map rsID (dbSessions db) @ [spSessionID p] \<and>
   map rsTokenHash (dbSessions db') = map rsTokenHash (dbSessions db) @ [spTokenHash p]"
  by (auto simp: CreateRefreshSession_def split: if_splits)

lemma write_new_rows:
  assumes "refresh_write cr cfg xs m p db = (Inr r, db')"
  shows "map rsID (dbSessions db') = map rsID (dbSessions db) @ [rpNewID p]"
    "map rsTokenHash (dbSessions db') = map rsTokenHash (dbSessions db) @ [rpHash p]"
proof -
  let ?db1 = "snd (ReplaceRefreshSession (xs 3) (rsID (rpSession p)) (rpNewID p) (rpNow p) db)"
  have "CreateRefreshSession (xs 4) \<lparr>spSessionID = rpNewID p, spUserID = rsUserID (rpSession p), spTokenHash = rpHash p,
       spExpiresAt = rpNow p + cfgRefreshTTL cfg, spUserAgent = userAgentFromMD m, spIP = clientIPFromMD cr m, spNow = rpNow p\<rparr> ?db1 = (Inr (), db')"
    using assms by (auto simp: refresh_write_def split: sum.splits prod.splits)
  from create_keys [OF this] show "map rsID (dbSessions db') = map rsID (dbSessions db) @ [rpNewID p]"
    "map rsTokenHash (dbSessions db') = map rsTokenHash (dbSessions db) @ [rpHash p]" by (simp_all add: replace_keys)
qed

text \<open>Replacing one session leaves a live session of another identifier live.\<close>

lemma write_keeps_live:
  assumes "sessions_inv db" "refresh_write cr cfg xs m p db = (Inr r, db')" "session_of db h = Some s" "rsID s \<noteq> rsID (rpSession p)"
  shows "session_of db' h = Some s"
proof -
  let ?db1 = "snd (ReplaceRefreshSession (xs 3) (rsID (rpSession p)) (rpNewID p) (rpNow p) db)"
  have "session_of ?db1 h = Some s" using assms(1,3,4) session_update(2) [OF assms(1)] by (simp add: ReplaceRefreshSession_def)
  moreover obtain sp where "db' = snd (CreateRefreshSession (xs 4) sp ?db1)"
    using assms(2) by (simp add: refresh_write_def split: prod.splits sum.splits) (metis snd_conv)
  ultimately show ?thesis using pg_sessions.create_keeps [OF pg_sessions.inv_ops(3) [OF assms(1)]] by simp
qed

text \<open>
  A revoked token is refused under every interleaving: whatever steps other refreshes in flight and other requests take, a call that
  still waits when the session of its token is revoked never succeeds.
\<close>

theorem late_refresh_refused:
  assumes "(refresh_step cr cfg)\<^sup>*\<^sup>* (db, ps) (db', ps')" "sessions_inv db"
    and "session_of db (sha256Hex cr (trim_space (rcToken c))) = Some s" "rsRevokedAt s = Some t" "trim_space (rcToken c) \<noteq> []"
    and "i < length ps" "ps ! i = (c, Waiting)"
  shows "i < length ps' \<and> (ps' ! i = (c, Waiting) \<or> (\<exists>e. ps' ! i = (c, Done (Inl e))))"
proof -
  let ?good = "\<lambda>db. sessions_inv db \<and> pg_sessions.dead db (sha256Hex cr (trim_space (rcToken c)))"
  have "?good db' \<and> i < length ps' \<and> refused c (ps' ! i)"
    using assms(1)
  proof (induction rule: rtranclp_induct2)
    case refl
    show ?case using assms(2-7) unfolding pg_sessions.dead_def refused_def by blast
  next
    case (step db1 ps1 db2 ps2)
    then show ?case using step_keeps_good [OF kept_dead step(2)] step_refused [OF step(2) _ assms(5)] by blast
  qed
  then show ?thesis unfolding refused_def by blast
qed

theorem late_refresh_refused_witness:
  "\<exists>e. refresh_step demo_crypto demo_cfg
     (snd (Logout demo_crypto (\<lambda>_. calm 1 []) ''tok'' demo_auth_db), [(\<lparr>rcToken = ''tok'', rcEnv = \<lambda>_. calm 2 ''s3'', rcBytes = Some ''y'', rcMd = demo_md\<rparr>, Waiting)])
     (snd (Logout demo_crypto (\<lambda>_. calm 1 []) ''tok'' demo_auth_db), [(\<lparr>rcToken = ''tok'', rcEnv = \<lambda>_. calm 2 ''s3'', rcBytes = Some ''y'', rcMd = demo_md\<rparr>, Done (Inl e))])"
proof -
  let ?db = "snd (Logout demo_crypto (\<lambda>_. calm 1 []) ''tok'' demo_auth_db)"
  let ?c = "\<lparr>rcToken = ''tok'', rcEnv = \<lambda>_. calm 2 ''s3'', rcBytes = Some ''y'', rcMd = demo_md\<rparr>"
  have step: "refresh_step demo_crypto demo_cfg (?db, [(?c, Waiting)]) (?db, [(?c, after_check demo_crypto demo_cfg ?c ?db)])"
    using refresh_step.check [of 0 "[(?c, Waiting)]" ?c demo_crypto demo_cfg ?db] by simp
  have inv: "sessions_inv ?db" and dead: "\<exists>s. session_of ?db ''tok'' = Some s \<and> rsRevokedAt s = Some 1"
    by (simp_all add: Logout_def GetRefreshSessionByHash_def RevokeRefreshSession_def sql_update_def sessions_inv_def session_of_def
        demo_simps Let_def)
  then obtain s where s: "session_of ?db ''tok'' = Some s" "rsRevokedAt s = Some 1" by (elim exE conjE) (rule that)
  have "after_check demo_crypto demo_cfg ?c ?db \<noteq> Waiting" by (simp add: after_check_def split: sum.split)
  moreover have "0 < length [(?c, after_check demo_crypto demo_cfg ?c ?db)] \<and> ([(?c, after_check demo_crypto demo_cfg ?c ?db)] ! 0 = (?c, Waiting) \<or>
      (\<exists>e. [(?c, after_check demo_crypto demo_cfg ?c ?db)] ! 0 = (?c, Done (Inl e))))"
    by (rule late_refresh_refused [OF r_into_rtranclp [of "refresh_step demo_crypto demo_cfg", OF step] inv, where s = s and t = 1])
      (simp_all add: demo_token s demo_hash)
  ultimately obtain e where "after_check demo_crypto demo_cfg ?c ?db = Done (Inl e)" by auto
  with step show ?thesis by auto
qed

definition demo_call :: "uuid \<Rightarrow> char \<Rightarrow> refresh_call" where
  "demo_call i c = \<lparr>rcToken = ''tok'', rcEnv = \<lambda>_. calm 1 i, rcBytes = Some [c], rcMd = demo_md\<rparr>"

text \<open>
  C38. Rotation is not exclusive under concurrency: when two calls with one token both pass the check before either writes, both succeed
  and the user ends with two live sessions, because the statement that replaces the old session does not report that it changed no row.
\<close>

theorem concurrent_refresh_forks:
  assumes "sessions_inv db" "rcToken c1 = rcToken c2"
    and p1: "refresh_check cr cfg (rcEnv c1) (rcBytes c1) (rcToken c1) db = Inr p1"
    and p2: "refresh_check cr cfg (rcEnv c2) (rcBytes c2) (rcToken c2) db = Inr p2"
    and "\<forall>i. \<not> fault (rcEnv c1 i) 0" "\<forall>i. \<not> fault (rcEnv c2 i) 0"
    and user: "rsUserID (rpSession p1) \<in> (\<lambda>r. uID (urUser r)) ` set (dbUsers db)"
    and unused: "rpNewID p1 \<notin> rsID ` set (dbSessions db)" "rpHash p1 \<notin> rsTokenHash ` set (dbSessions db)"
      "rpNewID p2 \<notin> rsID ` set (dbSessions db)" "rpHash p2 \<notin> rsTokenHash ` set (dbSessions db)"
    and differ: "rpNewID p1 \<noteq> rpNewID p2" "rpHash p1 \<noteq> rpHash p2"
  shows "\<exists>db' r1 r2 s1 s2. (refresh_step cr cfg)\<^sup>*\<^sup>* (db, [(c1, Waiting), (c2, Waiting)]) (db', [(c1, Done (Inr r1)), (c2, Done (Inr r2))]) \<and>
     session_of db' (rpHash p1) = Some s1 \<and> rsRevokedAt s1 = None \<and> session_of db' (rpHash p2) = Some s2 \<and> rsRevokedAt s2 = None"
proof -
  let ?R = "(refresh_step cr cfg)\<^sup>*\<^sup>*"
  have same: "rpSession p2 = rpSession p1" and old: "rsID (rpSession p1) \<in> rsID ` set (dbSessions db)"
    using p1 p2 assms(2) row_by_Some [of rsTokenHash _ "dbSessions db" "rpSession p1"]
    by (auto simp: refresh_check_def GetRefreshSessionByHash_def Let_def split: if_splits sum.splits option.splits)
  have c: "?R (db, [(c1, Waiting), (c2, Waiting)]) (db, [(c1, Checked p1), (c2, Checked p2)])"
    using refresh_step.check [of 0 "[(c1, Waiting), (c2, Waiting)]" c1 cr cfg db] refresh_step.check [of 1 "[(c1, Checked p1), (c2, Waiting)]" c2 cr cfg db]
    by (simp add: after_check_def p1 p2)
  obtain r1 db1 where w1: "refresh_write cr cfg (rcEnv c1) (rcMd c1) p1 db = (Inr r1, db1)"
    using write_succeeds [of "rcEnv c1" p1 db] assms(5) user unused by blast
  obtain s1 where s1: "dbUsers db1 = dbUsers db" "session_of db1 (rpHash p1) = Some s1" "rsRevokedAt s1 = None" "rsID s1 = rpNewID p1"
    using written_row [OF w1] by blast
  note keys = write_new_rows [OF w1, THEN arg_cong [where f = set]]
  obtain r2 db2 where w2: "refresh_write cr cfg (rcEnv c2) (rcMd c2) p2 db1 = (Inr r2, db2)"
  proof -
    have "\<exists>resp db'. refresh_write cr cfg (rcEnv c2) (rcMd c2) p2 db1 = (Inr resp, db') \<and> arUser resp = rpUser p2"
      by (rule write_succeeds) (use assms(6) user unused differ keys same s1(1) in simp_all)
    with that show thesis by blast
  qed
  obtain s2 where s2: "session_of db2 (rpHash p2) = Some s2" "rsRevokedAt s2 = None" using written_row [OF w2] by blast
  have "rsID s1 \<noteq> rsID (rpSession p2)" using s1(4) same old unused(1) by auto
  from write_keeps_live [OF _ w2 s1(2) this] have k: "session_of db2 (rpHash p1) = Some s1"
    using sessions_inv_write [OF assms(1) w1] by blast
  have "?R (db, [(c1, Checked p1), (c2, Checked p2)]) (db1, [(c1, Done (Inr r1)), (c2, Checked p2)])"
    using write_steps [OF w1, of 0 "[(c1, Checked p1), (c2, Checked p2)]"] by simp
  moreover have "?R (db1, [(c1, Done (Inr r1)), (c2, Checked p2)]) (db2, [(c1, Done (Inr r1)), (c2, Done (Inr r2))])"
    using write_steps [OF w2, of 1 "[(c1, Done (Inr r1)), (c2, Checked p2)]"] by simp
  ultimately show ?thesis using c k s1(3) s2 by (meson rtranclp_trans)
qed

theorem concurrent_refresh_forks_witness:
  "\<exists>db' r1 r2 s1 s2. (refresh_step demo_crypto demo_cfg)\<^sup>*\<^sup>*
     (demo_auth_db, [(demo_call ''s2'' CHR ''x'', Waiting), (demo_call ''s3'' CHR ''y'', Waiting)])
     (db', [(demo_call ''s2'' CHR ''x'', Done (Inr r1)), (demo_call ''s3'' CHR ''y'', Done (Inr r2))]) \<and>
     session_of db' (b64_encode False ''x'') = Some s1 \<and> rsRevokedAt s1 = None \<and>
     session_of db' (b64_encode False ''y'') = Some s2 \<and> rsRevokedAt s2 = None"
proof -
  obtain p1 where p1: "refresh_check demo_crypto demo_cfg (rcEnv (demo_call ''s2'' CHR ''x'')) (rcBytes (demo_call ''s2'' CHR ''x''))
      (rcToken (demo_call ''s2'' CHR ''x'')) demo_auth_db = Inr p1" "rpNewID p1 = ''s2''" "rpHash p1 = b64_encode False ''x''" "rsUserID (rpSession p1) = ''u1''"
    using demo_check [of "''s2''" "CHR ''x''"] by (auto simp: demo_call_def)
  obtain p2 where p2: "refresh_check demo_crypto demo_cfg (rcEnv (demo_call ''s3'' CHR ''y'')) (rcBytes (demo_call ''s3'' CHR ''y''))
      (rcToken (demo_call ''s3'' CHR ''y'')) demo_auth_db = Inr p2" "rpNewID p2 = ''s3''" "rpHash p2 = b64_encode False ''y''"
    using demo_check [of "''s3''" "CHR ''y''"] by (auto simp: demo_call_def)
  have n: "b64_encode False ''x'' \<noteq> ''tok''" "b64_encode False ''y'' \<noteq> ''tok''" "b64_encode False ''x'' \<noteq> b64_encode False ''y''" by code_simp+
  note f = concurrent_refresh_forks [OF demo_inv _ p1(1) p2(1)]
  show ?thesis unfolding p1(3) [symmetric] p2(3) [symmetric]
    by (rule f) (use p1(2-4) p2(2,3) n in \<open>simp_all add: demo_call_def demo_auth_db_def\<close>)
qed

end
