(* ===== verification/Billing_Store.thy ===== *)
theory Billing_Store
  imports Keyset
begin

text \<open>
  Deduplication and persistence of the billing service (services/billing/internal/idempotency and store). The three
  implementations of \<open>idempotency.Store\<close> share the contract of the locale \<open>idempotency_store\<close>: \<open>seen t s i\<close> says that a check of event
  \<open>i\<close> at time \<open>t\<close> reports a duplicate, and \<open>lasts t t'\<close> that a mark made at \<open>t\<close> still counts at \<open>t'\<close>.
\<close>

section \<open>The contract\<close>

type_synonym 's checker = "ctx \<Rightarrow> string \<Rightarrow> 's \<Rightarrow> (unit + bool) \<times> 's"

locale idempotency_store =
  fixes check :: "'s checker" and seen :: "time \<Rightarrow> 's \<Rightarrow> string \<Rightarrow> bool" and lasts :: "time \<Rightarrow> time \<Rightarrow> bool"
  assumes reports: "check x i s = (Inr d, s') \<Longrightarrow> d = seen (now x) s i"
    and marks: "check x i s = (Inr False, s') \<Longrightarrow> lasts (now x) t \<Longrightarrow> seen t s' i"
    and others: "check x i s = (r, s') \<Longrightarrow> j \<noteq> i \<Longrightarrow> seen t s' j = seen t s j"
    and stays: "check x i s = (r, s') \<Longrightarrow> seen t s j \<Longrightarrow> seen t s' j"
begin

text \<open>A sequence of checks, with the answers.\<close>

fun checks :: "(ctx \<times> string) list \<Rightarrow> 's \<Rightarrow> (string \<times> (unit + bool)) list" where
  "checks [] s = []"
| "checks ((x, i) # cs) s = (let (r, s') = check x i s in (i, r) # checks cs s')"

lemma seen_never_fresh:
  "(\<And>c. c \<in> set cs \<Longrightarrow> seen (now (fst c)) s i) \<Longrightarrow> (i, Inr False) \<notin> set (checks cs s)"
proof (induction cs arbitrary: s)
  case (Cons c cs)
  obtain x j where c: "c = (x, j)" by (cases c)
  obtain r s' where r: "check x j s = (r, s')" by (cases "check x j s")
  have "(i, Inr False) \<notin> set (checks cs s')" by (rule Cons.IH) (use Cons.prems stays [OF r] in auto)
  moreover have "\<not> (i = j \<and> r = Inr False)" using reports [of x j s False s'] Cons.prems [of c] r c by auto
  ultimately show ?case using r c by auto
qed simp

text \<open>Within the time a mark lasts, at most one check of an event is told that it is new.\<close>

lemma fresh_once:
  "sorted_wrt (\<lambda>a b. lasts (now (fst a)) (now (fst b))) cs \<Longrightarrow> length (filter (\<lambda>a. a = (i, Inr False)) (checks cs s)) \<le> 1"
proof (induction cs arbitrary: s)
  case (Cons c cs)
  obtain x j where c: "c = (x, j)" by (cases c)
  obtain r s' where r: "check x j s = (r, s')" by (cases "check x j s")
  show ?case
  proof (cases "j = i \<and> r = Inr False")
    case True
    have "(i, Inr False) \<notin> set (checks cs s')"
      by (rule seen_never_fresh) (use Cons.prems marks [of x i s s'] r True c in auto)
    then show ?thesis using r c True by (auto simp: filter_empty_conv)
  next
    case False
    then show ?thesis using Cons.IH [of s'] Cons.prems r c by auto
  qed
qed simp

end

text \<open>A store whose marks never expire.\<close>

locale permanent_store = idempotency_store +
  assumes forever: "lasts t t'"
begin

lemma marks_forever: "check x i s = (Inr False, s') \<Longrightarrow> seen t s' i"
  using marks forever by blast

end

section \<open>In memory\<close>

definition mem_check :: "(string set) checker" where
  "mem_check x eventID s = (if eventID \<in> s then (Inr True, s) else (Inr False, insert eventID s))"

interpretation mem_idem: permanent_store mem_check "\<lambda>_ s i. i \<in> s" "\<lambda>_ _. True"
  by unfold_locales (auto simp: mem_check_def split: if_splits)

section \<open>Postgres\<close>

text \<open>\<open>poolUp\<close> is the lazily created pool; statement 0 is its creation, statement 1 the \<open>INSERT\<close>.\<close>

record pg_idem =
  poolUp :: bool
  processed :: "(string \<times> time) list"

definition ensurePool :: "ctx \<Rightarrow> pg_idem \<Rightarrow> pg_idem option" where
  "ensurePool x s = (if poolUp s then Some s else if fault x 0 then None else Some (s\<lparr>poolUp := True\<rparr>))"

definition pg_check :: "pg_idem checker" where
  "pg_check x eventID s =
     (case ensurePool x s of
        None \<Rightarrow> (Inl (), s)
      | Some s \<Rightarrow>
          if fault x 1 then (Inl (), s)
          else if eventID \<in> fst ` set (processed s) then (Inr True, s)
          else (Inr False, s\<lparr>processed := processed s @ [(eventID, pg_time (now x))]\<rparr>))"

interpretation pg_idem: permanent_store pg_check "\<lambda>_ s i. i \<in> fst ` set (processed s)" "\<lambda>_ _. True"
  by unfold_locales (auto simp: pg_check_def ensurePool_def split: if_splits)

section \<open>Redis\<close>

text \<open>
  The database as a map from keys to their expiry, \<open>None\<close> for a key without one. \<open>SETNX\<close> sets an absent or expired key; with a
  time to live of 0 the key does not expire.
\<close>

type_synonym redis_db = "string \<rightharpoonup> time option"

definition redis_live :: "time \<Rightarrow> redis_db \<Rightarrow> string \<Rightarrow> bool" where
  "redis_live t db k = (case db k of None \<Rightarrow> False | Some None \<Rightarrow> True | Some (Some e) \<Rightarrow> t < e)"

definition setnx :: "time \<Rightarrow> int \<Rightarrow> string \<Rightarrow> redis_db \<Rightarrow> bool \<times> redis_db" where
  "setnx t ttl k db =
     (if redis_live t db k then (False, db) else (True, db(k \<mapsto> (if ttl = 0 then None else Some (t + ttl)))))"

definition redis_key :: "string \<Rightarrow> string" where
  "redis_key eventID = ''billing:idempotent:'' @ eventID"

definition redis_check :: "int \<Rightarrow> redis_db checker" where
  "redis_check ttl x eventID db =
     (if fault x 0 then (Inl (), db)
      else let (set, db') = setnx (now x) ttl (redis_key eventID) db in (Inr (\<not> set), db'))"

lemma redis_key_inj [simp]: "redis_key i = redis_key j \<longleftrightarrow> i = j"
  by (simp add: redis_key_def)

text \<open>The time to live of the configuration is not negative.\<close>

definition redis_ttl :: "int \<Rightarrow> int" where
  "redis_ttl ttl = max 0 ttl"

interpretation redis_idem: idempotency_store "redis_check (redis_ttl ttl)" "\<lambda>t db i. redis_live t db (redis_key i)"
  "\<lambda>t t'. t \<le> t' \<and> (redis_ttl ttl = 0 \<or> t' < t + redis_ttl ttl)" for ttl
proof (unfold_locales, goal_cases)
  case (4 x i s r s' t j)
  then show ?case
    by (auto simp: redis_check_def setnx_def redis_live_def redis_ttl_def split: if_splits option.splits prod.splits)
qed (auto simp: redis_check_def setnx_def redis_live_def redis_ttl_def split: if_splits option.splits prod.splits)

section \<open>Choice of the store\<close>

datatype idem_kind = RedisStore string int | PostgresStore string int | MemoryStore

definition NewStore :: "string \<Rightarrow> string \<Rightarrow> int \<Rightarrow> bool \<Rightarrow> string + idem_kind" where
  "NewStore redisDSN databaseURL ttl isProd =
     (if redisDSN \<noteq> [] then Inr (RedisStore redisDSN ttl)
      else if databaseURL \<noteq> [] then Inr (PostgresStore databaseURL ttl)
      else if isProd then Inl ''production requires REDIS_DSN or DATABASE_URL for idempotency; in-memory store is not allowed''
      else Inr MemoryStore)"

section \<open>Payments and subscriptions\<close>

record bill_row =
  bEventID :: string
  bRawData :: string
  bUpdatedAt :: time

record billing_db =
  payments :: "bill_row list"
  subscriptions :: "bill_row list"

text \<open>A nil \<open>json.RawMessage\<close> is a NULL, which the column refuses.\<close>

definition SavePayment :: "ctx \<Rightarrow> string \<Rightarrow> string option \<Rightarrow> billing_db \<Rightarrow> billing_db option" where
  "SavePayment x eventID rawData db =
     (case rawData of
        None \<Rightarrow> None
      | Some d \<Rightarrow>
          if fault x 0 then None
          else if eventID \<in> bEventID ` set (payments db) then Some db
          else Some (db\<lparr>payments := payments db @ [\<lparr>bEventID = eventID, bRawData = d, bUpdatedAt = pg_time (now x)\<rparr>]\<rparr>))"

definition SaveSubscription :: "ctx \<Rightarrow> string \<Rightarrow> string option \<Rightarrow> billing_db \<Rightarrow> billing_db option" where
  "SaveSubscription x eventID rawData db =
     (case rawData of
        None \<Rightarrow> None
      | Some d \<Rightarrow>
          if fault x 0 then None
          else if eventID \<in> bEventID ` set (subscriptions db)
          then Some (db\<lparr>subscriptions := fst (sql_update (\<lambda>r. bEventID r = eventID)
                 (\<lambda>r. r\<lparr>bRawData := d, bUpdatedAt := pg_time (now x)\<rparr>) (subscriptions db))\<rparr>)
          else Some (db\<lparr>subscriptions := subscriptions db @ [\<lparr>bEventID = eventID, bRawData = d, bUpdatedAt = pg_time (now x)\<rparr>]\<rparr>))"

end
