(* ===== verification/Billing.thy ===== *)
theory Billing
  imports Billing_Store Api Go_Base64
begin

text \<open>
  The Stripe webhook of the billing service (services/billing/internal/stripe, handlers, publisher): verification of the signature header,
  deduplication, persistence in a transaction and publication. HMAC-SHA256 and the JSON decoding of an event are parameters, and so is the
  idempotency store's \<open>Check\<close>.
\<close>

section \<open>Signature verification\<close>

datatype stripe_error = ErrInvalidHeader | ErrNoValidSignature | ErrTimestampExpired

record signature_header =
  shTimestamp :: int
  shSignatures :: "string list"

definition hex_encode :: "string \<Rightarrow> string" where
  "hex_encode s =
     concat (map (\<lambda>c. let n = (of_char c :: nat); d = (\<lambda>k. if k < 10 then char_of (48 + k) else char_of (87 + k)) in [d (n div 16), d (n mod 16)]) s)"

definition computeSignature :: "(string \<Rightarrow> string \<Rightarrow> string) \<Rightarrow> int \<Rightarrow> string \<Rightarrow> string \<Rightarrow> string" where
  "computeSignature hmac timestamp payload secret = hex_encode (hmac secret (format_int timestamp @ ''.'' @ payload))"

text \<open>The loop over the pairs; a timestamp that does not parse ends it with an error.\<close>

fun parse_pairs :: "string list \<Rightarrow> signature_header \<Rightarrow> signature_header option" where
  "parse_pairs [] sh = Some sh"
| "parse_pairs (pair # pairs) sh =
     (case split_n 2 CHR ''='' (trim_space pair) of
        [k, v] \<Rightarrow>
          if k = ''t'' then (case parse_int v of None \<Rightarrow> None | Some ts \<Rightarrow> parse_pairs pairs (sh\<lparr>shTimestamp := ts\<rparr>))
          else if k = ''v1'' then parse_pairs pairs (sh\<lparr>shSignatures := shSignatures sh @ [v]\<rparr>)
          else parse_pairs pairs sh
      | _ \<Rightarrow> parse_pairs pairs sh)"

definition parseSignatureHeader :: "string \<Rightarrow> stripe_error + signature_header" where
  "parseSignatureHeader header =
     (if trim_space header = [] then Inl ErrInvalidHeader
      else
        (case parse_pairs (split_on CHR '','' header) \<lparr>shTimestamp = 0, shSignatures = []\<rparr> of
           None \<Rightarrow> Inl ErrInvalidHeader
         | Some sh \<Rightarrow> if shTimestamp sh = 0 \<or> shSignatures sh = [] then Inl ErrInvalidHeader else Inr sh))"

text \<open>
  \<open>time.Since(time.Unix(ts, 0))\<close>: a \<open>Time\<close> keeps its seconds since year 1 in an \<open>int64\<close>, which wraps for a
  timestamp near the end of that range, and a difference that is no \<open>int64\<close> of nanoseconds saturates.
\<close>

definition wrap64 :: "int \<Rightarrow> int" where
  "wrap64 i = (i + 2 ^ 63) mod 2 ^ 64 - 2 ^ 63"

definition unix_time :: "int \<Rightarrow> time" where
  "unix_time ts = (wrap64 (ts + 62135596800) - 62135596800) * 1000000000"

definition time_sub :: "time \<Rightarrow> time \<Rightarrow> int" where
  "time_sub t u = (if in_int64 (t - u) then t - u else if t < u then - (2 ^ 63) else 2 ^ 63 - 1)"

definition DefaultTolerance :: int where
  "DefaultTolerance = 5 * 60 * 1000000000"

definition ConstructEventWithTolerance ::
  "(string \<Rightarrow> string \<Rightarrow> string) \<Rightarrow> time \<Rightarrow> string \<Rightarrow> string \<Rightarrow> string \<Rightarrow> int \<Rightarrow> stripe_error + unit" where
  "ConstructEventWithTolerance hmac t payload sigHeader secret tolerance =
     (case parseSignatureHeader sigHeader of
        Inl e \<Rightarrow> Inl e
      | Inr header \<Rightarrow>
          let diff = time_sub t (unix_time (shTimestamp header));
              diff = (if diff < 0 then wrap64 (- diff) else diff)
          in if tolerance > 0 \<and> diff > tolerance then Inl ErrTimestampExpired
             else if computeSignature hmac (shTimestamp header) payload secret \<in> set (shSignatures header) then Inr ()
             else Inl ErrNoValidSignature)"

definition ConstructEvent :: "(string \<Rightarrow> string \<Rightarrow> string) \<Rightarrow> time \<Rightarrow> string \<Rightarrow> string \<Rightarrow> string \<Rightarrow> stripe_error + unit" where
  "ConstructEvent hmac t payload sigHeader secret = ConstructEventWithTolerance hmac t payload sigHeader secret DefaultTolerance"

section \<open>The webhook\<close>

record stripe_event =
  evID :: string
  evType :: string
  evObject :: "string option"

record billing_event =
  beEventID :: string
  beEventType :: string
  beData :: "string option"

record billing_env =
  biMac :: "string \<Rightarrow> string \<Rightarrow> string"
  biDecode :: "string \<Rightarrow> stripe_event option"
  biSecret :: string
  biPool :: bool
  biJetStream :: bool

text \<open>The state a webhook request can change: the idempotency store, the tables, and the messages the stream has acknowledged.\<close>

record 's billing =
  biIdem :: 's
  biDb :: billing_db
  biSent :: "(string \<times> billing_event) list"

record webhook_request =
  wrBody :: "string option"
  wrSignature :: string

definition maxBodyBytes :: nat where
  "maxBodyBytes = 65536"

definition Publish :: "billing_env \<Rightarrow> ctx \<Rightarrow> string \<Rightarrow> billing_event \<Rightarrow> 's billing \<Rightarrow> bool \<times> 's billing" where
  "Publish E x subject evt b =
     (if \<not> biJetStream E then (True, b)
      else if fault x 0 then (False, b)
      else (True, b\<lparr>biSent := biSent b @ [(subject, evt)]\<rparr>))"

text \<open>Begin (statement 0), the write \<open>save\<close> (1), commit (2) when there is a pool, then publish (3).\<close>

definition persist_and_publish ::
  "billing_env \<Rightarrow> ctx \<Rightarrow> (ctx \<Rightarrow> billing_db \<Rightarrow> billing_db option) \<Rightarrow> string \<Rightarrow> stripe_event \<Rightarrow> 's billing \<Rightarrow> bool \<times> 's billing" where
  "persist_and_publish E x save subject event b =
     (let evt = \<lparr>beEventID = evID event, beEventType = evType event, beData = evObject event\<rparr>
      in if \<not> biPool E then Publish E (stmt_ctx x 3) subject evt b
         else if fault x 0 then (False, b)
         else
           (case save (stmt_ctx x 1) (biDb b) of
              None \<Rightarrow> (False, b)
            | Some db \<Rightarrow>
                if fault x 2 then (False, b)
                else Publish E (stmt_ctx x 3) subject evt (b\<lparr>biDb := db\<rparr>)))"

definition handleCheckoutCompleted :: "billing_env \<Rightarrow> ctx \<Rightarrow> stripe_event \<Rightarrow> 's billing \<Rightarrow> bool \<times> 's billing" where
  "handleCheckoutCompleted E x event b =
     persist_and_publish E x (\<lambda>y. SavePayment y (evID event) (evObject event)) ''billing.payment.completed'' event b"

definition handleInvoicePaid :: "billing_env \<Rightarrow> ctx \<Rightarrow> stripe_event \<Rightarrow> 's billing \<Rightarrow> bool \<times> 's billing" where
  "handleInvoicePaid E x event b =
     persist_and_publish E x (\<lambda>y. SaveSubscription y (evID event) (evObject event)) ''billing.subscription.updated'' event b"

text \<open>The switch over the event types.\<close>

definition handle_event :: "billing_env \<Rightarrow> ctx \<Rightarrow> stripe_event \<Rightarrow> 's billing \<Rightarrow> bool \<times> 's billing" where
  "handle_event E x event b =
     (if evType event = ''checkout.session.completed'' then handleCheckoutCompleted E x event b
      else if evType event = ''invoice.paid'' then handleInvoicePaid E x event b
      else (True, b))"

definition ServeHTTP ::
  "'s checker \<Rightarrow> billing_env \<Rightarrow> ctx \<Rightarrow> ctx \<Rightarrow> webhook_request \<Rightarrow> 's billing \<Rightarrow> unit response \<times> 's billing" where
  "ServeHTTP chk E y x r b =
     (case wrBody r of
        None \<Rightarrow> (BadRequest ''READ_ERROR'' ''cannot read body'' [] None, b)
      | Some bytes \<Rightarrow>
          let body = take maxBodyBytes bytes
          in (case ConstructEvent (biMac E) (now y) body (wrSignature r) (biSecret E) of
                Inl e \<Rightarrow> (BadRequest ''INVALID_SIGNATURE'' ''webhook signature verification failed'' [] None, b)
              | Inr _ \<Rightarrow>
                  (case biDecode E body of
                     None \<Rightarrow> (BadRequest ''INVALID_JSON'' ''cannot parse event'' [] None, b)
                   | Some event \<Rightarrow>
                       if evID event = [] then (BadRequest ''MISSING_EVENT_ID'' ''event id is required'' [] None, b)
                       else
                         (case chk y (evID event) (biIdem b) of
                            (Inl _, s) \<Rightarrow> (Internal [], b\<lparr>biIdem := s\<rparr>)
                          | (Inr dup, s) \<Rightarrow>
                              let b = b\<lparr>biIdem := s\<rparr>
                              in if dup then (WriteHeader 200, b)
                                 else
                                   (case handle_event E x event b of
                                      (ok, b) \<Rightarrow> (if ok then WriteHeader 200 else Internal [], b))))))"

section \<open>Sequences of deliveries\<close>

type_synonym delivery = "ctx \<times> ctx \<times> webhook_request"

definition serve :: "'s checker \<Rightarrow> billing_env \<Rightarrow> delivery \<Rightarrow> 's billing \<Rightarrow> 's billing" where
  "serve chk E d b = (case d of (y, x, r) \<Rightarrow> snd (ServeHTTP chk E y x r b))"

abbreviation serves :: "'s checker \<Rightarrow> billing_env \<Rightarrow> delivery list \<Rightarrow> 's billing \<Rightarrow> 's billing" where
  "serves chk E ds b \<equiv> fold (serve chk E) ds b"

definition sent_ids :: "'s billing \<Rightarrow> string list" where
  "sent_ids b = map (\<lambda>p. beEventID (snd p)) (biSent b)"

lemma persist_effect:
  "persist_and_publish E x save subject event b = (ok, b') \<Longrightarrow>
   biIdem b' = biIdem b \<and> (sent_ids b' = sent_ids b \<or> sent_ids b' = sent_ids b @ [evID event])"
  by (auto simp: persist_and_publish_def Publish_def sent_ids_def Let_def split: if_splits option.splits)

lemma handle_event_effect:
  "biIdem (snd (handle_event E x event b)) = biIdem b \<and>
   (sent_ids (snd (handle_event E x event b)) = sent_ids b \<or> sent_ids (snd (handle_event E x event b)) = sent_ids b @ [evID event])"
proof -
  have "biIdem (snd (persist_and_publish E x save sub event b)) = biIdem b \<and>
      (sent_ids (snd (persist_and_publish E x save sub event b)) = sent_ids b \<or>
       sent_ids (snd (persist_and_publish E x save sub event b)) = sent_ids b @ [evID event])" for save sub
    using persist_effect [of E x save sub event b] by (metis surjective_pairing)
  then show ?thesis by (simp add: handle_event_def handleCheckoutCompleted_def handleInvoicePaid_def)
qed

text \<open>A delivery is rejected before the check, or it reaches the check with the event of its body.\<close>

definition accepted :: "billing_env \<Rightarrow> ctx \<Rightarrow> webhook_request \<Rightarrow> stripe_event \<Rightarrow> bool" where
  "accepted E y r event \<longleftrightarrow>
     (\<exists>bytes. wrBody r = Some bytes \<and> isr (ConstructEvent (biMac E) (now y) (take maxBodyBytes bytes) (wrSignature r) (biSecret E)) \<and>
        biDecode E (take maxBodyBytes bytes) = Some event \<and> evID event \<noteq> [])"

lemma not_accepted: "(\<And>event. \<not> accepted E y r event) \<Longrightarrow> rStatus (fst (ServeHTTP chk E y x r b)) = 400 \<and> snd (ServeHTTP chk E y x r b) = b"
  by (auto simp: ServeHTTP_def accepted_def api_defs Let_def split: option.split sum.split)

lemma accepted_serve:
  "accepted E y r event \<Longrightarrow>
   ServeHTTP chk E y x r b =
     (case chk y (evID event) (biIdem b) of
        (Inl _, s) \<Rightarrow> (Internal [], b\<lparr>biIdem := s\<rparr>)
      | (Inr dup, s) \<Rightarrow>
          if dup then (WriteHeader 200, b\<lparr>biIdem := s\<rparr>)
          else (case handle_event E x event (b\<lparr>biIdem := s\<rparr>) of (ok, b') \<Rightarrow> (if ok then WriteHeader 200 else Internal [], b')))"
  by (auto simp: ServeHTTP_def accepted_def Let_def isl_def split: sum.splits prod.splits)

text \<open>What one delivery does: nothing but a check that failed or found a duplicate, or the work of one event that was new.\<close>

lemma serve_cases:
  "serve chk E (y, x, r) b = b \<or>
   (\<exists>i res s. chk y i (biIdem b) = (res, s) \<and> biIdem (serve chk E (y, x, r) b) = s \<and>
      (sent_ids (serve chk E (y, x, r) b) = sent_ids b \<or>
       res = Inr False \<and> sent_ids (serve chk E (y, x, r) b) = sent_ids b @ [i]))"
proof (cases "\<exists>event. accepted E y r event")
  case True
  then obtain ev where a: "accepted E y r ev" by blast
  obtain res st where k: "chk y (evID ev) (biIdem b) = (res, st)" by (cases "chk y (evID ev) (biIdem b)")
  have s: "sent_ids (b\<lparr>biIdem := st\<rparr>) = sent_ids b" by (simp add: sent_ids_def)
  show ?thesis
  proof (cases "res = Inr False")
    case True
    then have "serve chk E (y, x, r) b = snd (handle_event E x ev (b\<lparr>biIdem := st\<rparr>))"
      using accepted_serve [OF a, of chk x b] k by (simp add: serve_def split: prod.split)
    then show ?thesis using handle_event_effect [of E x ev "b\<lparr>biIdem := st\<rparr>"] k s True by auto
  next
    case False
    then have "serve chk E (y, x, r) b = b\<lparr>biIdem := st\<rparr>"
      using accepted_serve [OF a, of chk x b] k by (simp add: serve_def split: sum.split)
    then show ?thesis using k s by auto
  qed
next
  case False
  then show ?thesis using not_accepted [of E y r chk x b] by (auto simp: serve_def)
qed

context idempotency_store
begin

text \<open>Within the lifetime of the marks every event is published at most once.\<close>

lemma published_once:
  assumes "sorted_wrt (\<lambda>a b. lasts (now (fst a)) (now (fst b))) ds" "distinct (sent_ids b)"
    and "\<And>d i. d \<in> set ds \<Longrightarrow> i \<in> set (sent_ids b) \<Longrightarrow> seen (now (fst d)) (biIdem b) i"
  shows "distinct (sent_ids (serves check E ds b))"
  using assms
proof (induction ds arbitrary: b)
  case (Cons d ds)
  obtain y x r where d: "d = (y, x, r)" by (cases d)
  let ?b = "serve check E d b"
  have n: "distinct (sent_ids ?b) \<and> (\<forall>d' i. d' \<in> set ds \<longrightarrow> i \<in> set (sent_ids ?b) \<longrightarrow> seen (now (fst d')) (biIdem ?b) i)"
    using serve_cases [of check E y x r b]
  proof (elim disjE exE conjE)
    fix i res s
    assume a: "check y i (biIdem b) = (res, s)" "biIdem (serve check E (y, x, r) b) = s" "sent_ids (serve check E (y, x, r) b) = sent_ids b"
    then show ?thesis using Cons.prems d stays [OF a(1)] by auto
  next
    fix i res s
    assume a: "check y i (biIdem b) = (res, s)" "biIdem (serve check E (y, x, r) b) = s"
      and n: "res = Inr False" "sent_ids (serve check E (y, x, r) b) = sent_ids b @ [i]"
    have "\<not> seen (now y) (biIdem b) i" using reports a(1) n(1) by blast
    then have "i \<notin> set (sent_ids b)" using Cons.prems(3) [of d] d by auto
    moreover have "seen (now (fst d')) s i" if "d' \<in> set ds" for d' using marks a(1) n(1) Cons.prems(1) that d by auto
    ultimately show ?thesis using Cons.prems d a n stays [OF a(1)] by auto
  qed (use Cons.prems d in auto)
  have "distinct (sent_ids (serves check E ds ?b))" using Cons.prems(1) n by (intro Cons.IH) (simp, blast+)
  then show ?case by simp
qed simp

lemma seen_kept: "seen t (biIdem b) i \<Longrightarrow> seen t (biIdem (serves check E ds b)) i"
proof (induction ds arbitrary: b)
  case (Cons d ds)
  obtain y x r where d: "d = (y, x, r)" by (cases d)
  have "seen t (biIdem (serve check E d b)) i"
    using serve_cases [of check E y x r b] stays Cons.prems d by (metis (no_types, lifting))
  then show ?case using Cons.IH by simp
qed simp

end

text \<open>The window of the tolerance check.\<close>

lemma wrap64_id: "in_int64 i \<Longrightarrow> wrap64 i = i"
  by (simp add: wrap64_def in_int64_def)

lemma tolerance_window:
  assumes "\<not> (if time_sub t u < 0 then wrap64 (- time_sub t u) else time_sub t u) > DefaultTolerance"
  shows "\<bar>t - u\<bar> \<le> DefaultTolerance \<or> u - t \<ge> 2 ^ 63"
proof (cases "in_int64 (t - u) \<and> t - u \<noteq> - (2 ^ 63)")
  case True
  then have "in_int64 (- (t - u))" by (auto simp: in_int64_def)
  with True assms show ?thesis by (auto simp: time_sub_def wrap64_id split: if_splits)
next
  case False
  then show ?thesis using assms by (auto simp: time_sub_def in_int64_def DefaultTolerance_def split: if_splits)
qed

section \<open>Properties\<close>

text \<open>
  C9. Every event is published at most once, however often and in whatever order its webhook is delivered: with the Postgres and the
  in-memory store always, with Redis for deliveries within the time to live of its keys.
\<close>

theorem webhook_publishes_once:
  "distinct (sent_ids (serves pg_check E ds \<lparr>biIdem = s1, biDb = db, biSent = []\<rparr>)) \<and>
   distinct (sent_ids (serves mem_check E ds \<lparr>biIdem = s2, biDb = db, biSent = []\<rparr>)) \<and>
   (0 < ttl \<and> sorted_wrt (\<lambda>a b. now (fst a) \<le> now (fst b) \<and> now (fst b) < now (fst a) + ttl) ds \<longrightarrow>
    distinct (sent_ids (serves (redis_check ttl) E ds \<lparr>biIdem = s3, biDb = db, biSent = []\<rparr>)))"
proof (intro conjI impI)
  have t: "sorted_wrt (\<lambda>a b. True) ds" by (induction ds) auto
  show "distinct (sent_ids (serves pg_check E ds \<lparr>biIdem = s1, biDb = db, biSent = []\<rparr>))"
    by (rule pg_idem.published_once) (use t in \<open>simp_all add: sent_ids_def\<close>)
  show "distinct (sent_ids (serves mem_check E ds \<lparr>biIdem = s2, biDb = db, biSent = []\<rparr>))"
    by (rule mem_idem.published_once) (use t in \<open>simp_all add: sent_ids_def\<close>)
  assume a: "0 < ttl \<and> sorted_wrt (\<lambda>a b. now (fst a) \<le> now (fst b) \<and> now (fst b) < now (fst a) + ttl) ds"
  then have "redis_ttl ttl = ttl" by (simp add: redis_ttl_def)
  with a redis_idem.published_once [where ttl = ttl and ds = ds and b = "\<lparr>biIdem = s3, biDb = db, biSent = []\<rparr>" and E = E]
  show "distinct (sent_ids (serves (redis_check ttl) E ds \<lparr>biIdem = s3, biDb = db, biSent = []\<rparr>))"
    by (simp add: sent_ids_def)
qed

definition demo_event :: stripe_event where
  "demo_event = \<lparr>evID = ''evt_1'', evType = ''invoice.paid'', evObject = Some ''{}''\<rparr>"

definition demo_billing :: billing_env where
  "demo_billing = \<lparr>biMac = (\<lambda>k m. []), biDecode = (\<lambda>_. Some demo_event), biSecret = ''s'', biPool = True, biJetStream = True\<rparr>"

definition demo_delivery :: webhook_request where
  "demo_delivery = \<lparr>wrBody = Some ''{}'', wrSignature = ''t=1,v1=''\<rparr>"

theorem webhook_publishes_once_witness:
  "distinct (sent_ids (serves (redis_check 100) demo_billing [(calm 1 [], calm 1 [], demo_delivery), (calm 50 [], calm 50 [], demo_delivery)]
     \<lparr>biIdem = Map.empty, biDb = \<lparr>payments = [], subscriptions = []\<rparr>, biSent = []\<rparr>))"
  using webhook_publishes_once [THEN conjunct2, THEN conjunct2, of 100 "[(calm 1 [], calm 1 [], demo_delivery), (calm 50 [], calm 50 [], demo_delivery)]"]
  by simp

text \<open>
  C28. A webhook changes nothing without a valid signature: if a delivery has any effect, its header carries the HMAC of its timestamp
  and its body (up to the size limit) under the webhook secret, and the timestamp is within five minutes of the clock, or more than
  292 years ahead of it, where the difference overflows.
\<close>

theorem webhook_authenticated:
  assumes "snd (ServeHTTP chk E y x r b) \<noteq> b"
  shows "\<exists>bytes sh. wrBody r = Some bytes \<and> parseSignatureHeader (wrSignature r) = Inr sh \<and>
     computeSignature (biMac E) (shTimestamp sh) (take maxBodyBytes bytes) (biSecret E) \<in> set (shSignatures sh) \<and>
     (\<bar>now y - unix_time (shTimestamp sh)\<bar> \<le> DefaultTolerance \<or> unix_time (shTimestamp sh) - now y \<ge> 2 ^ 63)"
proof -
  obtain event where "accepted E y r event" using not_accepted assms by blast
  then obtain bytes where b: "wrBody r = Some bytes" "isr (ConstructEvent (biMac E) (now y) (take maxBodyBytes bytes) (wrSignature r) (biSecret E))"
    by (auto simp: accepted_def)
  obtain sh where sh: "parseSignatureHeader (wrSignature r) = Inr sh"
    using b(2) by (auto simp: ConstructEvent_def ConstructEventWithTolerance_def split: sum.splits)
  let ?d = "time_sub (now y) (unix_time (shTimestamp sh))"
  have ok: "\<not> (if ?d < 0 then wrap64 (- ?d) else ?d) > DefaultTolerance"
    and sig: "computeSignature (biMac E) (shTimestamp sh) (take maxBodyBytes bytes) (biSecret E) \<in> set (shSignatures sh)"
    using b(2) sh by (auto simp: ConstructEvent_def ConstructEventWithTolerance_def DefaultTolerance_def Let_def split: if_splits)
  have "\<bar>now y - unix_time (shTimestamp sh)\<bar> \<le> DefaultTolerance \<or> unix_time (shTimestamp sh) - now y \<ge> 2 ^ 63"
    using tolerance_window [OF ok] .
  with b(1) sh sig show ?thesis by blast
qed

lemma demo_header: "parseSignatureHeader ''t=1,v1='' = Inr \<lparr>shTimestamp = 1, shSignatures = [[]]\<rparr>"
  by code_simp

lemma far_header: "parseSignatureHeader ''t=9223372037,v1='' = Inr \<lparr>shTimestamp = 9223372037, shSignatures = [[]]\<rparr>"
proof -
  have 1: "split_on CHR '','' ''t=9223372037,v1='' = [''t=9223372037'', ''v1='']" "trim_space ''t=9223372037,v1='' \<noteq> []"
    "trim_space ''t=9223372037'' = ''t=9223372037''" "trim_space ''v1='' = ''v1=''" "split_n 2 CHR ''='' ''t=9223372037'' = [''t'', ''9223372037'']"
    "split_n 2 CHR ''='' ''v1='' = [''v1'', []]" by code_simp+
  have "parse_int ''9223372037'' = Some 9223372037" by (simp add: parse_int_def is_digit_def in_int64_def)
  with 1 show ?thesis by (simp add: parseSignatureHeader_def)
qed

lemma demo_accepted: "0 \<le> t \<Longrightarrow> t \<le> 1000000000 \<Longrightarrow> accepted demo_billing (calm t i) demo_delivery demo_event"
  by (simp add: accepted_def demo_delivery_def demo_billing_def demo_event_def ConstructEvent_def ConstructEventWithTolerance_def demo_header
      computeSignature_def hex_encode_def unix_time_def wrap64_def time_sub_def in_int64_def DefaultTolerance_def Let_def)

theorem webhook_authenticated_witness:
  "snd (ServeHTTP pg_check demo_billing (calm 0 []) (calm 0 []) demo_delivery
       \<lparr>biIdem = \<lparr>poolUp = True, processed = []\<rparr>, biDb = \<lparr>payments = [], subscriptions = []\<rparr>, biSent = []\<rparr>) \<noteq>
     \<lparr>biIdem = \<lparr>poolUp = True, processed = []\<rparr>, biDb = \<lparr>payments = [], subscriptions = []\<rparr>, biSent = []\<rparr> \<and>
   (\<exists>bytes sh. wrBody demo_delivery = Some bytes \<and> parseSignatureHeader (wrSignature demo_delivery) = Inr sh \<and>
     (\<bar>0 - unix_time (shTimestamp sh)\<bar> \<le> DefaultTolerance \<or> unix_time (shTimestamp sh) - 0 \<ge> 2 ^ 63))"
proof -
  let ?b = "\<lparr>biIdem = \<lparr>poolUp = True, processed = []\<rparr>, biDb = \<lparr>payments = [], subscriptions = []\<rparr>, biSent = []\<rparr>"
  have k: "pg_check (calm 0 []) (evID demo_event) (biIdem ?b) = (Inr False, \<lparr>poolUp = True, processed = [(evID demo_event, pg_time 0)]\<rparr>)"
    by (simp add: pg_check_def ensurePool_def)
  have "biIdem (snd (ServeHTTP pg_check demo_billing (calm 0 []) (calm 0 []) demo_delivery ?b)) = \<lparr>poolUp = True, processed = [(evID demo_event, pg_time 0)]\<rparr>"
    using accepted_serve [OF demo_accepted, of 0 pg_check "[]" "calm 0 []" ?b] k handle_event_effect [of demo_billing "calm 0 []" demo_event "?b\<lparr>biIdem := \<lparr>poolUp = True, processed = [(evID demo_event, pg_time 0)]\<rparr>\<rparr>"]
    by (auto split: prod.splits)
  then have n: "snd (ServeHTTP pg_check demo_billing (calm 0 []) (calm 0 []) demo_delivery ?b) \<noteq> ?b" by auto
  from webhook_authenticated [OF this] n show ?thesis unfolding calm_simps by blast
qed

text \<open>
  A timestamp more than 292 years ahead passes the tolerance check: the saturated difference is the least \<open>int64\<close>, whose negation is itself.
\<close>

lemma far_future_accepted: "ConstructEvent (\<lambda>k m. []) 0 payload ''t=9223372037,v1='' secret = Inr ()"
  by (simp add: ConstructEvent_def ConstructEventWithTolerance_def far_header computeSignature_def hex_encode_def unix_time_def wrap64_def
      time_sub_def in_int64_def DefaultTolerance_def Let_def)


text \<open>The example: the commit of the first delivery fails.\<close>

definition bad_commit :: ctx where
  "bad_commit = (calm 0 [])\<lparr>fault := (\<lambda>i. i = 2)\<rparr>"


end
