(* ===== verification/Catalog_Store.thy ===== *)
theory Catalog_Store
  imports Keyset Api
begin

text \<open>
  Persistence of the catalog (services/catalog/internal/store): anime, episodes, the identifiers providers give them, and the
  transactional outbox, with the keys of services/catalog/migrations. \<open>uuid_of\<close> is the reading of identifier text by the driver and the
  database, \<open>ids i\<close> the results of \<open>uuid.New\<close> in order. A score is the bit pattern of its \<open>float32\<close>; the JSON column of the genres is
  the list it encodes.
\<close>

section \<open>Tables\<close>

record anime =
  anID :: uuid
  anTitle :: string
  anTitleEnglish :: string
  anTitleJapanese :: string
  anURL :: string
  anImage :: string
  anDescription :: string
  anGenres :: "string list"
  anSubOrDub :: string
  anType :: string
  anStatus :: string
  anOtherName :: string
  anTotalEpisodes :: i32
  anScore :: i32

record anime_row =
  arAnime :: anime
  arUpdatedAt :: time

record episode =
  epID :: uuid
  epAnimeID :: uuid
  epNumber :: i32
  epTitle :: string
  epURL :: string
  epAiredAt :: "time option"

record episode_row =
  erEpisode :: episode
  erIsFiller :: bool
  erUpdatedAt :: time

record outbox_row =
  obID :: uuid
  obEventType :: string
  obAnimeID :: string
  obCreatedAt :: time
  obPublishedAt :: "time option"

type_synonym ext_row = "(string \<times> string) \<times> uuid"

record catalog_db =
  cdAnime :: "anime_row list"
  cdExtAnime :: "ext_row list"
  cdEpisodes :: "episode_row list"
  cdExtEpisodes :: "ext_row list"
  cdOutbox :: "outbox_row list"

record episode_input =
  eiProviderEpisodeID :: string
  eiNumber :: i32
  eiTitle :: string
  eiURL :: string
  eiIsFiller :: bool
  eiHasIsFiller :: bool

record jikan_input =
  jiMalID :: i32
  jiTitle :: string
  jiTitleEnglish :: string
  jiTitleJapanese :: string
  jiImage :: string
  jiSynopsis :: string
  jiGenres :: "string list"
  jiType :: string
  jiStatus :: string
  jiTotalEpisodes :: i32
  jiScore :: i32

definition db_err :: "string \<Rightarrow> grpc_status" where
  "db_err msg = status_Error InternalCode msg"

abbreviation anime_ids :: "catalog_db \<Rightarrow> uuid set" where
  "anime_ids db \<equiv> (\<lambda>r. anID (arAnime r)) ` set (cdAnime db)"

abbreviation episode_ids :: "catalog_db \<Rightarrow> uuid set" where
  "episode_ids db \<equiv> (\<lambda>r. epID (erEpisode r)) ` set (cdEpisodes db)"

section \<open>Anime: reads\<close>

text \<open>\<open>$1::uuid[]\<close>: one text that is no identifier fails the statement.\<close>

definition uuid_array :: "(string \<Rightarrow> uuid option) \<Rightarrow> string list \<Rightarrow> uuid list option" where
  "uuid_array uuid_of ids = (if \<exists>i \<in> set ids. uuid_of i = None then None else Some (map (\<lambda>i. the (uuid_of i)) ids))"

definition GetAnimeByIDs :: "(string \<Rightarrow> uuid option) \<Rightarrow> ctx \<Rightarrow> string list \<Rightarrow> catalog_db \<Rightarrow> grpc_status + anime list" where
  "GetAnimeByIDs uuid_of x ids db =
     (if ids = [] then Inr []
      else
        (case uuid_array uuid_of ids of
           None \<Rightarrow> Inl (db_err ''db query'')
         | Some ks \<Rightarrow>
             if fault x 0 then Inl (db_err ''db query'')
             else Inr (map (\<lambda>r. (arAnime r)\<lparr>anURL := [], anSubOrDub := [], anOtherName := []\<rparr>)
                    (filter (\<lambda>r. anID (arAnime r) \<in> set ks) (cdAnime db)))))"

definition GetAllAnimeIDs :: "ctx \<Rightarrow> catalog_db \<Rightarrow> grpc_status + uuid list" where
  "GetAllAnimeIDs x db =
     (if fault x 0 then Inl (db_err ''db query'') else Inr (map (\<lambda>r. anID (arAnime r)) (order_by_desc arUpdatedAt (cdAnime db))))"

definition ResolveAnimeIDByExternalID :: "ctx \<Rightarrow> string \<Rightarrow> string \<Rightarrow> catalog_db \<Rightarrow> grpc_status + uuid" where
  "ResolveAnimeIDByExternalID x provider externalID db =
     (if fault x 0 then Inl (db_err ''db'')
      else
        (case row_by fst (provider, externalID) (cdExtAnime db) of
           None \<Rightarrow> Inl (status_Error NotFoundCode ''not found'')
         | Some r \<Rightarrow> Inr (snd r)))"

section \<open>Anime: writes\<close>

text \<open>\<open>INSERT ... ON CONFLICT (provider, provider_anime_id) DO UPDATE SET anime_id\<close>\<close>

definition upsert_ext :: "string \<times> string \<Rightarrow> uuid \<Rightarrow> ext_row list \<Rightarrow> ext_row list" where
  "upsert_ext k i rows =
     (if k \<in> fst ` set rows then fst (sql_update (\<lambda>r. fst r = k) (\<lambda>r. (fst r, i)) rows) else rows @ [(k, i)])"

definition AttachExternalAnimeID ::
  "(string \<Rightarrow> uuid option) \<Rightarrow> ctx \<Rightarrow> string \<Rightarrow> string \<Rightarrow> string \<Rightarrow> catalog_db \<Rightarrow> (grpc_status + unit) \<times> catalog_db" where
  "AttachExternalAnimeID uuid_of x provider externalID animeID db =
     (case uuid_of animeID of
        None \<Rightarrow> (Inl (db_err ''db''), db)
      | Some i \<Rightarrow>
          if fault x 0 \<or> i \<notin> anime_ids db then (Inl (db_err ''db''), db)
          else (Inr (), db\<lparr>cdExtAnime := upsert_ext (provider, externalID) i (cdExtAnime db)\<rparr>))"

definition insertOutboxEvent :: "ctx \<Rightarrow> uuid \<Rightarrow> string \<Rightarrow> catalog_db \<Rightarrow> catalog_db option" where
  "insertOutboxEvent x i animeID db =
     (if fault x 0 \<or> i \<in> obID ` set (cdOutbox db) then None
      else Some (db\<lparr>cdOutbox := cdOutbox db @
             [\<lparr>obID = i, obEventType = ''catalog.anime.upserted'', obAnimeID = animeID, obCreatedAt = pg_time (now x), obPublishedAt = None\<rparr>]\<rparr>))"

text \<open>The row an upsert writes: a new one, or an old one with the columns of the \<open>UPDATE\<close> set.\<close>

definition jikan_row :: "uuid \<Rightarrow> time \<Rightarrow> jikan_input \<Rightarrow> anime_row" where
  "jikan_row i t a =
     \<lparr>arAnime = \<lparr>anID = i, anTitle = jiTitle a, anTitleEnglish = jiTitleEnglish a, anTitleJapanese = jiTitleJapanese a, anURL = [],
        anImage = jiImage a, anDescription = jiSynopsis a, anGenres = jiGenres a, anSubOrDub = ''unknown'', anType = jiType a,
        anStatus = jiStatus a, anOtherName = [], anTotalEpisodes = jiTotalEpisodes a, anScore = jiScore a\<rparr>,
      arUpdatedAt = pg_time t\<rparr>"

definition jikan_update :: "time \<Rightarrow> jikan_input \<Rightarrow> anime_row \<Rightarrow> anime_row" where
  "jikan_update t a r =
     r\<lparr>arAnime := (arAnime r)\<lparr>anTitle := jiTitle a, anTitleEnglish := jiTitleEnglish a, anTitleJapanese := jiTitleJapanese a,
         anImage := jiImage a, anDescription := jiSynopsis a, anGenres := jiGenres a, anType := jiType a, anStatus := jiStatus a,
         anTotalEpisodes := jiTotalEpisodes a, anScore := jiScore a\<rparr>,
       arUpdatedAt := pg_time t\<rparr>"

text \<open>The statements between begin and outbox: select (1), then insert (2) and insert (3), or update (2).\<close>

definition jikan_write :: "ctx \<Rightarrow> uuid \<Rightarrow> jikan_input \<Rightarrow> catalog_db \<Rightarrow> grpc_status + uuid \<times> catalog_db" where
  "jikan_write x new a db =
     (let k = (''mal'', format_int (sint (jiMalID a)))
      in if fault x 1 then Inl (db_err ''db'')
         else
           (case row_by fst k (cdExtAnime db) of
              None \<Rightarrow>
                if fault x 2 \<or> new \<in> anime_ids db \<or> fault x 3 then Inl (db_err ''db'')
                else Inr (new, db\<lparr>cdAnime := cdAnime db @ [jikan_row new (now x) a], cdExtAnime := cdExtAnime db @ [(k, new)]\<rparr>)
            | Some r \<Rightarrow>
                if fault x 2 then Inl (db_err ''db'')
                else Inr (snd r, db\<lparr>cdAnime := fst (sql_update (\<lambda>q. anID (arAnime q) = snd r) (jikan_update (now x) a) (cdAnime db))\<rparr>)))"

definition UpsertJikanAnime :: "ctx \<Rightarrow> (nat \<Rightarrow> uuid) \<Rightarrow> jikan_input \<Rightarrow> catalog_db \<Rightarrow> (grpc_status + uuid) \<times> catalog_db" where
  "UpsertJikanAnime x ids a db =
     (if fault x 0 then (Inl (db_err ''db begin''), db)
      else
        (case jikan_write x (ids 0) a db of
           Inl e \<Rightarrow> (Inl e, db)
         | Inr (i, db1) \<Rightarrow>
             (case insertOutboxEvent (stmt_ctx x 4) (ids 1) i db1 of
                None \<Rightarrow> (Inl (db_err ''db outbox''), db)
              | Some db2 \<Rightarrow> if fault x 5 then (Inl (db_err ''db commit''), db) else (Inr i, db2))))"

section \<open>Episodes: reads\<close>

definition select_episode :: "episode_row \<Rightarrow> episode" where
  "select_episode r = (erEpisode r)\<lparr>epURL := []\<rparr>"

definition GetEpisodesByAnimeID :: "(string \<Rightarrow> uuid option) \<Rightarrow> ctx \<Rightarrow> string \<Rightarrow> catalog_db \<Rightarrow> grpc_status + episode list" where
  "GetEpisodesByAnimeID uuid_of x animeID db =
     (case uuid_of animeID of
        None \<Rightarrow> Inl (db_err ''db query'')
      | Some i \<Rightarrow>
          if fault x 0 then Inl (db_err ''db query'')
          else Inr (map select_episode (sort_key (\<lambda>r. sint (epNumber (erEpisode r))) (filter (\<lambda>r. epAnimeID (erEpisode r) = i) (cdEpisodes db)))))"

definition GetEpisodesByIDs :: "(string \<Rightarrow> uuid option) \<Rightarrow> ctx \<Rightarrow> string list \<Rightarrow> catalog_db \<Rightarrow> grpc_status + episode list" where
  "GetEpisodesByIDs uuid_of x ids db =
     (if ids = [] then Inr []
      else
        (case uuid_array uuid_of ids of
           None \<Rightarrow> Inl (db_err ''db query'')
         | Some ks \<Rightarrow>
             if fault x 0 then Inl (db_err ''db query'')
             else Inr (map select_episode (filter (\<lambda>r. epID (erEpisode r) \<in> set ks) (cdEpisodes db)))))"

definition GetProviderEpisodeID :: "(string \<Rightarrow> uuid option) \<Rightarrow> ctx \<Rightarrow> string \<Rightarrow> string \<Rightarrow> catalog_db \<Rightarrow> grpc_status + string" where
  "GetProviderEpisodeID uuid_of x episodeID provider db =
     (case uuid_of episodeID of
        None \<Rightarrow> Inl (db_err ''db query'')
      | Some i \<Rightarrow>
          if fault x 0 then Inl (db_err ''db query'')
          else
            (case sort (map (\<lambda>r. snd (fst r)) (filter (\<lambda>r. snd r = i \<and> fst (fst r) = provider) (cdExtEpisodes db))) of
               [] \<Rightarrow> Inl (status_Error NotFoundCode ''provider episode not found'')
             | p # _ \<Rightarrow> Inr p))"

section \<open>Episodes: writes\<close>

text \<open>The unique index on the anime and the number of an episode.\<close>

definition number_taken :: "uuid \<Rightarrow> uuid \<Rightarrow> i32 \<Rightarrow> episode_row list \<Rightarrow> bool" where
  "number_taken i animeID n rows \<longleftrightarrow>
     (\<exists>r \<in> set rows. epID (erEpisode r) \<noteq> i \<and> epAnimeID (erEpisode r) = animeID \<and> epNumber (erEpisode r) = n)"

definition writeEpisode :: "ctx \<Rightarrow> uuid \<Rightarrow> uuid \<Rightarrow> episode_input \<Rightarrow> time \<Rightarrow> bool \<Rightarrow> catalog_db \<Rightarrow> catalog_db option" where
  "writeEpisode x i animeID ep t ins db =
     (if fault x 0 \<or> number_taken i animeID (eiNumber ep) (cdEpisodes db) then None
      else if ins then
        (if i \<in> episode_ids db then None
         else Some (db\<lparr>cdEpisodes := cdEpisodes db @
                [\<lparr>erEpisode = \<lparr>epID = i, epAnimeID = animeID, epNumber = eiNumber ep, epTitle = eiTitle ep,
                    epURL = (if eiHasIsFiller ep then [] else eiURL ep), epAiredAt = None\<rparr>,
                  erIsFiller = eiHasIsFiller ep \<and> eiIsFiller ep, erUpdatedAt = pg_time t\<rparr>]\<rparr>))
      else
        Some (db\<lparr>cdEpisodes := fst (sql_update (\<lambda>r. epID (erEpisode r) = i)
          (\<lambda>r. let e = (erEpisode r)\<lparr>epAnimeID := animeID, epNumber := eiNumber ep, epTitle := eiTitle ep\<rparr>
               in if eiHasIsFiller ep then r\<lparr>erEpisode := e, erIsFiller := eiIsFiller ep, erUpdatedAt := pg_time t\<rparr>
                  else r\<lparr>erEpisode := e\<lparr>epURL := eiURL ep\<rparr>, erUpdatedAt := pg_time t\<rparr>) (cdEpisodes db))\<rparr>))"

text \<open>One episode of the loop: select (statement 0), write (1), and for a new one the binding (2) to the identifier \<open>new\<close>.\<close>

definition upsert_episode ::
  "ctx \<Rightarrow> uuid \<Rightarrow> string \<Rightarrow> uuid \<Rightarrow> time \<Rightarrow> episode_input \<Rightarrow> catalog_db \<Rightarrow> (uuid \<times> catalog_db) option" where
  "upsert_episode y new provider animeID t ep db =
     (let k = (provider, eiProviderEpisodeID ep)
      in if fault y 0 then None
         else
           (case row_by fst k (cdExtEpisodes db) of
              None \<Rightarrow>
                (case writeEpisode (stmt_ctx y 1) new animeID ep t True db of
                   None \<Rightarrow> None
                 | Some db1 \<Rightarrow> if fault y 2 then None else Some (new, db1\<lparr>cdExtEpisodes := cdExtEpisodes db1 @ [(k, new)]\<rparr>))
            | Some r \<Rightarrow>
                (case writeEpisode (stmt_ctx y 1) (snd r) animeID ep t False db of
                   None \<Rightarrow> None
                 | Some db1 \<Rightarrow> Some (snd r, db1))))"

text \<open>Episode \<open>n\<close> of the loop uses the environment \<open>ys n\<close> and, when it is new, the identifier \<open>ids n\<close>.\<close>

fun upsertEpisodes ::
  "(nat \<Rightarrow> ctx) \<Rightarrow> (nat \<Rightarrow> uuid) \<Rightarrow> string \<Rightarrow> uuid \<Rightarrow> time \<Rightarrow> (nat \<times> episode_input) list \<Rightarrow> catalog_db \<Rightarrow> grpc_status + uuid list \<times> catalog_db" where
  "upsertEpisodes ys ids provider animeID t [] db = Inr ([], db)"
| "upsertEpisodes ys ids provider animeID t ((n, ep) # eps) db =
     (if eiProviderEpisodeID ep = [] then upsertEpisodes ys ids provider animeID t eps db
      else
        (case upsert_episode (ys n) (ids n) provider animeID t ep db of
           None \<Rightarrow> Inl (db_err ''db'')
         | Some (i, db2) \<Rightarrow>
             (case upsertEpisodes ys ids provider animeID t eps db2 of
                Inl e \<Rightarrow> Inl e
              | Inr (is, db3) \<Rightarrow> Inr (i # is, db3))))"

text \<open>Begin (statement 0), the binding (1), the episodes, the outbox event (2), commit (3).\<close>

definition UpsertHiAnimeEpisodes ::
  "(string \<Rightarrow> uuid option) \<Rightarrow> ctx \<Rightarrow> (nat \<Rightarrow> ctx) \<Rightarrow> (nat \<Rightarrow> uuid) \<Rightarrow> string \<Rightarrow> string \<Rightarrow> episode_input list \<Rightarrow> catalog_db \<Rightarrow>
   (grpc_status + uuid list) \<times> catalog_db" where
  "UpsertHiAnimeEpisodes uuid_of x ys ids animeID slug episodes db =
     (case uuid_of (trim_space animeID) of
        None \<Rightarrow> (Inl (status_Error InvalidArgument ''invalid anime_id''), db)
      | Some i \<Rightarrow>
          if fault x 0 then (Inl (db_err ''db begin''), db)
          else if fault x 1 \<or> i \<notin> anime_ids db then (Inl (db_err ''db''), db)
          else
            (case upsertEpisodes ys ids ''hianime'' i (now x) (enumerate 0 episodes)
                    (db\<lparr>cdExtAnime := upsert_ext (''hianime'', slug) i (cdExtAnime db)\<rparr>) of
               Inl e \<Rightarrow> (Inl e, db)
             | Inr (is, db1) \<Rightarrow>
                 (case insertOutboxEvent (stmt_ctx x 2) (ids (length episodes)) animeID db1 of
                    None \<Rightarrow> (Inl (db_err ''db outbox''), db)
                  | Some db2 \<Rightarrow> if fault x 3 then (Inl (db_err ''db commit''), db) else (Inr is, db2))))"

end
