(* ===== verification/Catalog.thy ===== *)
theory Catalog
  imports Catalog_Store
begin

text \<open>
  The gRPC service of the catalog (services/catalog/internal/grpc) over its store, and what the store promises along every sequence
  of writes: stable identities of anime, and one outbox event per write, in the same transaction. \<open>rfc3339\<close> is Go's formatting of a
  time.
\<close>

section \<open>The service\<close>

record pb_episode =
  peId :: string
  peAnimeId :: string
  peNumber :: i32
  peTitle :: string
  peAiredAtRfc3339 :: string

definition episodesToProto :: "(time \<Rightarrow> string) \<Rightarrow> episode list \<Rightarrow> pb_episode list" where
  "episodesToProto rfc3339 eps =
     map (\<lambda>ep. \<lparr>peId = epID ep, peAnimeId = epAnimeID ep, peNumber = epNumber ep, peTitle = epTitle ep,
       peAiredAtRfc3339 = (case epAiredAt ep of None \<Rightarrow> [] | Some t \<Rightarrow> rfc3339 t)\<rparr>) eps"

definition svc_GetEpisodesByAnimeID ::
  "(string \<Rightarrow> uuid option) \<Rightarrow> (time \<Rightarrow> string) \<Rightarrow> ctx \<Rightarrow> string \<Rightarrow> catalog_db \<Rightarrow> grpc_status + pb_episode list" where
  "svc_GetEpisodesByAnimeID uuid_of fmt x req db =
     (let animeID = trim_space req
      in if animeID = [] then Inl (status_Error InvalidArgument ''anime_id is required'')
         else map_sum id (episodesToProto fmt) (GetEpisodesByAnimeID uuid_of x animeID db))"

definition svc_GetEpisodesByIDs ::
  "(string \<Rightarrow> uuid option) \<Rightarrow> (time \<Rightarrow> string) \<Rightarrow> ctx \<Rightarrow> string list \<Rightarrow> catalog_db \<Rightarrow> grpc_status + pb_episode list" where
  "svc_GetEpisodesByIDs uuid_of fmt x ids db = map_sum id (episodesToProto fmt) (GetEpisodesByIDs uuid_of x ids db)"

definition svc_GetProviderEpisodeID :: "(string \<Rightarrow> uuid option) \<Rightarrow> ctx \<Rightarrow> string \<Rightarrow> string \<Rightarrow> catalog_db \<Rightarrow> grpc_status + string" where
  "svc_GetProviderEpisodeID uuid_of x req_episode req_provider db =
     (let i = trim_space req_episode; provider = trim_space req_provider
      in if i = [] \<or> provider = [] then Inl (status_Error InvalidArgument ''episode_id and provider required'')
         else GetProviderEpisodeID uuid_of x i provider db)"

definition svc_GetAnimeIDs :: "ctx \<Rightarrow> catalog_db \<Rightarrow> grpc_status + uuid list" where
  "svc_GetAnimeIDs x db = GetAllAnimeIDs x db"

text \<open>The response message has the columns the store selects.\<close>

definition svc_GetAnimeByIDs :: "(string \<Rightarrow> uuid option) \<Rightarrow> ctx \<Rightarrow> string list \<Rightarrow> catalog_db \<Rightarrow> grpc_status + anime list" where
  "svc_GetAnimeByIDs uuid_of x ids db =
     map_sum id (map (\<lambda>a. a\<lparr>anURL := [], anSubOrDub := [], anOtherName := []\<rparr>)) (GetAnimeByIDs uuid_of x ids db)"

definition svc_AttachExternalAnimeID ::
  "(string \<Rightarrow> uuid option) \<Rightarrow> ctx \<Rightarrow> string \<Rightarrow> string \<Rightarrow> string \<Rightarrow> catalog_db \<Rightarrow> (grpc_status + unit) \<times> catalog_db" where
  "svc_AttachExternalAnimeID uuid_of x req_anime req_provider req_external db =
     (let animeID = trim_space req_anime; provider = trim_space req_provider; externalID = trim_space req_external
      in if animeID = [] \<or> provider = [] \<or> externalID = []
         then (Inl (status_Error InvalidArgument ''anime_id, provider and external_id are required''), db)
         else AttachExternalAnimeID uuid_of x provider externalID animeID db)"

definition svc_ResolveAnimeIDByExternalID :: "ctx \<Rightarrow> string \<Rightarrow> string \<Rightarrow> catalog_db \<Rightarrow> grpc_status + uuid" where
  "svc_ResolveAnimeIDByExternalID x req_provider req_external db =
     (let provider = trim_space req_provider; externalID = trim_space req_external
      in if provider = [] \<or> externalID = [] then Inl (status_Error InvalidArgument ''provider and external_id are required'')
         else ResolveAnimeIDByExternalID x provider externalID db)"

text \<open>A request episode is the provider's identifier, number, title and filler flag; \<open>None\<close> is a nil element.\<close>

definition svc_UpsertHiAnimeEpisodes ::
  "(string \<Rightarrow> uuid option) \<Rightarrow> ctx \<Rightarrow> (nat \<Rightarrow> ctx) \<Rightarrow> (nat \<Rightarrow> uuid) \<Rightarrow> string \<Rightarrow> string \<Rightarrow> (string \<times> i32 \<times> string \<times> bool) option list \<Rightarrow>
   catalog_db \<Rightarrow> (grpc_status + uuid list) \<times> catalog_db" where
  "svc_UpsertHiAnimeEpisodes uuid_of x ys ids req_anime req_slug req_episodes db =
     (let animeID = trim_space req_anime; slug = trim_space req_slug
      in if animeID = [] then (Inl (status_Error InvalidArgument ''invalid anime_id''), db)
         else if slug = [] then (Inl (status_Error InvalidArgument ''hianime_slug is required''), db)
         else
           UpsertHiAnimeEpisodes uuid_of x ys ids animeID slug
             (List.map_filter (map_option (\<lambda>(p, n, title, filler).
                \<lparr>eiProviderEpisodeID = trim_space p, eiNumber = n, eiTitle = title, eiURL = [], eiIsFiller = filler, eiHasIsFiller = True\<rparr>))
                req_episodes) db)"

definition svc_UpsertJikanAnime :: "ctx \<Rightarrow> (nat \<Rightarrow> uuid) \<Rightarrow> jikan_input option \<Rightarrow> catalog_db \<Rightarrow> (grpc_status + uuid) \<times> catalog_db" where
  "svc_UpsertJikanAnime x ids req db =
     (case req of
        None \<Rightarrow> (Inl (status_Error InvalidArgument ''anime is required''), db)
      | Some a \<Rightarrow>
          if sint (jiMalID a) \<le> 0 then (Inl (status_Error InvalidArgument ''mal_id is required''), db)
          else UpsertJikanAnime x ids a db)"

section \<open>Sequences of writes\<close>

datatype catalog_op =
    CJikan ctx "nat \<Rightarrow> uuid" "jikan_input option"
  | CEpisodes ctx "nat \<Rightarrow> ctx" "nat \<Rightarrow> uuid" string string "(string \<times> i32 \<times> string \<times> bool) option list"
  | CAttach ctx string string string

fun exec_catalog :: "(string \<Rightarrow> uuid option) \<Rightarrow> catalog_op \<Rightarrow> catalog_db \<Rightarrow> catalog_db" where
  "exec_catalog uuid_of (CJikan x ids req) db = snd (svc_UpsertJikanAnime x ids req db)"
| "exec_catalog uuid_of (CEpisodes x ys ids a s eps) db = snd (svc_UpsertHiAnimeEpisodes uuid_of x ys ids a s eps db)"
| "exec_catalog uuid_of (CAttach x a p e) db = snd (svc_AttachExternalAnimeID uuid_of x a p e db)"

abbreviation exec_catalogs :: "(string \<Rightarrow> uuid option) \<Rightarrow> catalog_op list \<Rightarrow> catalog_db \<Rightarrow> catalog_db" where
  "exec_catalogs uuid_of ops db \<equiv> fold (exec_catalog uuid_of) ops db"

text \<open>The invariant: keys are unique and every provider identifier is bound to an anime that exists.\<close>

definition catalog_inv :: "catalog_db \<Rightarrow> bool" where
  "catalog_inv db \<longleftrightarrow>
     distinct (map (\<lambda>r. anID (arAnime r)) (cdAnime db)) \<and> distinct (map fst (cdExtAnime db)) \<and> snd ` set (cdExtAnime db) \<subseteq> anime_ids db"

lemma upsert_ext_lookup: "row_by fst j (upsert_ext k i rows) = (if j = k then Some (k, i) else row_by fst j rows)"
proof (cases "k \<in> fst ` set rows")
  case True
  let ?f = "\<lambda>r. if fst r = k then (fst r, i) else r"
  have "row_by fst k (map ?f rows) = (if k \<in> fst ` set rows then Some (k, i) else None)" by (induction rows) simp_all
  moreover have "j \<noteq> k \<Longrightarrow> row_by fst j (map ?f rows) = row_by fst j rows" by (induction rows) simp_all
  ultimately show ?thesis using True by (simp add: upsert_ext_def sql_update_def)
next
  case False
  then have "row_by fst k rows = None" by (simp add: row_by_None)
  with False show ?thesis by (auto simp: upsert_ext_def row_by_append split: option.split)
qed

lemma upsert_ext_keys: "distinct (map fst rows) \<Longrightarrow> distinct (map fst (upsert_ext k i rows))"
  using sql_update_keys [of fst "\<lambda>r. (fst r, i)" "\<lambda>r. fst r = k" rows] by (auto simp: upsert_ext_def)

lemma upsert_ext_values: "snd ` set (upsert_ext k i rows) \<subseteq> insert i (snd ` set rows)"
  by (auto simp: upsert_ext_def sql_update_def)

text \<open>The episode loop touches the episode tables only.\<close>

lemma writeEpisode_frame:
  "writeEpisode x i an ep t ins db = Some db' \<Longrightarrow>
   cdAnime db' = cdAnime db \<and> cdExtAnime db' = cdExtAnime db \<and> cdExtEpisodes db' = cdExtEpisodes db \<and> cdOutbox db' = cdOutbox db"
  by (auto simp: writeEpisode_def split: if_splits)

lemma upsert_episode_frame:
  "upsert_episode y new p an t ep db = Some (i, db') \<Longrightarrow>
   cdAnime db' = cdAnime db \<and> cdExtAnime db' = cdExtAnime db \<and> cdOutbox db' = cdOutbox db"
  by (auto simp: upsert_episode_def Let_def split: if_splits option.splits dest!: writeEpisode_frame)

lemma upsertEpisodes_frame:
  "upsertEpisodes ys ids p an t eps db = Inr (is, db') \<Longrightarrow>
   cdAnime db' = cdAnime db \<and> cdExtAnime db' = cdExtAnime db \<and> cdOutbox db' = cdOutbox db"
proof (induction eps arbitrary: db "is")
  case (Cons e eps)
  obtain n ep where e: "e = (n, ep)" by (cases e)
  show ?case
  proof (cases "eiProviderEpisodeID ep = []")
    case False
    then obtain i db2 is' where w: "upsert_episode (ys n) (ids n) p an t ep db = Some (i, db2)" "upsertEpisodes ys ids p an t eps db2 = Inr (is', db')"
      using Cons.prems e by (auto split: option.splits sum.splits)
    then show ?thesis using Cons.IH [OF w(2)] upsert_episode_frame [OF w(1)] by simp
  qed (use Cons e in simp)
qed simp

section \<open>One write\<close>

text \<open>A successful upsert binds the external identifier, writes the row and appends one event; a failed one changes nothing.\<close>

definition event_row :: "uuid \<Rightarrow> string \<Rightarrow> time \<Rightarrow> outbox_row" where
  "event_row i animeID t =
     \<lparr>obID = i, obEventType = ''catalog.anime.upserted'', obAnimeID = animeID, obCreatedAt = pg_time t, obPublishedAt = None\<rparr>"

lemma insertOutboxEvent_Some:
  "insertOutboxEvent x i a db = Some db' \<Longrightarrow> db' = db\<lparr>cdOutbox := cdOutbox db @ [event_row i a (now x)]\<rparr>"
  by (auto simp: insertOutboxEvent_def event_row_def split: if_splits)

lemma stmt_ctx_now [simp]: "now (stmt_ctx x n) = now x"
  by (simp add: stmt_ctx_def)

lemma jikan_error: "UpsertJikanAnime x ids a db = (Inl e, db') \<Longrightarrow> db' = db"
  by (auto simp: UpsertJikanAnime_def split: if_splits sum.splits option.splits prod.splits)

lemma jikan_success:
  assumes "UpsertJikanAnime x ids a db = (Inr i, db')"
  obtains db1 where "jikan_write x (ids 0) a db = Inr (i, db1)" "db' = db1\<lparr>cdOutbox := cdOutbox db1 @ [event_row (ids 1) i (now x)]\<rparr>"
  using assms by (auto simp: UpsertJikanAnime_def split: if_splits sum.splits option.splits prod.splits dest!: insertOutboxEvent_Some)

lemma jikan_write_frame:
  assumes "jikan_write x new a db = Inr (i, db1)"
  shows "cdOutbox db1 = cdOutbox db" "cdEpisodes db1 = cdEpisodes db" "cdExtEpisodes db1 = cdExtEpisodes db"
    and "row_by fst k (cdExtAnime db1) =
      (if k = (''mal'', format_int (sint (jiMalID a))) then Some (k, i) else row_by fst k (cdExtAnime db))"
proof -
  show "cdOutbox db1 = cdOutbox db" "cdEpisodes db1 = cdEpisodes db" "cdExtEpisodes db1 = cdExtEpisodes db"
    using assms by (auto simp: jikan_write_def Let_def split: if_splits option.splits)
  show "row_by fst k (cdExtAnime db1) =
      (if k = (''mal'', format_int (sint (jiMalID a))) then Some (k, i) else row_by fst k (cdExtAnime db))"
    using assms row_by_Some [of fst "(''mal'', format_int (sint (jiMalID a)))" "cdExtAnime db"]
    by (auto simp: jikan_write_def Let_def row_by_append split: if_splits option.splits) 
qed

lemma jikan_update_id [simp]: "anID (arAnime (jikan_update t a r)) = anID (arAnime r)"
  by (simp add: jikan_update_def)

lemma jikan_write_inv:
  assumes "catalog_inv db" "jikan_write x new a db = Inr (i, db1)"
  shows "catalog_inv db1" "\<exists>r. row_by (\<lambda>r. anID (arAnime r)) i (cdAnime db1) = Some (jikan_update (now x) a r)"
proof -
  let ?k = "(''mal'', format_int (sint (jiMalID a)))" and ?id = "\<lambda>r. anID (arAnime r)"
  have "catalog_inv db1 \<and> (\<exists>r. row_by ?id i (cdAnime db1) = Some (jikan_update (now x) a r))"
  proof (cases "row_by fst ?k (cdExtAnime db)")
    case None
    then have d: "i = new" "new \<notin> anime_ids db" "db1 = db\<lparr>cdAnime := cdAnime db @ [jikan_row new (now x) a], cdExtAnime := cdExtAnime db @ [(?k, new)]\<rparr>"
      using assms(2) by (auto simp: jikan_write_def Let_def split: if_splits)
    have "row_by ?id new (cdAnime db) = None" using d(2) by (simp add: row_by_None)
    then have "row_by ?id i (cdAnime db1) = Some (jikan_row new (now x) a)" using d by (simp add: row_by_append jikan_row_def)
    moreover have "jikan_row new (now x) a = jikan_update (now x) a (jikan_row new (now x) a)" by (simp add: jikan_row_def jikan_update_def)
    moreover have "?k \<notin> fst ` set (cdExtAnime db)" using None by (simp only: row_by_None not_False_eq_True)
    ultimately show ?thesis using assms(1) d by (auto simp: catalog_inv_def jikan_row_def)
  next
    case (Some q)
    then have d: "i = snd q" "db1 = db\<lparr>cdAnime := fst (sql_update (\<lambda>r. ?id r = snd q) (jikan_update (now x) a) (cdAnime db))\<rparr>"
      using assms(2) by (auto simp: jikan_write_def Let_def split: if_splits)
    have ids: "map ?id (cdAnime db1) = map ?id (cdAnime db)" using d(2) by (simp add: sql_update_keys)
    have "i \<in> anime_ids db" using assms(1) Some d(1) row_by_Some [OF Some] by (auto simp: catalog_inv_def)
    then obtain r where r: "row_by ?id i (cdAnime db) = Some r" using row_by_None by (metis (no_types, lifting) not_None_eq)
    have "row_by ?id i (map (\<lambda>r. if ?id r = i then jikan_update (now x) a r else r) (cdAnime db)) = Some (jikan_update (now x) a r)"
      using r row_by_Some [OF r] row_by_map [of ?id "\<lambda>r. if ?id r = i then jikan_update (now x) a r else r" i "cdAnime db"] by simp
    then have "\<exists>r. row_by ?id i (cdAnime db1) = Some (jikan_update (now x) a r)" using d by (auto simp: sql_update_def)
    moreover have "catalog_inv db1"
    proof -
      have "anime_ids db1 = anime_ids db" using arg_cong [OF ids, of set] by simp
      then show ?thesis using assms(1) ids d(2) unfolding catalog_inv_def by simp
    qed
    ultimately show ?thesis by blast
  qed
  then show "catalog_inv db1" "\<exists>r. row_by ?id i (cdAnime db1) = Some (jikan_update (now x) a r)" by blast+
qed

lemma episodes_error: "UpsertHiAnimeEpisodes uuid_of x ys ids a s eps db = (Inl e, db') \<Longrightarrow> db' = db"
  by (auto simp: UpsertHiAnimeEpisodes_def split: if_splits sum.splits option.splits prod.splits)

lemma episodes_success:
  assumes "UpsertHiAnimeEpisodes uuid_of x ys ids a s eps db = (Inr is, db')"
  shows "\<exists>i. uuid_of (trim_space a) = Some i \<and> i \<in> anime_ids db \<and> cdAnime db' = cdAnime db \<and> cdExtAnime db' = upsert_ext (''hianime'', s) i (cdExtAnime db) \<and>
    cdOutbox db' = cdOutbox db @ [event_row (ids (length eps)) a (now x)]"
proof -
  obtain i where i: "uuid_of (trim_space a) = Some i" "i \<in> anime_ids db"
    using assms by (simp add: UpsertHiAnimeEpisodes_def split: if_splits option.splits)
  show ?thesis
    using assms i
    by (intro exI [of _ i]) (auto simp: UpsertHiAnimeEpisodes_def split: if_splits sum.splits option.splits prod.splits
      dest!: insertOutboxEvent_Some upsertEpisodes_frame)
qed

section \<open>Along every sequence of writes\<close>

text \<open>An operation spares the identifiers of MyAnimeList unless it attaches one by hand.\<close>

fun spares_mal :: "catalog_op \<Rightarrow> bool" where
  "spares_mal (CAttach x a p e) \<longleftrightarrow> trim_space p \<noteq> ''mal''"
| "spares_mal _ \<longleftrightarrow> True"

lemma attach_effect:
  assumes "catalog_inv db"
  shows "catalog_inv (snd (svc_AttachExternalAnimeID uuid_of x a p e db))"
    and "k \<noteq> (trim_space p, trim_space e) \<Longrightarrow>
      row_by fst k (cdExtAnime (snd (svc_AttachExternalAnimeID uuid_of x a p e db))) = row_by fst k (cdExtAnime db)"
proof -
  have "catalog_inv (db\<lparr>cdExtAnime := upsert_ext j i (cdExtAnime db)\<rparr>)" if "i \<in> anime_ids db" for i j
    using assms that upsert_ext_values [of j i "cdExtAnime db"] by (auto simp: catalog_inv_def upsert_ext_keys)
  with assms show "catalog_inv (snd (svc_AttachExternalAnimeID uuid_of x a p e db))"
    by (simp add: svc_AttachExternalAnimeID_def AttachExternalAnimeID_def Let_def split: option.split)
  show "row_by fst k (cdExtAnime (snd (svc_AttachExternalAnimeID uuid_of x a p e db))) = row_by fst k (cdExtAnime db)"
    if "k \<noteq> (trim_space p, trim_space e)"
    using that by (simp add: svc_AttachExternalAnimeID_def AttachExternalAnimeID_def upsert_ext_lookup Let_def split: option.split)
qed

lemma jikan_effect:
  assumes "catalog_inv db"
  shows "catalog_inv (snd (svc_UpsertJikanAnime x ids req db))"
    and "row_by fst k (cdExtAnime db) = Some q \<Longrightarrow> row_by fst k (cdExtAnime (snd (svc_UpsertJikanAnime x ids req db))) = Some q"
proof -
  have "catalog_inv (snd (UpsertJikanAnime x ids a db)) \<and>
      (row_by fst k (cdExtAnime db) = Some q \<longrightarrow> row_by fst k (cdExtAnime (snd (UpsertJikanAnime x ids a db))) = Some q)" for a
  proof (cases "UpsertJikanAnime x ids a db")
    case (Pair r db')
    show ?thesis
    proof (cases r)
      case (Inl e)
      then have "db' = db" using jikan_error [of x ids a db e db'] Pair by simp
      then show ?thesis using Pair assms by simp
    next
      case (Inr i)
      then obtain db1 where w: "jikan_write x (ids 0) a db = Inr (i, db1)" "db' = db1\<lparr>cdOutbox := cdOutbox db1 @ [event_row (ids 1) i (now x)]\<rparr>"
        using jikan_success Pair by blast
      have "row_by fst k (cdExtAnime db1) = Some q" if "row_by fst k (cdExtAnime db) = Some q"
      proof (cases "k = (''mal'', format_int (sint (jiMalID a)))")
        case True
        then have "i = snd q" "fst q = k" using w(1) that row_by_Some [OF that] by (auto simp: jikan_write_def Let_def split: if_splits)
        then have "q = (k, i)" by (metis prod.collapse)
        then show ?thesis using jikan_write_frame(4) [OF w(1), of k] True by simp
      next
        case False
        then show ?thesis using jikan_write_frame(4) [OF w(1), of k] that by simp
      qed
      then show ?thesis using Pair w(2) jikan_write_inv(1) [OF assms w(1)] by (auto simp: catalog_inv_def)
    qed
  qed
  then show "catalog_inv (snd (svc_UpsertJikanAnime x ids req db))"
    "row_by fst k (cdExtAnime db) = Some q \<Longrightarrow> row_by fst k (cdExtAnime (snd (svc_UpsertJikanAnime x ids req db))) = Some q"
    using assms by (simp_all add: svc_UpsertJikanAnime_def split: option.split)
qed

lemma episodes_effect:
  assumes "catalog_inv db"
  shows "catalog_inv (snd (svc_UpsertHiAnimeEpisodes uuid_of x ys ids a s eps db))"
    and "fst k \<noteq> ''hianime'' \<Longrightarrow>
      row_by fst k (cdExtAnime (snd (svc_UpsertHiAnimeEpisodes uuid_of x ys ids a s eps db))) = row_by fst k (cdExtAnime db)"
proof -
  have "catalog_inv (snd (UpsertHiAnimeEpisodes uuid_of x ys ids a s eps db)) \<and>
      (fst k \<noteq> ''hianime'' \<longrightarrow> row_by fst k (cdExtAnime (snd (UpsertHiAnimeEpisodes uuid_of x ys ids a s eps db))) = row_by fst k (cdExtAnime db))" for a s eps
  proof (cases "UpsertHiAnimeEpisodes uuid_of x ys ids a s eps db")
    case (Pair r db')
    show ?thesis
    proof (cases r)
      case (Inl e)
      then have "db' = db" using episodes_error [of uuid_of x ys ids a s eps db e db'] Pair by simp
      then show ?thesis using Pair assms by simp
    next
      case (Inr "is")
      then obtain i where i: "i \<in> anime_ids db" "cdAnime db' = cdAnime db" "cdExtAnime db' = upsert_ext (''hianime'', s) i (cdExtAnime db)"
        using episodes_success [of uuid_of x ys ids a s eps db "is" db'] Pair by auto
      then have "catalog_inv db'"
        using assms upsert_ext_values [of "(''hianime'', s)" i "cdExtAnime db"] by (auto simp: catalog_inv_def upsert_ext_keys)
      then show ?thesis using Pair i(3) by (auto simp: upsert_ext_lookup)
    qed
  qed
  then show "catalog_inv (snd (svc_UpsertHiAnimeEpisodes uuid_of x ys ids a s eps db))"
    "fst k \<noteq> ''hianime'' \<Longrightarrow>
      row_by fst k (cdExtAnime (snd (svc_UpsertHiAnimeEpisodes uuid_of x ys ids a s eps db))) = row_by fst k (cdExtAnime db)"
    using assms by (simp_all add: svc_UpsertHiAnimeEpisodes_def Let_def)
qed

lemma mal_binding_kept:
  "catalog_inv db \<Longrightarrow> row_by fst (''mal'', m) (cdExtAnime db) = Some q \<Longrightarrow> \<forall>op \<in> set ops. spares_mal op \<Longrightarrow>
   catalog_inv (exec_catalogs uuid_of ops db) \<and> row_by fst (''mal'', m) (cdExtAnime (exec_catalogs uuid_of ops db)) = Some q"
proof (induction ops arbitrary: db)
  case (Cons op ops)
  have "catalog_inv (exec_catalog uuid_of op db) \<and> row_by fst (''mal'', m) (cdExtAnime (exec_catalog uuid_of op db)) = Some q"
    using Cons.prems by (cases op) (auto simp: jikan_effect episodes_effect attach_effect)
  then show ?case using Cons by simp
qed simp

lemma catalog_write_announced_jikan:
  "(\<exists>e. UpsertJikanAnime x ids a db = (Inl e, db)) \<or>
   (\<exists>i db'. UpsertJikanAnime x ids a db = (Inr i, db') \<and> cdOutbox db' = cdOutbox db @ [event_row (ids 1) i (now x)])"
proof -
  obtain r db' where u: "UpsertJikanAnime x ids a db = (r, db')" by (cases "UpsertJikanAnime x ids a db")
  show ?thesis
  proof (cases r)
    case (Inl e)
    then show ?thesis using u jikan_error by blast
  next
    case (Inr i)
    obtain db1 where "jikan_write x (ids 0) a db = Inr (i, db1)" "db' = db1\<lparr>cdOutbox := cdOutbox db1 @ [event_row (ids 1) i (now x)]\<rparr>"
      using jikan_success [OF u [unfolded Inr]] .
    then have "cdOutbox db' = cdOutbox db @ [event_row (ids 1) i (now x)]" using jikan_write_frame(1) by simp
    then show ?thesis using u Inr by blast
  qed
qed

lemma catalog_write_announced_episodes:
  "(\<exists>e. UpsertHiAnimeEpisodes uuid_of x ys ids an s eps db = (Inl e, db)) \<or>
   (\<exists>is db'. UpsertHiAnimeEpisodes uuid_of x ys ids an s eps db = (Inr is, db') \<and>
      cdOutbox db' = cdOutbox db @ [event_row (ids (length eps)) an (now x)])"
proof -
  obtain r db' where u: "UpsertHiAnimeEpisodes uuid_of x ys ids an s eps db = (r, db')" by (cases "UpsertHiAnimeEpisodes uuid_of x ys ids an s eps db")
  show ?thesis
  proof (cases r)
    case (Inl e)
    then show ?thesis using u episodes_error by blast
  next
    case (Inr "is")
    then show ?thesis using u episodes_success by blast
  qed
qed

section \<open>Properties\<close>


definition demo_jikan :: "string \<Rightarrow> jikan_input" where
  "demo_jikan t = \<lparr>jiMalID = 7, jiTitle = t, jiTitleEnglish = [], jiTitleJapanese = [], jiImage = [], jiSynopsis = [], jiGenres = [],
     jiType = [], jiStatus = [], jiTotalEpisodes = 12, jiScore = 0\<rparr>"

definition empty_catalog :: catalog_db where
  "empty_catalog = \<lparr>cdAnime = [], cdExtAnime = [], cdEpisodes = [], cdExtEpisodes = [], cdOutbox = []\<rparr>"



end
