(* ===== verification/Go_Url.thy ===== *)
theory Go_Url
  imports Keyset Go_Base64
begin

text \<open>
  The parts of Go's packages \<open>net/url\<close>, \<open>path\<close> and \<open>net/http\<close> the streaming services use: query escaping,
  \<open>url.Values\<close>, path cleaning and header maps. \<open>url.Values\<close> is the list of its pairs; the order matters only among the values of one
  key.
\<close>

section \<open>url.QueryEscape and url.QueryUnescape\<close>

definition hex_digit :: "nat \<Rightarrow> char" where
  "hex_digit n = (if n < 10 then char_of (48 + n) else char_of (55 + n))"

definition unhex :: "char \<Rightarrow> nat option" where
  "unhex c =
     (let n = (of_char c :: nat)
      in if 48 \<le> n \<and> n \<le> 57 then Some (n - 48)
         else if 97 \<le> n \<and> n \<le> 102 then Some (n - 87)
         else if 65 \<le> n \<and> n \<le> 70 then Some (n - 55) else None)"

definition unreserved :: "char \<Rightarrow> bool" where
  "unreserved c \<longleftrightarrow>
     (let n = (of_char c :: nat)
      in 97 \<le> n \<and> n \<le> 122 \<or> 65 \<le> n \<and> n \<le> 90 \<or> 48 \<le> n \<and> n \<le> 57 \<or> c \<in> {CHR ''-'', CHR ''_'', CHR ''.'', CHR ''~''})"

definition escape_char :: "char \<Rightarrow> string" where
  "escape_char c =
     (if c = CHR '' '' then ''+''
      else if unreserved c then [c]
      else [CHR ''%'', hex_digit (of_char c div 16), hex_digit (of_char c mod 16)])"

definition query_escape :: "string \<Rightarrow> string" where
  "query_escape s = concat (map escape_char s)"

fun query_unescape :: "string \<Rightarrow> string option" where
  "query_unescape [] = Some []"
| "query_unescape (c # s) =
     (if c = CHR ''%'' then
        (case s of
           a # b # t \<Rightarrow>
             (case (unhex a, unhex b, query_unescape t) of
                (Some m, Some n, Some r) \<Rightarrow> Some (char_of (16 * m + n) # r)
              | _ \<Rightarrow> None)
         | _ \<Rightarrow> None)
      else map_option (\<lambda>r. (if c = CHR ''+'' then CHR '' '' else c) # r) (query_unescape s))"

lemma unhex_digit [simp]: "n < 16 \<Longrightarrow> unhex (hex_digit n) = Some n"
  by (auto simp: unhex_def hex_digit_def Let_def)

lemma unreserved_not_special: "unreserved c \<Longrightarrow> c \<noteq> CHR ''%'' \<and> c \<noteq> CHR ''+'' \<and> c \<noteq> CHR ''&'' \<and> c \<noteq> CHR ''='' \<and> c \<noteq> CHR '';'' \<and> c \<noteq> CHR ''?''"
  by (auto simp: unreserved_def Let_def)

lemma query_unescape_escape_append: "query_unescape (query_escape s @ t) = map_option (\<lambda>r. s @ r) (query_unescape t)"
proof (induction s)
  case (Cons c s)
  have b: "(of_char c :: nat) div 16 < 16" by (simp add: less_mult_imp_div_less)
  have j: "(char_of (16 * (of_char c div 16) + of_char c mod 16 :: nat) :: char) = c" by (simp add: mult_div_mod_eq)
  show ?case
    using Cons b j unreserved_not_special [of c]
    by (auto simp: query_escape_def escape_char_def option.map_comp comp_def split: option.split)
qed (simp add: query_escape_def option.map_ident)

lemma query_unescape_escape [simp]: "query_unescape (query_escape s) = Some s"
  using query_unescape_escape_append [of s "[]"] by simp

lemma hex_digit_chars: "n < 16 \<Longrightarrow> unreserved (hex_digit n)"
  by (auto simp: unreserved_def hex_digit_def Let_def)

lemma query_escape_chars: "c \<in> set (query_escape s) \<Longrightarrow> unreserved c \<or> c = CHR ''%'' \<or> c = CHR ''+''"
proof -
  assume "c \<in> set (query_escape s)"
  then obtain x where x: "c \<in> set (escape_char x)" by (auto simp: query_escape_def)
  have "(of_char x :: nat) div 16 < 16" by (simp add: less_mult_imp_div_less)
  with x show ?thesis by (auto simp: escape_char_def hex_digit_chars split: if_splits)
qed

lemma query_escape_no_sep [simp]:
  "CHR ''&'' \<notin> set (query_escape s)" "CHR ''='' \<notin> set (query_escape s)" "CHR '';'' \<notin> set (query_escape s)" "CHR ''?'' \<notin> set (query_escape s)"
  using query_escape_chars unreserved_not_special by fastforce+

interpretation query_text: codec query_escape query_unescape "\<lambda>_. True"
  by unfold_locales simp

lemma query_unescape_plain: "\<forall>c \<in> set s. unreserved c \<Longrightarrow> query_unescape s = Some s"
  by (induction s) (auto dest: unreserved_not_special)

section \<open>url.Values\<close>

type_synonym url_values = "(string \<times> string) list"

definition cut :: "char \<Rightarrow> string \<Rightarrow> string \<times> string" where
  "cut c s = (takeWhile (\<lambda>x. x \<noteq> c) s, tl (dropWhile (\<lambda>x. x \<noteq> c) s))"

text \<open>One \<open>key=value\<close> of \<open>url.ParseQuery\<close>; a piece that does not parse is left out.\<close>

definition parse_pair :: "string \<Rightarrow> (string \<times> string) option" where
  "parse_pair piece =
     (if CHR '';'' \<in> set piece \<or> piece = [] then None
      else
        let (k, v) = cut CHR ''='' piece
        in (case (query_unescape k, query_unescape v) of (Some k', Some v') \<Rightarrow> Some (k', v') | _ \<Rightarrow> None))"

definition parse_query :: "string \<Rightarrow> url_values" where
  "parse_query q = List.map_filter parse_pair (split_on CHR ''&'' q)"

definition values_get :: "string \<Rightarrow> url_values \<Rightarrow> string" where
  "values_get k vs = (case filter (\<lambda>p. fst p = k) vs of [] \<Rightarrow> [] | p # _ \<Rightarrow> snd p)"

definition values_set :: "string \<Rightarrow> string \<Rightarrow> url_values \<Rightarrow> url_values" where
  "values_set k v vs = filter (\<lambda>p. fst p \<noteq> k) vs @ [(k, v)]"

definition encode_pair :: "string \<times> string \<Rightarrow> string" where
  "encode_pair p = query_escape (fst p) @ CHR ''='' # query_escape (snd p)"

definition values_encode :: "url_values \<Rightarrow> string" where
  "values_encode vs = join ''&'' (map encode_pair (sort_key fst vs))"

lemma values_get_set [simp]: "values_get k (values_set k' v vs) = (if k = k' then v else values_get k vs)"
proof (cases "k = k'")
  case True
  then show ?thesis by (simp add: values_get_def values_set_def filter_False)
next
  case False
  then have "filter (\<lambda>p. fst p = k) (values_set k' v vs) = filter (\<lambda>p. fst p = k) vs"
    by (auto simp: values_set_def intro: filter_cong)
  then show ?thesis using False by (simp add: values_get_def)
qed

lemma cut_sep [simp]: "c \<notin> set k \<Longrightarrow> cut c (k @ c # v) = (k, v)"
  by (simp add: cut_def)

lemma parse_encode_pair [simp]: "parse_pair (encode_pair p) = Some p"
  by (simp add: parse_pair_def encode_pair_def)

lemma encode_pair_no_amp: "CHR ''&'' \<notin> set (encode_pair p)"
  by (simp add: encode_pair_def)

lemma map_filter_Some: "(\<And>x. x \<in> set xs \<Longrightarrow> f x = Some (g x)) \<Longrightarrow> List.map_filter f xs = map g xs"
  by (induction xs) auto

lemma parse_query_encode: "parse_query (values_encode vs) = sort_key fst vs"
proof (cases "vs = []")
  case True
  then show ?thesis by (simp add: parse_query_def values_encode_def parse_pair_def)
next
  case False
  have "split_on CHR ''&'' (values_encode vs) = map encode_pair (sort_key fst vs)"
    unfolding values_encode_def
  proof (rule split_join)
    show "map encode_pair (sort_key fst vs) \<noteq> []" using False by (metis length_0_conv length_map length_sort)
  qed (simp add: encode_pair_no_amp)
  then show ?thesis by (simp add: parse_query_def List.map_filter_def comp_def)
qed

text \<open>Encoding a set of values and parsing the text loses nothing.\<close>

theorem values_round_trip [simp]: "values_get k (parse_query (values_encode vs)) = values_get k vs"
  by (simp add: values_get_def parse_query_encode sort_key_stable)

section \<open>path.Clean, path.Dir and path.Join\<close>

text \<open>
  The elements of a path from left to right: an empty element or a dot is dropped, two dots take the element before away; at the start
  they stay in a relative path and vanish in a rooted one.
\<close>

fun clean_elems :: "bool \<Rightarrow> string list \<Rightarrow> string list \<Rightarrow> string list" where
  "clean_elems rooted acc [] = rev acc"
| "clean_elems rooted acc (e # es) =
     (if e = [] \<or> e = ''.'' then clean_elems rooted acc es
      else if e = ''..'' then
        (case acc of
           [] \<Rightarrow> clean_elems rooted (if rooted then [] else [''..'']) es
         | a # acc' \<Rightarrow> if a = ''..'' then clean_elems rooted (''..'' # acc) es else clean_elems rooted acc' es)
      else clean_elems rooted (e # acc) es)"

definition path_clean :: "string \<Rightarrow> string" where
  "path_clean p =
     (let rooted = has_prefix p ''/'';
          body = join ''/'' (clean_elems rooted [] (split_on CHR ''/'' p))
      in if rooted then CHR ''/'' # body else if body = [] then ''.'' else body)"

text \<open>\<open>path.Dir\<close>: all up to the last slash, cleaned. \<open>path.Join\<close> of two elements drops empty ones.\<close>

definition path_dir :: "string \<Rightarrow> string" where
  "path_dir p = path_clean (rev (dropWhile (\<lambda>c. c \<noteq> CHR ''/'') (rev p)))"

definition path_join2 :: "string \<Rightarrow> string \<Rightarrow> string" where
  "path_join2 a b =
     (if a = [] \<and> b = [] then []
      else if a = [] then path_clean b
      else if b = [] then path_clean a else path_clean (a @ ''/'' @ b))"

text \<open>A cleaned rooted path has no empty, dot or dot-dot element left.\<close>

lemma clean_elems_rooted:
  "\<forall>e \<in> set acc. e \<noteq> [] \<and> e \<noteq> ''.'' \<and> e \<noteq> ''..'' \<Longrightarrow> e \<in> set (clean_elems True acc es) \<Longrightarrow> e \<noteq> [] \<and> e \<noteq> ''.'' \<and> e \<noteq> ''..''"
proof (induction True acc es rule: clean_elems.induct)
  case (2 acc e es)
  then show ?case by (cases acc) (auto split: if_splits)
qed auto

section \<open>http.Header\<close>

type_synonym headers = "(string \<times> string) list"

definition upper_char :: "char \<Rightarrow> char" where
  "upper_char c = (let n = (of_char c :: nat) in if 97 \<le> n \<and> n \<le> 122 then char_of (n - 32) else c)"

definition token_char :: "char \<Rightarrow> bool" where
  "token_char c \<longleftrightarrow>
     (let n = (of_char c :: nat)
      in 97 \<le> n \<and> n \<le> 122 \<or> 65 \<le> n \<and> n \<le> 90 \<or> 48 \<le> n \<and> n \<le> 57 \<or> c \<in> set ''!#$%&*+-.^_`|~'' \<or> n = 39)"

fun canon_from :: "bool \<Rightarrow> string \<Rightarrow> string" where
  "canon_from up [] = []"
| "canon_from up (c # s) = (if up then upper_char c else lower_char c) # canon_from (c = CHR ''-'') s"

text \<open>\<open>textproto.CanonicalMIMEHeaderKey\<close>: a key with a byte that is no token byte stays as it is.\<close>

definition canonical_key :: "string \<Rightarrow> string" where
  "canonical_key k = (if list_all token_char k then canon_from True k else k)"

definition header_set :: "string \<Rightarrow> string \<Rightarrow> headers \<Rightarrow> headers" where
  "header_set k v hs = filter (\<lambda>p. fst p \<noteq> canonical_key k) hs @ [(canonical_key k, v)]"

definition header_add :: "string \<Rightarrow> string \<Rightarrow> headers \<Rightarrow> headers" where
  "header_add k v hs = hs @ [(canonical_key k, v)]"

definition header_get :: "string \<Rightarrow> headers \<Rightarrow> string" where
  "header_get k hs = (case filter (\<lambda>p. fst p = canonical_key k) hs of [] \<Rightarrow> [] | p # _ \<Rightarrow> snd p)"

end
