(* ===== verification/Hls_Signing.thy ===== *)
theory Hls_Signing
  imports Go_Url
begin

text \<open>
  Signed stream URLs (internal/platform/signing/hls.go). HMAC-SHA256 is the parameter \<open>hmac key message\<close>, JSON of a header map
  \<open>json_enc\<close> and \<open>json_dec\<close>, and \<open>url.Parse\<close> with \<open>URL.String\<close> the record \<open>url_lib\<close>: the model looks at the path and the raw query of a
  parsed URL only. A header map is the list of its pairs in iteration order.
\<close>

section \<open>Data\<close>

record net_url =
  unPath :: string
  unRawQuery :: string
  unRest :: string

record url_lib =
  ulParse :: "string \<Rightarrow> net_url option"
  ulString :: "net_url \<Rightarrow> string"

type_synonym mac = "string \<Rightarrow> string \<Rightarrow> string"

record signed =
  sgURL :: string
  sgExp :: int
  sgUID :: string
  sgSig :: string
  sgHeaders :: headers

section \<open>Signing and verification\<close>

text \<open>The bytes that are authenticated; the expiry is text already.\<close>

definition sign_message :: "string \<Rightarrow> string \<Rightarrow> string \<Rightarrow> string" where
  "sign_message rawURL userID e = rawURL @ ''|'' @ userID @ ''|'' @ e"

definition signValue :: "mac \<Rightarrow> string \<Rightarrow> string \<Rightarrow> string \<Rightarrow> int \<Rightarrow> string" where
  "signValue hmac secret rawURL userID e = b64_encode False (hmac secret (sign_message rawURL userID (format_int e)))"

definition unix :: "time \<Rightarrow> int" where
  "unix t = t div 1000000000"

definition Sign :: "mac \<Rightarrow> string \<Rightarrow> string \<Rightarrow> string \<Rightarrow> time \<Rightarrow> signed" where
  "Sign hmac secret rawURL userID e =
     \<lparr>sgURL = rawURL, sgExp = unix e, sgUID = userID, sgSig = signValue hmac secret rawURL userID (unix e), sgHeaders = []\<rparr>"

definition SignWithHeaders :: "mac \<Rightarrow> string \<Rightarrow> string \<Rightarrow> string \<Rightarrow> time \<Rightarrow> headers \<Rightarrow> signed" where
  "SignWithHeaders hmac secret rawURL userID e hs =
     \<lparr>sgURL = rawURL, sgExp = unix e, sgUID = userID, sgSig = signValue hmac secret rawURL userID (unix e), sgHeaders = hs\<rparr>"

definition Verify :: "mac \<Rightarrow> string \<Rightarrow> time \<Rightarrow> string \<Rightarrow> string \<Rightarrow> int \<Rightarrow> string \<Rightarrow> bool" where
  "Verify hmac secret t rawURL userID e sig =
     (if unix t > e then False else sig = signValue hmac secret rawURL userID e)"

section \<open>Signed URLs\<close>

definition signed_values :: "(headers \<Rightarrow> string) \<Rightarrow> signed \<Rightarrow> url_values \<Rightarrow> url_values" where
  "signed_values json_enc sg q =
     (let q = values_set ''url'' (sgURL sg) q;
          q = values_set ''exp'' (format_int (sgExp sg)) q;
          q = values_set ''uid'' (sgUID sg) q;
          q = values_set ''sig'' (sgSig sg) q
      in if sgHeaders sg \<noteq> [] then values_set ''hdr'' (b64_encode False (json_enc (sgHeaders sg))) q else q)"

definition BuildSignedURL :: "url_lib \<Rightarrow> (headers \<Rightarrow> string) \<Rightarrow> string \<Rightarrow> signed \<Rightarrow> string option" where
  "BuildSignedURL lib json_enc base sg =
     (case ulParse lib base of
        None \<Rightarrow> None
      | Some u \<Rightarrow> Some (ulString lib (u\<lparr>unRawQuery := values_encode (signed_values json_enc sg (parse_query (unRawQuery u)))\<rparr>)))"

datatype extract_error = MissingParams | BadExpiry

definition ExtractSigned :: "url_values \<Rightarrow> extract_error + string \<times> string \<times> int \<times> string" where
  "ExtractSigned query =
     (let rawURL = trim_space (values_get ''url'' query);
          uid = trim_space (values_get ''uid'' query);
          expStr = trim_space (values_get ''exp'' query);
          sig = trim_space (values_get ''sig'' query)
      in if rawURL = [] \<or> uid = [] \<or> expStr = [] \<or> sig = [] then Inl MissingParams
         else (case parse_int expStr of None \<Rightarrow> Inl BadExpiry | Some e \<Rightarrow> Inr (rawURL, uid, e, sig)))"

text \<open>The empty list is Go's nil map: no header, or a parameter that does not decode.\<close>

definition ExtractHeaders :: "(string \<Rightarrow> headers option) \<Rightarrow> url_values \<Rightarrow> headers" where
  "ExtractHeaders json_dec query =
     (let hdrB64 = trim_space (values_get ''hdr'' query)
      in if hdrB64 = [] then []
         else
           (case b64_decode False hdrB64 of
              None \<Rightarrow> []
            | Some hdrJSON \<Rightarrow> (case json_dec hdrJSON of None \<Rightarrow> [] | Some hs \<Rightarrow> hs)))"

section \<open>What a signature says\<close>

lemma Verify_signValue: "Verify hmac secret t u i e (signValue hmac secret u i e) \<longleftrightarrow> unix t \<le> e"
  by (auto simp: Verify_def)

lemma last_sep_unique:
  assumes "a @ c # b = a' @ c # b'" "c \<notin> set b" "c \<notin> set b'"
  shows "a = a' \<and> b = b'"
proof -
  have "takeWhile (\<lambda>x. x \<noteq> c) (rev (a @ c # b)) = takeWhile (\<lambda>x. x \<noteq> c) (rev (a' @ c # b'))" using assms(1) by simp
  moreover have "takeWhile (\<lambda>x. x \<noteq> c) (rev (p @ c # q)) = rev q" if "c \<notin> set q" for p q
    using that takeWhile_sep [of c "rev q" "rev p"] by simp
  ultimately have "b = b'" using assms(2,3) by simp
  with assms(1) show ?thesis by simp
qed

lemma pipe_free_int: "CHR ''|'' \<notin> set (format_int e)"
  using format_int_chars by (fastforce simp: is_digit_def)

lemma sign_message_inj:
  assumes "sign_message u i (format_int e) = sign_message u' i' (format_int e')" "CHR ''|'' \<notin> set i" "CHR ''|'' \<notin> set i'"
  shows "u = u' \<and> i = i' \<and> e = e'"
proof -
  have "(u @ CHR ''|'' # i) @ CHR ''|'' # format_int e = (u' @ CHR ''|'' # i') @ CHR ''|'' # format_int e'"
    using assms(1) by (simp add: sign_message_def)
  from last_sep_unique [OF this pipe_free_int pipe_free_int] have "u @ CHR ''|'' # i = u' @ CHR ''|'' # i'" "e = e'"
    by (auto simp: format_int_inject)
  with last_sep_unique [OF this(1) assms(2,3)] show ?thesis by blast
qed

lemma signed_values_get:
  "values_get ''url'' (signed_values je sg q) = sgURL sg" "values_get ''exp'' (signed_values je sg q) = format_int (sgExp sg)"
  "values_get ''uid'' (signed_values je sg q) = sgUID sg" "values_get ''sig'' (signed_values je sg q) = sgSig sg"
  "sgHeaders sg \<noteq> [] \<Longrightarrow> values_get ''hdr'' (signed_values je sg q) = b64_encode False (je (sgHeaders sg))"
  by (simp_all add: signed_values_def Let_def)

text \<open>What the proxy reads from the query of a built URL.\<close>

lemma built_extract:
  assumes "trim_space rawURL = rawURL" "rawURL \<noteq> []" "trim_space uid = uid" "uid \<noteq> []" "in_int64 (unix e)" "\<forall>m. hmac secret m \<noteq> []"
  shows "ExtractSigned (parse_query (values_encode (signed_values je (SignWithHeaders hmac secret rawURL uid e hs) q))) =
    Inr (rawURL, uid, unix e, signValue hmac secret rawURL uid (unix e))"
  using assms by (simp add: ExtractSigned_def signed_values_get SignWithHeaders_def signValue_def Let_def)

lemma built_headers:
  assumes "\<forall>h. json_dec (json_enc h) = Some h" "\<forall>h. json_enc h \<noteq> []" "hs = [] \<Longrightarrow> values_get ''hdr'' q = []"
  shows "ExtractHeaders json_dec (parse_query (values_encode (signed_values json_enc (SignWithHeaders hmac secret rawURL uid e hs) q))) = hs"
proof (cases "hs = []")
  case True
  then show ?thesis using assms(3) by (simp add: ExtractHeaders_def signed_values_def SignWithHeaders_def Let_def)
next
  case False
  then show ?thesis using assms(1,2) by (simp add: ExtractHeaders_def signed_values_get SignWithHeaders_def Let_def)
qed

section \<open>Properties\<close>

text \<open>
  C29. What is signed is what the proxy reads: the query of a built URL gives back exactly the URL, user, expiry and headers that were
  signed, and the signature verifies until the expiry and not after it.
\<close>

theorem signed_url_round_trip:
  assumes "ulParse lib base = Some u" "trim_space rawURL = rawURL" "rawURL \<noteq> []" "trim_space uid = uid" "uid \<noteq> []"
    and "in_int64 (unix e)" "\<forall>m. hmac secret m \<noteq> []" "\<forall>h. json_dec (json_enc h) = Some h" "\<forall>h. json_enc h \<noteq> []" "hs \<noteq> []"
  shows "\<exists>q. BuildSignedURL lib json_enc base (SignWithHeaders hmac secret rawURL uid e hs) = Some (ulString lib (u\<lparr>unRawQuery := q\<rparr>)) \<and>
     ExtractSigned (parse_query q) = Inr (rawURL, uid, unix e, signValue hmac secret rawURL uid (unix e)) \<and>
     ExtractHeaders json_dec (parse_query q) = hs \<and>
     (\<forall>t. Verify hmac secret t rawURL uid (unix e) (signValue hmac secret rawURL uid (unix e)) \<longleftrightarrow> unix t \<le> unix e)"
proof (intro exI conjI allI)
  let ?sg = "SignWithHeaders hmac secret rawURL uid e hs"
  let ?q = "values_encode (signed_values json_enc ?sg (parse_query (unRawQuery u)))"
  show "BuildSignedURL lib json_enc base ?sg = Some (ulString lib (u\<lparr>unRawQuery := ?q\<rparr>))"
    using assms(1) by (simp add: BuildSignedURL_def)
  show "ExtractSigned (parse_query ?q) = Inr (rawURL, uid, unix e, signValue hmac secret rawURL uid (unix e))"
    by (rule built_extract) (use assms(2-7) in simp_all)
  show "ExtractHeaders json_dec (parse_query ?q) = hs"
    by (rule built_headers) (use assms(8-10) in simp_all)
qed (rule Verify_signValue)

definition demo_mac :: mac where
  "demo_mac k m = k @ m @ ''.''"

text \<open>A JSON stand-in: a constant text for the one header map of the example.\<close>

definition demo_lib :: url_lib where
  "demo_lib = \<lparr>ulParse = (\<lambda>s. Some \<lparr>unPath = ''/hls'', unRawQuery = [], unRest = []\<rparr>), ulString = (\<lambda>u. unPath u @ ''?'' @ unRawQuery u)\<rparr>"

fun demo_enc :: "headers \<Rightarrow> string" where
  "demo_enc [] = ''.''"
| "demo_enc ((k, v) # hs) = encode_pair (k, v) @ ''&'' @ demo_enc hs"

definition demo_dec :: "string \<Rightarrow> headers option" where
  "demo_dec s = Some (List.map_filter parse_pair (butlast (split_on CHR ''&'' s)))"

lemma demo_enc_parts: "split_on CHR ''&'' (demo_enc hs) = map encode_pair hs @ [''.'']"
  by (induction hs rule: demo_enc.induct) (simp_all add: split_on_append encode_pair_no_amp)

lemma demo_json: "demo_dec (demo_enc hs) = Some hs"
  by (simp add: demo_dec_def demo_enc_parts butlast_append List.map_filter_def comp_def)

theorem signed_url_round_trip_witness:
  "\<exists>q. BuildSignedURL demo_lib demo_enc ''/hls'' (SignWithHeaders demo_mac ''k'' ''http://a/b c'' ''u1'' 5000000000 [(''Referer'', ''r'')]) =
       Some (ulString demo_lib (\<lparr>unPath = ''/hls'', unRawQuery = q, unRest = []\<rparr>)) \<and>
     ExtractSigned (parse_query q) = Inr (''http://a/b c'', ''u1'', 5, signValue demo_mac ''k'' ''http://a/b c'' ''u1'' 5)"
proof -
  have 1: "ulParse demo_lib ''/hls'' = Some \<lparr>unPath = ''/hls'', unRawQuery = [], unRest = []\<rparr>" by (simp add: demo_lib_def)
  have 2: "trim_space ''http://a/b c'' = ''http://a/b c''" "trim_space ''u1'' = ''u1''" by code_simp+
  have u: "unix 5000000000 = 5" by (simp add: unix_def)
  have n: "demo_enc h \<noteq> []" for h by (cases h) auto
  show ?thesis
    using signed_url_round_trip [OF 1 2(1) _ 2(2), of 5000000000 demo_mac "''k''" demo_dec demo_enc "[(''Referer'', ''r'')]"]
    by (simp add: u in_int64_def demo_mac_def demo_json n) blast
qed

text \<open>
  A signature binds its request: two signatures over equal messages are for the same URL, user and expiry, provided the user
  identifiers hold no bar; with a bar the split between URL and user is ambiguous, and one signature is good for both readings.
\<close>

theorem signature_binds_request:
  "(\<forall>u i e u' i' e'. CHR ''|'' \<notin> set i \<and> CHR ''|'' \<notin> set i' \<and>
      sign_message u i (format_int e) = sign_message u' i' (format_int e') \<longrightarrow> u = u' \<and> i = i' \<and> e = e') \<and>
   (\<forall>hmac secret u a b e. signValue hmac secret (u @ ''|'' @ a) b e = signValue hmac secret u (a @ ''|'' @ b) e)"
proof (intro conjI allI impI)
  fix u i e u' i' e'
  assume "CHR ''|'' \<notin> set i \<and> CHR ''|'' \<notin> set i' \<and> sign_message u i (format_int e) = sign_message u' i' (format_int e')"
  then show "u = u'" "i = i'" "e = e'" using sign_message_inj by blast+
next
  fix hmac secret u a b e
  show "signValue hmac secret (u @ ''|'' @ a) b e = signValue hmac secret u (a @ ''|'' @ b) e"
    by (simp add: signValue_def sign_message_def)
qed

theorem signature_binds_request_witness:
  "sign_message ''x'' ''u'' (format_int 5) \<noteq> sign_message ''y'' ''u'' (format_int 5) \<and>
   signValue demo_mac ''k'' (''x'' @ ''|'' @ ''a'') ''b'' 7 = signValue demo_mac ''k'' ''x'' (''a'' @ ''|'' @ ''b'') 7"
proof
  have "CHR ''|'' \<notin> set ''u''" by simp
  then show "sign_message ''x'' ''u'' (format_int 5) \<noteq> sign_message ''y'' ''u'' (format_int 5)"
    using signature_binds_request [THEN conjunct1, rule_format, of "''u''" "''u''" "''x''" 5 "''y''" 5] by auto
  show "signValue demo_mac ''k'' (''x'' @ ''|'' @ ''a'') ''b'' 7 = signValue demo_mac ''k'' ''x'' (''a'' @ ''|'' @ ''b'') 7"
    by (rule signature_binds_request [THEN conjunct2, rule_format])
qed

end
