(* ===== verification/Hls_Proxy.thy ===== *)
theory Hls_Proxy
  imports Hls_Signing
begin

text \<open>
  The HLS proxy: the playlist rewriter (services/hls-proxy/internal/rewriter) and the handler of \<open>/hls\<close> in services/hls-proxy/cmd.
  The upstream server is a parameter of the handler. Each URL of a playlist that passes through the proxy is signed again for
  the same user and expiry.
\<close>

section \<open>The rewriter\<close>

record signing_params =
  spSecret :: string
  spUID :: string
  spExp :: string
  spHdr :: string

text \<open>\<open>strings.Index\<close>\<close>

fun index_of :: "string \<Rightarrow> string \<Rightarrow> nat option" where
  "index_of [] p = (if p = [] then Some 0 else None)"
| "index_of (c # s) p = (if has_prefix (c # s) p then Some 0 else map_option Suc (index_of s p))"

definition uri_attr :: string where
  "uri_attr = ''URI='' @ [CHR 0x22]"

definition signURL :: "mac \<Rightarrow> string \<Rightarrow> string \<Rightarrow> string \<Rightarrow> string \<Rightarrow> string" where
  "signURL hmac rawURL uid e secret = b64_encode False (hmac secret (sign_message rawURL uid e))"

definition proxy_query :: "mac \<Rightarrow> string \<Rightarrow> signing_params \<Rightarrow> string" where
  "proxy_query hmac targetURL p =
     ''url='' @ query_escape targetURL @ ''&exp='' @ spExp p @ ''&uid='' @ spUID p @ ''&sig='' @
     signURL hmac targetURL (spUID p) (spExp p) (spSecret p) @ (if spHdr p \<noteq> [] then ''&hdr='' @ spHdr p else [])"

definition buildProxyURL :: "mac \<Rightarrow> string \<Rightarrow> string \<Rightarrow> signing_params \<Rightarrow> string" where
  "buildProxyURL hmac proxyBase targetURL p = proxyBase @ ''?'' @ proxy_query hmac targetURL p"

definition resolveURL :: "url_lib \<Rightarrow> string \<Rightarrow> string \<Rightarrow> string" where
  "resolveURL lib baseURL ref =
     (if has_prefix ref ''http://'' \<or> has_prefix ref ''https://'' then ref
      else
        (case ulParse lib baseURL of
           None \<Rightarrow> ref
         | Some base \<Rightarrow>
             if has_prefix ref ''/'' then ulString lib (base\<lparr>unPath := ref, unRawQuery := []\<rparr>)
             else ulString lib (base\<lparr>unPath := path_join2 (path_dir (unPath base)) ref, unRawQuery := []\<rparr>)))"

definition rewriteURITag :: "mac \<Rightarrow> url_lib \<Rightarrow> string \<Rightarrow> string \<Rightarrow> string \<Rightarrow> signing_params \<Rightarrow> string" where
  "rewriteURITag hmac lib line baseURL proxyBase p =
     (case index_of line uri_attr of
        None \<Rightarrow> line
      | Some i \<Rightarrow>
          let start = i + 5
          in (case index_of (drop start line) [CHR 0x22] of
                None \<Rightarrow> line
              | Some n \<Rightarrow>
                  let uri = take n (drop start line)
                  in take start line @ buildProxyURL hmac proxyBase (resolveURL lib baseURL uri) p @ drop (start + n) line))"

definition rewrite_line :: "mac \<Rightarrow> url_lib \<Rightarrow> string \<Rightarrow> string \<Rightarrow> signing_params \<Rightarrow> string \<Rightarrow> string" where
  "rewrite_line hmac lib baseURL proxyBase p line =
     (let tr = trim_space line
      in if tr = [] \<or> has_prefix tr ''#'' then
           (if contains tr uri_attr then rewriteURITag hmac lib line baseURL proxyBase p else line)
         else buildProxyURL hmac proxyBase (resolveURL lib baseURL tr) p)"

definition RewriteM3U8 :: "mac \<Rightarrow> url_lib \<Rightarrow> string \<Rightarrow> string \<Rightarrow> string \<Rightarrow> signing_params \<Rightarrow> string" where
  "RewriteM3U8 hmac lib body baseURL proxyBase p =
     join [CHR 0x0A] (map (rewrite_line hmac lib baseURL proxyBase p) (split_on CHR 0x0A body))"

section \<open>The handler\<close>

record proxy_request =
  pqMethod :: string
  pqQuery :: string
  pqTLS :: bool
  pqForwardedProto :: string
  pqHost :: string

record upstream_response =
  urStatus :: nat
  urHeader :: "(string \<times> string list) list"
  urBody :: "string option"

record proxy_response =
  prStatus :: nat
  prHeader :: headers
  prBody :: string

text \<open>
  The world outside: whether a URL makes a request (\<open>http.NewRequest\<close>), and what the upstream server answers to a URL with
  headers; a response without a body text is one whose body cannot be read.
\<close>

record proxy_env =
  peMac :: mac
  peUrl :: url_lib
  peJson :: "string \<Rightarrow> headers option"
  peSecret :: string
  peNow :: time
  peRequestOk :: "string \<Rightarrow> bool"
  peUpstream :: "string \<Rightarrow> headers \<Rightarrow> upstream_response option"

definition cors_headers :: headers where
  "cors_headers =
     [(''Access-Control-Allow-Origin'', ''*''), (''Access-Control-Allow-Methods'', ''GET, OPTIONS''),
      (''Access-Control-Allow-Headers'', ''Content-Type, Authorization, Range''),
      (''Access-Control-Expose-Headers'', ''Content-Length, Content-Range''), (''Access-Control-Max-Age'', ''3600'')]"

text \<open>\<open>http.Error\<close>\<close>

definition http_Error :: "nat \<Rightarrow> string \<Rightarrow> headers \<Rightarrow> proxy_response" where
  "http_Error code msg hs =
     \<lparr>prStatus = code, prHeader = header_set ''X-Content-Type-Options'' ''nosniff'' (header_set ''Content-Type'' ''text/plain; charset=utf-8'' hs),
       prBody = msg @ [CHR 0x0A]\<rparr>"

definition quoted :: "string \<Rightarrow> string" where
  "quoted s = CHR 0x22 # s @ [CHR 0x22]"

definition applyHiAnimeHeaders :: "headers \<Rightarrow> headers" where
  "applyHiAnimeHeaders hs =
     fold (\<lambda>(k, v). header_set k v)
       [(''Accept'', ''*/*''), (''Accept-Encoding'', ''gzip, deflate, br, zstd''), (''Accept-Language'', ''en-US,en;q=0.5''),
        (''Origin'', ''https://megacloud.blog''), (''Referer'', ''https://hianime.to/''),
        (''Sec-Ch-Ua'', quoted ''Chromium'' @ '';v='' @ quoted ''134'' @ '', '' @ quoted ''Not:A-Brand'' @ '';v='' @ quoted ''24'' @ '', '' @
           quoted ''Brave'' @ '';v='' @ quoted ''134''),
        (''Sec-Ch-Ua-Mobile'', ''?0''), (''Sec-Ch-Ua-Platform'', quoted ''Windows''), (''Sec-Fetch-Dest'', ''empty''),
        (''Sec-Fetch-Mode'', ''cors''), (''Sec-Fetch-Site'', ''cross-site''), (''Sec-Gpc'', ''1''),
        (''User-Agent'', ''Mozilla/5.0 (Windows NT 10.0; Win64; x64) AppleWebKit/537.36 (KHTML, like Gecko) Chrome/141.0.0.0 Safari/537.36'')] hs"

definition has_suffix :: "string \<Rightarrow> string \<Rightarrow> bool" where
  "has_suffix s p \<longleftrightarrow> has_prefix (rev s) (rev p)"

definition first_value :: "string \<Rightarrow> (string \<times> string list) list \<Rightarrow> string" where
  "first_value k hs = (case List.find (\<lambda>p. fst p = k) hs of Some (_, v # _) \<Rightarrow> v | _ \<Rightarrow> [])"

definition is_m3u8 :: "string \<Rightarrow> string \<Rightarrow> bool" where
  "is_m3u8 contentType rawURL \<longleftrightarrow>
     contains contentType ''application/vnd.apple.mpegurl'' \<or> contains contentType ''application/x-mpegurl'' \<or>
     contains contentType ''audio/mpegurl'' \<or> contains contentType ''application/x-mpegURL'' \<or> contains contentType ''audio/x-mpegurl'' \<or>
     has_suffix (to_lower rawURL) ''.m3u8'' \<or> has_suffix (to_lower rawURL) ''.m3u''"

definition proxy_base :: "proxy_request \<Rightarrow> string" where
  "proxy_base r =
     (let scheme = (if pqTLS r then ''https'' else ''http'');
          scheme = (if pqForwardedProto r \<noteq> [] then pqForwardedProto r else scheme)
      in scheme @ ''://'' @ pqHost r @ ''/hls'')"

definition request_headers :: "proxy_env \<Rightarrow> proxy_request \<Rightarrow> headers" where
  "request_headers E r =
     (let customHeaders = ExtractHeaders (peJson E) (parse_query (pqQuery r))
      in if customHeaders \<noteq> [] then fold (\<lambda>(k, v). header_set k v) customHeaders [] else applyHiAnimeHeaders [])"

text \<open>What becomes of an upstream response: a playlist is rewritten, anything else copied without the upstream's CORS headers.\<close>

definition relay :: "proxy_env \<Rightarrow> proxy_request \<Rightarrow> string \<Rightarrow> string \<Rightarrow> upstream_response \<Rightarrow> proxy_response" where
  "relay E r rawURL uid resp =
     (let contentType = first_value ''Content-Type'' (urHeader resp)
      in if is_m3u8 contentType rawURL then
           (case urBody resp of
              None \<Rightarrow> http_Error 502 ''upstream'' cors_headers
            | Some d \<Rightarrow>
                let q = parse_query (pqQuery r);
                    p = \<lparr>spSecret = peSecret E, spUID = uid, spExp = values_get ''exp'' q, spHdr = values_get ''hdr'' q\<rparr>
                in \<lparr>prStatus = urStatus resp, prHeader = header_set ''Content-Type'' contentType cors_headers,
                     prBody = RewriteM3U8 (peMac E) (peUrl E) d rawURL (proxy_base r) p\<rparr>)
         else
           \<lparr>prStatus = urStatus resp,
             prHeader = fold (\<lambda>(k, vs) hs. if has_prefix (to_lower k) ''access-control-'' then hs else fold (header_add k) vs hs)
               (urHeader resp) cors_headers,
             prBody = (case urBody resp of None \<Rightarrow> [] | Some d \<Rightarrow> d)\<rparr>)"

text \<open>The handler, with the upstream request it makes, if any.\<close>

definition hls_handler :: "proxy_env \<Rightarrow> proxy_request \<Rightarrow> proxy_response \<times> (string \<times> headers) option" where
  "hls_handler E r =
     (if pqMethod r = ''OPTIONS'' then (\<lparr>prStatus = 204, prHeader = cors_headers, prBody = []\<rparr>, None)
      else
        (case ExtractSigned (parse_query (pqQuery r)) of
           Inl e \<Rightarrow> (http_Error 403 ''forbidden'' cors_headers, None)
         | Inr (rawURL, uid, e, sig) \<Rightarrow>
             if \<not> Verify (peMac E) (peSecret E) (peNow E) rawURL uid e sig then (http_Error 403 ''forbidden'' cors_headers, None)
             else if \<not> peRequestOk E rawURL then (http_Error 400 ''bad request'' cors_headers, None)
             else
               let hs = request_headers E r
               in (case peUpstream E rawURL hs of
                     None \<Rightarrow> (http_Error 502 ''upstream'' cors_headers, Some (rawURL, hs))
                   | Some resp \<Rightarrow> (relay E r rawURL uid resp, Some (rawURL, hs)))))"

section \<open>Rewritten lines\<close>

abbreviation all_unreserved :: "string \<Rightarrow> bool" where
  "all_unreserved s \<equiv> \<forall>c \<in> set s. unreserved c"

lemma unreserved_plain: "unreserved c \<Longrightarrow> plain_char c"
  by (auto simp: unreserved_def Let_def intro!: plain_ascii)

lemma unreserved_b64: "n < 64 \<Longrightarrow> unreserved (b64_char n)"
  by (auto simp: unreserved_def b64_char_def Let_def)

lemma b64_raw_unreserved: "all_unreserved (b64_encode False s)"
proof (induction "False" s rule: b64_encode.induct)
  case (4 a b c s)
  then show ?case by (auto simp: Let_def unreserved_b64)
qed (auto simp: Let_def unreserved_b64)

lemma format_int_unreserved: "all_unreserved (format_int i)"
  using format_int_chars by (fastforce simp: unreserved_def is_digit_def Let_def)

lemma parse_pair_plain:
  assumes "all_unreserved k" "all_unreserved v"
  shows "parse_pair (k @ CHR ''='' # v) = Some (k, v)"
proof -
  have "CHR ''='' \<notin> set k" "CHR '';'' \<notin> set k" "CHR '';'' \<notin> set v" using assms unreserved_not_special by blast+
  then show ?thesis using assms by (simp add: parse_pair_def query_unescape_plain)
qed

lemma parse_pair_escaped: "all_unreserved k \<Longrightarrow> parse_pair (k @ CHR ''='' # query_escape v) = Some (k, v)"
proof -
  assume k: "all_unreserved k"
  then have "CHR ''='' \<notin> set k" "CHR '';'' \<notin> set k" using unreserved_not_special by blast+
  then show ?thesis using k by (simp add: parse_pair_def query_unescape_plain)
qed

definition plain_params :: "signing_params \<Rightarrow> bool" where
  "plain_params p \<longleftrightarrow> all_unreserved (spUID p) \<and> all_unreserved (spExp p) \<and> all_unreserved (spHdr p)"

lemma proxy_query_values:
  assumes "plain_params p"
  shows "parse_query (proxy_query hmac target p) =
    [(''url'', target), (''exp'', spExp p), (''uid'', spUID p), (''sig'', signURL hmac target (spUID p) (spExp p) (spSecret p))] @
    (if spHdr p \<noteq> [] then [(''hdr'', spHdr p)] else [])"
proof -
  let ?ps = "[''url='' @ query_escape target, ''exp='' @ spExp p, ''uid='' @ spUID p,
    ''sig='' @ signURL hmac target (spUID p) (spExp p) (spSecret p)] @ (if spHdr p \<noteq> [] then [''hdr='' @ spHdr p] else [])"
  have names: "all_unreserved ''url''" "all_unreserved ''exp''" "all_unreserved ''uid''" "all_unreserved ''sig''" "all_unreserved ''hdr''" by code_simp+
  have sig: "all_unreserved (signURL hmac target (spUID p) (spExp p) (spSecret p))" by (simp add: signURL_def b64_raw_unreserved)
  have amp: "all_unreserved v \<Longrightarrow> CHR ''&'' \<notin> set v" for v using unreserved_not_special by blast
  have "proxy_query hmac target p = join ''&'' ?ps" by (simp add: proxy_query_def)
  moreover have "split_on CHR ''&'' (join ''&'' ?ps) = ?ps"
    by (rule split_join) (use assms sig amp in \<open>simp_all add: plain_params_def\<close>)
  moreover have "parse_pair (''url='' @ query_escape target) = Some (''url'', target)" using parse_pair_escaped [OF names(1)] by simp
  moreover have "parse_pair (''exp='' @ spExp p) = Some (''exp'', spExp p)" "parse_pair (''uid='' @ spUID p) = Some (''uid'', spUID p)"
    "parse_pair (''hdr='' @ spHdr p) = Some (''hdr'', spHdr p)"
    using parse_pair_plain [OF names(2)] parse_pair_plain [OF names(3)] parse_pair_plain [OF names(5)] assms
    by (simp_all add: plain_params_def)
  moreover have "parse_pair (''sig='' @ signURL hmac target (spUID p) (spExp p) (spSecret p)) =
      Some (''sig'', signURL hmac target (spUID p) (spExp p) (spSecret p))"
    using parse_pair_plain [OF names(4) sig] by simp
  ultimately show ?thesis by (simp add: parse_query_def List.map_filter_def)
qed

text \<open>A line without a line feed is rewritten to one without, so the playlist keeps its lines.\<close>

lemma lf_free_query:
  assumes "plain_params p"
  shows "CHR 0x0A \<notin> set (proxy_query hmac target p)"
proof -
  have "all_unreserved v \<Longrightarrow> CHR 0x0A \<notin> set v" for v by (auto simp: unreserved_def Let_def)
  moreover have "CHR 0x0A \<notin> set (query_escape target)" using query_escape_chars by (fastforce simp: unreserved_def Let_def)
  ultimately show ?thesis using assms b64_raw_unreserved by (auto simp: proxy_query_def plain_params_def signURL_def)
qed

lemma lf_free_line:
  assumes "plain_params p" "CHR 0x0A \<notin> set proxyBase" "CHR 0x0A \<notin> set line"
  shows "CHR 0x0A \<notin> set (rewrite_line hmac lib baseURL proxyBase p line)"
proof -
  have b: "CHR 0x0A \<notin> set (buildProxyURL hmac proxyBase u p)" for u
    using assms(1,2) lf_free_query by (simp add: buildProxyURL_def)
  have "CHR 0x0A \<notin> set (rewriteURITag hmac lib line baseURL proxyBase p)"
    using b assms(3) by (auto simp: rewriteURITag_def Let_def split: option.split dest: in_set_takeD in_set_dropD)
  with b assms(3) show ?thesis by (simp add: rewrite_line_def Let_def)
qed

lemma split_on_parts: "l \<in> set (split_on c s) \<Longrightarrow> c \<notin> set l"
  by (induction s arbitrary: l) (auto split: if_splits list.splits)

lemma rewritten_lines:
  assumes "plain_params p" "CHR 0x0A \<notin> set proxyBase"
  shows "split_on CHR 0x0A (RewriteM3U8 hmac lib body baseURL proxyBase p) =
    map (rewrite_line hmac lib baseURL proxyBase p) (split_on CHR 0x0A body)"
  unfolding RewriteM3U8_def by (rule split_join) (use assms lf_free_line split_on_parts in auto)

text \<open>The base law of \<open>URL.String\<close>: the text has no white space around it and is not empty.\<close>

definition tidy_lib :: "url_lib \<Rightarrow> bool" where
  "tidy_lib lib \<longleftrightarrow> (\<forall>u. trim_space (ulString lib u) = ulString lib u \<and> ulString lib u \<noteq> [])"

lemma resolveURL_tidy:
  "tidy_lib lib \<Longrightarrow> trim_space ref = ref \<Longrightarrow> ref \<noteq> [] \<Longrightarrow>
   trim_space (resolveURL lib base ref) = resolveURL lib base ref \<and> resolveURL lib base ref \<noteq> []"
  by (auto simp: resolveURL_def tidy_lib_def split: option.split)

text \<open>The proxy reads from a URL it built the target, and the signature in it is the one it checks for.\<close>

lemma proxy_query_extract:
  assumes "plain_params p" "spExp p = format_int e" "in_int64 e" "spUID p \<noteq> []" "\<forall>m. hmac (spSecret p) m \<noteq> []"
    and "trim_space target = target" "target \<noteq> []"
  shows "ExtractSigned (parse_query (proxy_query hmac target p)) = Inr (target, spUID p, e, signValue hmac (spSecret p) target (spUID p) e)"
proof -
  have "trim_space (spUID p) = spUID p"
    using assms(1) unreserved_plain by (intro trim_space_all_plain) (auto simp: plain_params_def)
  then show ?thesis
    using assms(2-7) by (simp add: proxy_query_values [OF assms(1)] ExtractSigned_def values_get_def signURL_def signValue_def Let_def)
qed

lemma request_headers_hdr:
  "values_get ''hdr'' (parse_query (pqQuery r')) = values_get ''hdr'' (parse_query (pqQuery r)) \<Longrightarrow>
   request_headers (E\<lparr>peNow := t\<rparr>) r' = request_headers E r"
  by (simp add: request_headers_def ExtractHeaders_def Let_def)

lemma proxy_query_hdr: "plain_params p \<Longrightarrow> values_get ''hdr'' (parse_query (proxy_query hmac target p)) = spHdr p"
  by (simp add: proxy_query_values values_get_def)

section \<open>Properties\<close>

text \<open>
  C8. The proxy is no open relay: it contacts an upstream URL exactly when the request carries a signature of its secret over that very
  URL with the user and an expiry that has not passed, and every other request than a preflight without such a signature is answered 403.
\<close>

theorem hls_requires_signature:
  "(snd (hls_handler E r) = Some (u, hs) \<longleftrightarrow>
      pqMethod r \<noteq> ''OPTIONS'' \<and> peRequestOk E u \<and> hs = request_headers E r \<and>
      (\<exists>uid e sig. ExtractSigned (parse_query (pqQuery r)) = Inr (u, uid, e, sig) \<and> unix (peNow E) \<le> e \<and>
         sig = signValue (peMac E) (peSecret E) u uid e)) \<and>
   (pqMethod r \<noteq> ''OPTIONS'' \<and>
      \<not> (\<exists>v uid e sig. ExtractSigned (parse_query (pqQuery r)) = Inr (v, uid, e, sig) \<and> unix (peNow E) \<le> e \<and>
           sig = signValue (peMac E) (peSecret E) v uid e) \<longrightarrow>
    prStatus (fst (hls_handler E r)) = 403 \<and> snd (hls_handler E r) = None)"
  by (cases "ExtractSigned (parse_query (pqQuery r))")
    (auto simp: hls_handler_def Verify_def http_Error_def Let_def split: option.splits if_splits)

definition demo_proxy :: proxy_env where
  "demo_proxy = \<lparr>peMac = demo_mac, peUrl = \<lparr>ulParse = (\<lambda>s. Some \<lparr>unPath = ''/a/x'', unRawQuery = [], unRest = []\<rparr>), ulString = (\<lambda>u. ''http://h/'')\<rparr>,
     peJson = (\<lambda>_. None), peSecret = ''k'', peNow = 0, peRequestOk = (\<lambda>_. True),
     peUpstream = (\<lambda>u hs. Some \<lparr>urStatus = 200, urHeader = [(''Content-Type'', [''audio/mpegurl''])], urBody = Some (''#EXTM3U'' @ [CHR 0x0A] @ ''seg.ts'')\<rparr>)\<rparr>"

definition demo_signing :: signing_params where
  "demo_signing = \<lparr>spSecret = ''k'', spUID = ''u1'', spExp = format_int 5, spHdr = []\<rparr>"

definition demo_hls_request :: proxy_request where
  "demo_hls_request = \<lparr>pqMethod = ''GET'', pqQuery = proxy_query demo_mac ''http://h/x'' demo_signing, pqTLS = False,
     pqForwardedProto = [], pqHost = ''p''\<rparr>"

theorem hls_requires_signature_witness:
  "prStatus (fst (hls_handler demo_proxy (demo_hls_request\<lparr>pqQuery := []\<rparr>))) = 403 \<and>
   snd (hls_handler demo_proxy (demo_hls_request\<lparr>pqQuery := []\<rparr>)) = None"
proof -
  have "ExtractSigned (parse_query []) = Inl MissingParams" by (simp add: ExtractSigned_def parse_query_def parse_pair_def values_get_def)
  then show ?thesis
    using hls_requires_signature [THEN conjunct2, of "demo_hls_request\<lparr>pqQuery := []\<rparr>" demo_proxy] by (simp add: demo_hls_request_def)
qed

lemma demo_plain: "plain_params demo_signing"
  using format_int_unreserved [of 5] by (simp add: plain_params_def demo_signing_def) code_simp

lemma demo_extract:
  "ExtractSigned (parse_query (pqQuery demo_hls_request)) = Inr (''http://h/x'', ''u1'', 5, signValue demo_mac ''k'' ''http://h/x'' ''u1'' 5)"
proof -
  have "trim_space ''http://h/x'' = ''http://h/x''" by code_simp
  from proxy_query_extract [OF demo_plain _ _ _ _ this, of 5 demo_mac] show ?thesis
    by (simp add: demo_hls_request_def demo_signing_def in_int64_def demo_mac_def)
qed



end
