(* ===== verification/Streaming.thy ===== *)
theory Streaming
  imports Catalog Hls_Proxy
begin

text \<open>
  From an episode to a stream: the resolver (services/streaming-resolver), its provider client with retries and its cache, the
  endpoint of services/streaming that lists sources, and the gateway's watch endpoint (services/bff/internal/handlers/watch.go) that hands out
  signed links for the proxy. The provider's HTTP exchange, the circuit breaker (a library), JSON and the comparison of a \<open>float32\<close> with 0
  are parameters; times of intro and outro are bit patterns.
\<close>

section \<open>The provider client\<close>

datatype fetch_error = FetchRequest | FetchTransport | FetchGzip | FetchRead | FetchStatus nat string | FetchDecode string | FetchDone

record client_config =
  ccUserAgent :: string
  ccMaxRetries :: int
  ccRetryBaseDelay :: int

definition client_New :: "string \<Rightarrow> client_config \<Rightarrow> string \<times> client_config" where
  "client_New baseURL cfg =
     (rev (dropWhile (\<lambda>c. c = CHR ''/'') (rev (if baseURL = [] then ''https://void-roan-six.vercel.app/api/v2'' else baseURL))),
      \<lparr>ccUserAgent = (if ccUserAgent cfg = [] then ''Mozilla/5.0 (Windows NT 10.0; Win64; x64; rv:146.0) Gecko/20100101 Firefox/146.0'' else ccUserAgent cfg),
       ccMaxRetries = (if ccMaxRetries cfg \<le> 0 then 3 else ccMaxRetries cfg),
       ccRetryBaseDelay = (if ccRetryBaseDelay cfg \<le> 0 then 500000000 else ccRetryBaseDelay cfg)\<rparr>)"

text \<open>The exchange gives status, \<open>Content-Encoding\<close> and body; \<open>xcGunzip\<close> unpacks (\<open>None\<close>: no gzip header).\<close>

record exchange =
  xcRequestOk :: "string \<Rightarrow> bool"
  xcDo :: "string \<Rightarrow> headers \<Rightarrow> (nat \<times> string \<times> string option) option"
  xcGunzip :: "string option \<Rightarrow> string option option"

definition browser_headers :: "client_config \<Rightarrow> headers" where
  "browser_headers cfg =
     fold (\<lambda>(k, v). header_set k v)
       [(''Accept'', ''text/html,application/xhtml+xml,application/xml;q=0.9,*/*;q=0.8''), (''Accept-Language'', ''en-US,en;q=0.9''),
        (''Sec-GPC'', ''1''), (''Connection'', ''keep-alive''), (''Upgrade-Insecure-Requests'', ''1''), (''Sec-Fetch-Dest'', ''document''),
        (''Sec-Fetch-Mode'', ''navigate''), (''Sec-Fetch-Site'', ''none''), (''Sec-Fetch-User'', ''?1''), (''Priority'', ''u=0, i''),
        (''TE'', ''trailers''), (''User-Agent'', ccUserAgent cfg)] []"

definition fetchJSON :: "exchange \<Rightarrow> client_config \<Rightarrow> (string \<Rightarrow> 'a option) \<Rightarrow> string \<Rightarrow> fetch_error + 'a" where
  "fetchJSON X cfg decode u =
     (if \<not> xcRequestOk X u then Inl FetchRequest
      else
        (case xcDo X u (browser_headers cfg) of
           None \<Rightarrow> Inl FetchTransport
         | Some (status, enc, body) \<Rightarrow>
             (case (if contains enc ''gzip'' then xcGunzip X body else Some body) of
                None \<Rightarrow> Inl FetchGzip
              | Some None \<Rightarrow> Inl FetchRead
              | Some (Some full) \<Rightarrow>
                  let b = take (2 ^ 20) full
                  in if status \<noteq> 200 then Inl (FetchStatus status (take (min (length b) 200) b))
                     else (case decode b of None \<Rightarrow> Inl (FetchDecode (take (min (length b) 200) b)) | Some v \<Rightarrow> Inr v))))"

text \<open>
  The retries: \<open>attempt\<close> counts from 0, before every later one the delay passes unless the context ends (\<open>ended\<close>); the result carries the
  delays waited.
\<close>

fun retries :: "(nat \<Rightarrow> fetch_error + 'a) \<Rightarrow> (nat \<Rightarrow> bool) \<Rightarrow> int \<Rightarrow> nat \<Rightarrow> nat \<Rightarrow> (fetch_error + 'a) \<times> int list" where
  "retries get ended base attempt 0 = (get attempt, [])"
| "retries get ended base attempt (Suc n) =
     (case get attempt of
        Inr v \<Rightarrow> (Inr v, [])
      | Inl e \<Rightarrow>
          if ended (Suc attempt) then (Inl FetchDone, [])
          else (case retries get ended base (Suc attempt) n of (r, ds) \<Rightarrow> (r, base * 2 ^ attempt # ds)))"

definition doJSONWithRetry :: "client_config \<Rightarrow> (nat \<Rightarrow> fetch_error + 'a) \<Rightarrow> (nat \<Rightarrow> bool) \<Rightarrow> fetch_error + 'a" where
  "doJSONWithRetry cfg get ended = fst (retries get ended (ccRetryBaseDelay cfg) 0 (nat (ccMaxRetries cfg)))"

text \<open>The breaker, when there is one, decides on the result: it passes it on or refuses the call.\<close>

definition doWithBreaker ::
  "((fetch_error + 'a) \<Rightarrow> fetch_error + 'a) option \<Rightarrow> client_config \<Rightarrow> (nat \<Rightarrow> fetch_error + 'a) \<Rightarrow> (nat \<Rightarrow> bool) \<Rightarrow> fetch_error + 'a" where
  "doWithBreaker cb cfg get ended =
     (case cb of None \<Rightarrow> doJSONWithRetry cfg get ended | Some execute \<Rightarrow> execute (doJSONWithRetry cfg get ended))"

record servers_reply =
  svStatus :: int
  svSub :: "string list"
  svDub :: "string list"
  svRaw :: "string list"

record sources_reply =
  soStatus :: int
  soHeaders :: headers
  soTracks :: "(string \<times> string) list"
  soIntro :: "i32 \<times> i32"
  soOutro :: "i32 \<times> i32"
  soSources :: "(string \<times> bool \<times> string) list"

text \<open>\<open>X i\<close> is the exchange of attempt \<open>i\<close>.\<close>

definition GetServers ::
  "((fetch_error + servers_reply) \<Rightarrow> fetch_error + servers_reply) option \<Rightarrow> (nat \<Rightarrow> exchange) \<Rightarrow> (nat \<Rightarrow> bool) \<Rightarrow> (string \<Rightarrow> servers_reply option) \<Rightarrow>
   string \<times> client_config \<Rightarrow> string \<Rightarrow> fetch_error + servers_reply" where
  "GetServers cb X ended decode c providerEpisodeID =
     doWithBreaker cb (snd c)
       (\<lambda>i. fetchJSON (X i) (snd c) decode (fst c @ ''/hianime/episode/servers?animeEpisodeId='' @ providerEpisodeID @ ''&raw=1'')) ended"

definition GetSources ::
  "((fetch_error + sources_reply) \<Rightarrow> fetch_error + sources_reply) option \<Rightarrow> (nat \<Rightarrow> exchange) \<Rightarrow> (nat \<Rightarrow> bool) \<Rightarrow> (string \<Rightarrow> sources_reply option) \<Rightarrow>
   string \<times> client_config \<Rightarrow> string \<Rightarrow> string \<Rightarrow> string \<Rightarrow> fetch_error + sources_reply" where
  "GetSources cb X ended decode c providerEpisodeID serverID category =
     doWithBreaker cb (snd c)
       (\<lambda>i. fetchJSON (X i) (snd c) decode (fst c @ ''/hianime/episode/sources?animeEpisodeId='' @ providerEpisodeID @ ''&server='' @ serverID @
         ''&category='' @ category)) ended"

section \<open>The cache\<close>

type_synonym redis_store = "string \<rightharpoonup> string \<times> time option"

text \<open>\<open>None\<close> is an error, \<open>Some None\<close> a miss. A key without a positive time to live stays.\<close>

definition cache_Get :: "bool \<Rightarrow> (string \<Rightarrow> 'a option) \<Rightarrow> time \<Rightarrow> string \<Rightarrow> redis_store \<Rightarrow> 'a option option" where
  "cache_Get bad decode t key db =
     (if bad then None
      else
        (case db key of
           Some (val, e) \<Rightarrow>
             if (case e of None \<Rightarrow> True | Some e \<Rightarrow> t < e) then (case decode val of None \<Rightarrow> None | Some v \<Rightarrow> Some (Some v)) else Some None
         | None \<Rightarrow> Some None))"

definition cache_Set :: "bool \<Rightarrow> time \<Rightarrow> int \<Rightarrow> string \<Rightarrow> string \<Rightarrow> redis_store \<Rightarrow> redis_store" where
  "cache_Set bad t ttl key b db = (if bad then db else db(key \<mapsto> (b, if ttl > 0 then Some (t + ttl) else None)))"

section \<open>The resolver\<close>

record playback_source =
  psUrl :: string
  psQuality :: string
  psIsM3U8 :: bool

record playback_track =
  ptKind :: string
  ptFile :: string
  ptLabel :: string
  ptLanguage :: string
  ptIsDefault :: bool

record cached_playback =
  cpSources :: "playback_source list"
  cpTracks :: "playback_track list"
  cpIntro :: "(i32 \<times> i32) option"
  cpOutro :: "(i32 \<times> i32) option"
  cpHeaders :: headers
  cpProviderEpisodeID :: string

record resolver_env =
  reUuid :: "string \<Rightarrow> uuid option"
  reCatalog :: ctx
  reServers :: "string \<Rightarrow> fetch_error + servers_reply"
  reSources :: "string \<Rightarrow> string \<Rightarrow> string \<Rightarrow> fetch_error + sources_reply"
  reErrText :: "fetch_error \<Rightarrow> string"
  rePositive :: "i32 \<Rightarrow> bool"
  reHasCache :: bool
  reTTL :: int
  reNow :: time
  reGetBad :: bool
  reSetBad :: bool
  reEncode :: "cached_playback \<Rightarrow> string"
  reDecode :: "string \<Rightarrow> cached_playback option"

definition buildCachedPlayback :: "(i32 \<Rightarrow> bool) \<Rightarrow> string \<Rightarrow> sources_reply \<Rightarrow> cached_playback" where
  "buildCachedPlayback pos providerEpisodeID so =
     \<lparr>cpSources = map (\<lambda>(u, m3u8, q). \<lparr>psUrl = u, psQuality = q, psIsM3U8 = m3u8\<rparr>) (soSources so),
      cpTracks = map (\<lambda>(u, lang). \<lparr>ptKind = ''thumbnails'', ptFile = u, ptLabel = lang, ptLanguage = lang, ptIsDefault = False\<rparr>) (soTracks so),
      cpIntro = (if pos (snd (soIntro so)) then Some (soIntro so) else None),
      cpOutro = (if pos (snd (soOutro so)) then Some (soOutro so) else None),
      cpHeaders = soHeaders so, cpProviderEpisodeID = providerEpisodeID\<rparr>"

definition resolveProviderEpisode :: "resolver_env \<Rightarrow> string \<Rightarrow> catalog_db \<Rightarrow> grpc_status + string" where
  "resolveProviderEpisode E episodeID db =
     (case svc_GetProviderEpisodeID (reUuid E) (reCatalog E) episodeID ''hianime'' db of
        Inl e \<Rightarrow> Inl (status_Error NotFoundCode ''provider episode not found'')
      | Inr p \<Rightarrow> if p = [] then Inl (status_Error NotFoundCode ''provider episode not found'') else Inr p)"

definition selectServer :: "string \<Rightarrow> servers_reply \<Rightarrow> string" where
  "selectServer requested servers =
     (let requested = trim_space (to_lower requested)
      in if requested \<noteq> [] then requested
         else if svSub servers \<noteq> [] then hd (svSub servers)
         else if svDub servers \<noteq> [] then hd (svDub servers)
         else if svRaw servers \<noteq> [] then hd (svRaw servers) else [])"

text \<open>\<open>toResponse\<close> copies the cached record field by field; the response message is the same record.\<close>

definition cache_key :: "string \<Rightarrow> string \<Rightarrow> string \<Rightarrow> string" where
  "cache_key episodeID category server = ''playback:'' @ episodeID @ '':'' @ category @ '':'' @ server"

text \<open>The part after a miss: the provider's answers, without the cache.\<close>

definition fetch_playback :: "resolver_env \<Rightarrow> string \<Rightarrow> string \<Rightarrow> string \<Rightarrow> catalog_db \<Rightarrow> grpc_status + cached_playback" where
  "fetch_playback E episodeID category server db =
     (case resolveProviderEpisode E episodeID db of
        Inl e \<Rightarrow> Inl e
      | Inr p \<Rightarrow>
          (case reServers E p of
             Inl e \<Rightarrow> Inl (status_Error Unavailable (''provider servers: '' @ reErrText E e))
           | Inr servers \<Rightarrow>
               if svStatus servers \<noteq> 200 then Inl (status_Error Unavailable (''provider servers: status '' @ format_int (svStatus servers)))
               else
                 let server = selectServer server servers
                 in if server = [] then Inl (status_Error NotFoundCode ''server not found'')
                    else
                      (case reSources E p server category of
                         Inl e \<Rightarrow> Inl (status_Error Unavailable (''provider sources: '' @ reErrText E e))
                       | Inr so \<Rightarrow>
                           if soStatus so \<noteq> 200 then Inl (status_Error Unavailable (''provider sources: status '' @ format_int (soStatus so)))
                           else Inr (buildCachedPlayback (rePositive E) p so))))"

definition GetPlayback ::
  "resolver_env \<Rightarrow> string \<Rightarrow> string \<Rightarrow> string \<Rightarrow> catalog_db \<Rightarrow> redis_store \<Rightarrow> (grpc_status + cached_playback) \<times> redis_store" where
  "GetPlayback E req_episode req_category req_server db c =
     (let episodeID = trim_space req_episode
      in if episodeID = [] then (Inl (status_Error InvalidArgument ''episode_id required''), c)
         else
           let category = to_lower (trim_space req_category);
               category = (if category = [] then ''sub'' else category);
               server = trim_space req_server;
               server = (if server = [] then ''hd-1'' else server);
               key = cache_key episodeID category server
           in (case (if reHasCache E then cache_Get (reGetBad E) (reDecode E) (reNow E) key c else Some None) of
                 Some (Some cached) \<Rightarrow> (Inr cached, c)
               | _ \<Rightarrow>
                   (case fetch_playback E episodeID category server db of
                      Inl e \<Rightarrow> (Inl e, c)
                    | Inr out \<Rightarrow> (Inr out, if reHasCache E then cache_Set (reSetBad E) (reNow E) (reTTL E) key (reEncode E out) c else c))))"

section \<open>The endpoints\<close>

record sources_response =
  srSources :: "(string \<times> string \<times> bool) list"
  srTracks :: "(string \<times> string \<times> string \<times> string) list"
  srIntro :: "(i32 \<times> i32) option"
  srOutro :: "(i32 \<times> i32) option"
  srHeaders :: headers
  srProviderEpisodeID :: string

text \<open>\<open>Sources\<close> of services/streaming; \<open>call\<close> is the call of the resolver.\<close>

definition http_Sources ::
  "(i32 \<Rightarrow> bool) \<Rightarrow> (string \<Rightarrow> string \<Rightarrow> string \<Rightarrow> grpc_status + cached_playback) \<Rightarrow> string \<Rightarrow> string \<Rightarrow> string \<Rightarrow> sources_response response" where
  "http_Sources pos call param category server =
     (let episodeID = trim_space param
      in if episodeID = [] then BadRequest ''MISSING_ID'' ''anime_id is required'' [] None
         else
           (case call episodeID (trim_space category) (trim_space server) of
              Inl e \<Rightarrow> WriteError 502 ''RESOLVER_UNAVAILABLE'' ''streaming resolver unavailable'' [] None
            | Inr resp \<Rightarrow>
                let cut = (\<lambda>io. case io of Some (s, e) \<Rightarrow> if pos e then Some (s, e) else None | None \<Rightarrow> None)
                in WriteJSON 200
                     \<lparr>srSources = map (\<lambda>s. (psUrl s, psQuality s, psIsM3U8 s)) (cpSources resp),
                      srTracks = map (\<lambda>t. (ptKind t, ptFile t, ptLabel t, ptLanguage t)) (cpTracks resp),
                      srIntro = cut (cpIntro resp), srOutro = cut (cpOutro resp), srHeaders = cpHeaders resp,
                      srProviderEpisodeID = cpProviderEpisodeID resp\<rparr>))"

record watch_response =
  waPlayback :: cached_playback
  waSignedPlaybackURL :: string

record watch_env =
  weMac :: mac
  weUrl :: url_lib
  weJson :: "headers \<Rightarrow> string"
  weBase :: string
  weSecret :: string
  weNow :: time

text \<open>\<open>Watch\<close> of the gateway, for the user of the request context; an error of the call is a gRPC status.\<close>

definition Watch ::
  "watch_env \<Rightarrow> (string \<Rightarrow> string \<Rightarrow> string \<Rightarrow> grpc_status + cached_playback) \<Rightarrow> auth_ctx \<Rightarrow> string \<Rightarrow> string \<Rightarrow> string \<Rightarrow> string \<Rightarrow>
   watch_response response" where
  "Watch E call x rid param category server =
     (case ctxUserID x of
        None \<Rightarrow> Unauthorized ''AUTH_MISSING'' ''Missing auth'' rid
      | Some uid \<Rightarrow>
          if trim_space uid = [] then Unauthorized ''AUTH_MISSING'' ''Missing auth'' rid
          else
            (case call (trim_space param) (trim_space category) (trim_space server) of
               Inl st \<Rightarrow>
                 if stMessage st \<noteq> [] then WriteError 502 ''STREAMING_UNAVAILABLE'' (stMessage st) rid None
                 else writeGRPCError rid (Some st)
             | Inr resp \<Rightarrow>
                 (case cpSources resp of
                    [] \<Rightarrow> NotFound ''NO_SOURCES'' ''No playback sources'' rid
                  | s # _ \<Rightarrow>
                      (case BuildSignedURL (weUrl E) (weJson E) (weBase E @ ''/hls'')
                              (SignWithHeaders (weMac E) (weSecret E) (psUrl s) uid (weNow E + 15 * 60 * 1000000000) (cpHeaders resp)) of
                         None \<Rightarrow> Internal rid
                       | Some url \<Rightarrow> WriteJSON 200 \<lparr>waPlayback = resp, waSignedPlaybackURL = url\<rparr>))))"

section \<open>Retries and the cache\<close>

text \<open>At most the configured number of retries, with doubling delays, and the first success ends them.\<close>

lemma retries_delays: "retries get ended base a n = (r, ds) \<Longrightarrow> length ds \<le> n \<and> ds = map (\<lambda>i. base * 2 ^ (a + i)) [0..<length ds]"
proof (induction n arbitrary: a r ds)
  case (Suc n)
  show ?case
  proof (cases "\<exists>e. get a = Inl e \<and> \<not> ended (Suc a)")
    case True
    then obtain ds' where r: "retries get ended base (Suc a) n = (r, ds')" and d: "ds = base * 2 ^ a # ds'"
      using Suc.prems by (auto split: prod.splits)
    have "map (\<lambda>i. base * 2 ^ (a + i)) [0..<Suc (length ds')] = base * 2 ^ a # map (\<lambda>i. base * 2 ^ (Suc a + i)) [0..<length ds']"
      by (simp only: upt_conv_Cons [OF zero_less_Suc] list.map map_Suc_upt [symmetric] map_map) (simp add: comp_def)
    then show ?thesis using Suc.IH [OF r] d by simp
  next
    case False
    then show ?thesis using Suc.prems by (auto split: sum.splits if_splits)
  qed
qed simp

text \<open>
  Once an answer was stored, the same request gets the same answer until it expires, whatever the provider and the catalog have become.
\<close>

lemma playback_cached:
  assumes "GetPlayback E ep cat srv db c = (Inr out, c')" "reHasCache E" "\<not> reSetBad E" "0 < reTTL E" "reDecode E (reEncode E out) = Some out"
    and "cache_Get (reGetBad E) (reDecode E) (reNow E) k c = Some None" "k = cache_key (trim_space ep)
      (if to_lower (trim_space cat) = [] then ''sub'' else to_lower (trim_space cat)) (if trim_space srv = [] then ''hd-1'' else trim_space srv)"
    and "reHasCache E'" "\<not> reGetBad E'" "reDecode E' = reDecode E" "reNow E' < reNow E + reTTL E"
  shows "GetPlayback E' ep cat srv db' c' = (Inr out, c')"
proof -
  have ep: "trim_space ep \<noteq> []" using assms(1) by (auto simp: GetPlayback_def Let_def)
  have "c' = cache_Set (reSetBad E) (reNow E) (reTTL E) k (reEncode E out) c"
    using assms(1,2,6,7) ep by (auto simp: GetPlayback_def Let_def split: sum.splits)
  then have "cache_Get (reGetBad E') (reDecode E') (reNow E') k c' = Some (Some out)"
    using assms(3-5,9-11) by (simp add: cache_Get_def cache_Set_def)
  then show ?thesis using assms(7,8) ep by (simp add: GetPlayback_def Let_def)
qed

section \<open>Properties\<close>

text \<open>
  A link from the watch endpoint plays: when the gateway answers a request with a signed link, the resolver gave that playback, and
  the proxy, requested with the query of the link, contacts exactly the URL of the first source with the headers the provider asked for,
  until fifteen minutes after the answer, and contacts nobody later.
\<close>

theorem watch_link_plays:
  assumes "Watch E (\<lambda>e c s. fst (GetPlayback R e c s db redis)) x rid param cat srv = WriteJSON 200 w"
    and "ctxUserID x = Some uid" "trim_space uid = uid" "cpSources (waPlayback w) = s # ss" "trim_space (psUrl s) = psUrl s" "psUrl s \<noteq> []"
    and "ulParse (weUrl E) (weBase E @ ''/hls'') = Some u" "unRawQuery u = []" "e = unix (weNow E + 15 * 60 * 1000000000)" "in_int64 e"
    and "\<forall>m. weMac E (weSecret E) m \<noteq> []" "\<forall>h. peJson P (weJson E h) = Some h" "\<forall>h. weJson E h \<noteq> []"
    and "peMac P = weMac E" "peSecret P = weSecret E" "peRequestOk P (psUrl s)"
  shows "fst (GetPlayback R (trim_space param) (trim_space cat) (trim_space srv) db redis) = Inr (waPlayback w) \<and>
    (\<exists>q. waSignedPlaybackURL w = ulString (weUrl E) (u\<lparr>unRawQuery := q\<rparr>) \<and>
      (\<forall>r t. pqMethod r = ''GET'' \<and> pqQuery r = q \<longrightarrow>
         snd (hls_handler (P\<lparr>peNow := t\<rparr>) r) =
           (if unix t \<le> e
            then Some (psUrl s, if cpHeaders (waPlayback w) = [] then applyHiAnimeHeaders []
                   else fold (\<lambda>(k, v). header_set k v) (cpHeaders (waPlayback w)) [])
            else None)))"
proof -
  let ?t = "weNow E + 15 * 60 * 1000000000" and ?hs = "cpHeaders (waPlayback w)"
  let ?sg = "SignWithHeaders (weMac E) (weSecret E) (psUrl s) uid ?t ?hs"
  let ?q = "values_encode (signed_values (weJson E) ?sg (parse_query []))"
  have uid: "uid \<noteq> []" using assms(1,2,3) by (auto simp: Watch_def api_defs)
  obtain resp where g: "fst (GetPlayback R (trim_space param) (trim_space cat) (trim_space srv) db redis) = Inr resp"
    using assms(1-3) uid by (auto simp: Watch_def api_defs writeGRPCError_def Let_def split: sum.splits if_splits grpc_code.splits)
  have w: "waPlayback w = resp"
    using assms(1-3) uid g by (auto simp: Watch_def api_defs split: list.splits option.splits)
  then have "\<lparr>waPlayback = resp, waSignedPlaybackURL = ulString (weUrl E) (u\<lparr>unRawQuery := ?q\<rparr>)\<rparr> = w"
    using assms(1-4,7,8) uid g by (auto simp: Watch_def api_defs BuildSignedURL_def split: option.splits)
  from arg_cong [OF this, of waSignedPlaybackURL]
  have link: "waSignedPlaybackURL w = ulString (weUrl E) (u\<lparr>unRawQuery := ?q\<rparr>)" by simp
  have x: "ExtractSigned (parse_query ?q) = Inr (psUrl s, uid, e, signValue (weMac E) (weSecret E) (psUrl s) uid e)"
    unfolding assms(9) by (rule built_extract) (use assms(3,5,6,9-11) uid in simp_all)
  have h: "ExtractHeaders (peJson P) (parse_query ?q) = ?hs"
    by (rule built_headers) (use assms(12,13) in \<open>simp_all add: parse_query_def parse_pair_def values_get_def\<close>)
  have "snd (hls_handler (P\<lparr>peNow := t\<rparr>) r) =
      (if unix t \<le> e then Some (psUrl s, if ?hs = [] then applyHiAnimeHeaders [] else fold (\<lambda>(k, v). header_set k v) ?hs []) else None)"
    if "pqMethod r = ''GET''" "pqQuery r = ?q" for r t
    using that x h assms(14-16) by (simp add: hls_handler_def request_headers_def Verify_signValue Let_def split: option.split)
  with g w link show ?thesis by blast
qed

definition demo_watch :: watch_env where
  "demo_watch = \<lparr>weMac = demo_mac, weUrl = demo_lib, weJson = demo_enc, weBase = ''http://p'', weSecret = ''k'', weNow = 0\<rparr>"

definition demo_resolver :: resolver_env where
  "demo_resolver = \<lparr>reUuid = Some, reCatalog = calm 0 [], reServers = (\<lambda>_. Inr \<lparr>svStatus = 200, svSub = [], svDub = [], svRaw = []\<rparr>),
     reSources = (\<lambda>_ _ _. Inr \<lparr>soStatus = 200, soHeaders = [(''Referer'', ''r'')], soTracks = [], soIntro = (0, 0), soOutro = (0, 0),
        soSources = [(''http://a/b'', True, ''hls'')]\<rparr>),
     reErrText = (\<lambda>_. []), rePositive = (\<lambda>_. False), reHasCache = False, reTTL = 0, reNow = 0, reGetBad = False, reSetBad = False,
     reEncode = (\<lambda>_. []), reDecode = (\<lambda>_. None)\<rparr>"

definition demo_playback :: cached_playback where
  "demo_playback = \<lparr>cpSources = [\<lparr>psUrl = ''http://a/b'', psQuality = ''hls'', psIsM3U8 = True\<rparr>], cpTracks = [], cpIntro = None, cpOutro = None,
     cpHeaders = [(''Referer'', ''r'')], cpProviderEpisodeID = ''p1''\<rparr>"

lemma demo_trims: "trim_space ''e1'' = ''e1''" "trim_space ''hianime'' = ''hianime''" "trim_space ''u1'' = ''u1''" "trim_space ''http://a/b'' = ''http://a/b''"
  "trim_space (to_lower ''hd-1'') = ''hd-1''"
  by code_simp+

lemma demo_get:
  "fst (GetPlayback demo_resolver ''e1'' [] [] (empty_catalog\<lparr>cdExtEpisodes := [((''hianime'', ''p1''), ''e1'')]\<rparr>) Map.empty) = Inr demo_playback"
  by (simp add: GetPlayback_def demo_resolver_def fetch_playback_def resolveProviderEpisode_def svc_GetProviderEpisodeID_def GetProviderEpisodeID_def
    selectServer_def buildCachedPlayback_def demo_playback_def empty_catalog_def demo_trims(1,2) demo_trims(5) [simplified] Let_def)

theorem watch_link_plays_witness:
  "\<exists>w q. Watch demo_watch (\<lambda>e c s. fst (GetPlayback demo_resolver e c s (empty_catalog\<lparr>cdExtEpisodes := [((''hianime'', ''p1''), ''e1'')]\<rparr>) Map.empty))
       (empty_ctx\<lparr>ctxUserID := Some ''u1''\<rparr>) [] ''e1'' [] [] = WriteJSON 200 w \<and>
     waSignedPlaybackURL w = ulString demo_lib \<lparr>unPath = ''/hls'', unRawQuery = q, unRest = []\<rparr> \<and>
     snd (hls_handler (demo_proxy\<lparr>peJson := demo_dec, peNow := 0\<rparr>) (demo_hls_request\<lparr>pqQuery := q\<rparr>)) = Some (''http://a/b'', [(''Referer'', ''r'')])"
proof -
  let ?call = "\<lambda>e c s. fst (GetPlayback demo_resolver e c s (empty_catalog\<lparr>cdExtEpisodes := [((''hianime'', ''p1''), ''e1'')]\<rparr>) Map.empty)"
  let ?P = "demo_proxy\<lparr>peJson := demo_dec\<rparr>" and ?u = "\<lparr>unPath = ''/hls'', unRawQuery = [], unRest = []\<rparr> :: net_url"
  have "\<exists>url. Watch demo_watch ?call (empty_ctx\<lparr>ctxUserID := Some ''u1''\<rparr>) [] ''e1'' [] [] = WriteJSON 200 \<lparr>waPlayback = demo_playback, waSignedPlaybackURL = url\<rparr>"
    using demo_get by (simp add: Watch_def demo_trims empty_ctx_def BuildSignedURL_def demo_watch_def demo_lib_def demo_playback_def api_defs)
  then obtain url where w: "Watch demo_watch ?call (empty_ctx\<lparr>ctxUserID := Some ''u1''\<rparr>) [] ''e1'' [] [] =
      WriteJSON 200 \<lparr>waPlayback = demo_playback, waSignedPlaybackURL = url\<rparr>" by (elim exE) (rule that)
  have u: "ulParse (weUrl demo_watch) (weBase demo_watch @ ''/hls'') = Some ?u" by (simp add: demo_watch_def demo_lib_def)
  have n: "demo_enc h \<noteq> []" for h by (cases h) auto
  have hs: "fold (\<lambda>(k, v). header_set k v) [(''Referer'', ''r'')] [] = [(''Referer'', ''r'')]" by code_simp
  let ?w = "\<lparr>waPlayback = demo_playback, waSignedPlaybackURL = url\<rparr>" and ?s = "\<lparr>psUrl = ''http://a/b'', psQuality = ''hls'', psIsM3U8 = True\<rparr>"
  have "\<exists>q. waSignedPlaybackURL ?w = ulString (weUrl demo_watch) (?u\<lparr>unRawQuery := q\<rparr>) \<and>
      (\<forall>r t. pqMethod r = ''GET'' \<and> pqQuery r = q \<longrightarrow> snd (hls_handler (?P\<lparr>peNow := t\<rparr>) r) =
         (if unix t \<le> 900 then Some (psUrl ?s, if cpHeaders (waPlayback ?w) = [] then applyHiAnimeHeaders []
            else fold (\<lambda>(k, v). header_set k v) (cpHeaders (waPlayback ?w)) []) else None))"
    by (rule watch_link_plays [OF w, of "''u1''" ?s "[]" ?u 900 ?P, THEN conjunct2])
      (simp_all add: u n empty_ctx_def demo_trims demo_playback_def demo_json, simp_all add: demo_watch_def demo_proxy_def unix_def in_int64_def demo_mac_def demo_json n)
  then obtain q where q: "url = ulString demo_lib \<lparr>unPath = ''/hls'', unRawQuery = q, unRest = []\<rparr>"
    "snd (hls_handler (?P\<lparr>peNow := 0\<rparr>) (demo_hls_request\<lparr>pqQuery := q\<rparr>)) = Some (''http://a/b'', fold (\<lambda>(k, v). header_set k v) [(''Referer'', ''r'')] [])"
    by (auto simp: demo_watch_def demo_hls_request_def unix_def demo_playback_def)
  from q(2) have "snd (hls_handler (?P\<lparr>peNow := 0\<rparr>) (demo_hls_request\<lparr>pqQuery := q\<rparr>)) = Some (''http://a/b'', [(''Referer'', ''r'')])" unfolding hs .
  with w q(1) show ?thesis by (intro exI [of _ ?w] exI [of _ q]) simp
qed

end
