(* ===== verification/Bff_Auth.thy ===== *)
theory Bff_Auth
  imports Auth_Rotation
begin

text \<open>
  The gateway's account endpoints (services/bff/internal/handlers: auth.go, me.go) over the auth service. \<open>wire\<close> is what the gRPC transport makes
  of the outgoing metadata, \<open>fmt\<close> Go's RFC 3339 formatting; a decoded request body is \<open>None\<close> when it is no JSON. The analytics events of
  registration and login are not part of the model.
\<close>

section \<open>Endpoints\<close>

record user_response =
  uvID :: string
  uvEmail :: string
  uvUsername :: string
  uvCreatedAt :: string

record auth_view =
  avUser :: user_response
  avAccessToken :: string
  avRefreshToken :: string
  avExpiresIn :: int

definition toAuthResponse :: "(time \<Rightarrow> string) \<Rightarrow> user option \<Rightarrow> string \<Rightarrow> string \<Rightarrow> int \<Rightarrow> auth_view" where
  "toAuthResponse fmt u access refresh expires =
     \<lparr>avUser = (case u of
          None \<Rightarrow> \<lparr>uvID = [], uvEmail = [], uvUsername = [], uvCreatedAt = []\<rparr>
        | Some u \<Rightarrow> \<lparr>uvID = uID u, uvEmail = uEmail u, uvUsername = uUsername u, uvCreatedAt = fmt (uCreatedAt u)\<rparr>),
      avAccessToken = access, avRefreshToken = refresh, avExpiresIn = expires\<rparr>"

text \<open>The headers of a request that are forwarded.\<close>

record forwarded_headers =
  hAuthorization :: string
  hUserAgent :: string

definition md_set :: "string \<Rightarrow> string \<Rightarrow> md \<Rightarrow> md" where
  "md_set k v m = m(k := [v])"

definition withForwardedMD :: "forwarded_headers \<Rightarrow> md" where
  "withForwardedMD h =
     (let m = (\<lambda>_. []);
          authz = trim_space (hAuthorization h);
          m = (if authz \<noteq> [] then md_set ''authorization'' authz m else m);
          ua = trim_space (hUserAgent h)
      in if ua \<noteq> [] then md_set ''user-agent'' ua m else m)"

definition auth_reply :: "(time \<Rightarrow> string) \<Rightarrow> nat \<Rightarrow> string \<Rightarrow> (grpc_status + auth_response) \<times> auth_db \<Rightarrow> auth_view response \<times> auth_db" where
  "auth_reply fmt status rid r =
     (case r of
        (Inl e, db) \<Rightarrow> (writeGRPCError rid (Some e), db)
      | (Inr a, db) \<Rightarrow> (WriteJSON status (toAuthResponse fmt (Some (arUser a)) (arAccessToken a) (arRefreshToken a) (arExpiresIn a)), db))"

text \<open>The environment of a request: the service's own, the transport, the formatting, the forwarded headers and the request id.\<close>

record gate_env =
  geXs :: "nat \<Rightarrow> ctx"
  geBytes :: "string option"
  geWire :: "md \<Rightarrow> md"
  geFmt :: "time \<Rightarrow> string"
  geHeaders :: forwarded_headers
  geRid :: string

definition bff_Register ::
  "crypto \<Rightarrow> auth_config \<Rightarrow> gate_env \<Rightarrow> (string \<times> string \<times> string) option \<Rightarrow> auth_db \<Rightarrow> auth_view response \<times> auth_db" where
  "bff_Register cr cfg E body db =
     (case body of
        None \<Rightarrow> (BadRequest ''INVALID_JSON'' ''Invalid JSON'' (geRid E) None, db)
      | Some (email, username, password) \<Rightarrow>
          auth_reply (geFmt E) 201 (geRid E)
            (Register cr cfg (geXs E) (geBytes E) (geWire E (withForwardedMD (geHeaders E))) (trim_space email) (trim_space username) password db))"

definition bff_Login :: "crypto \<Rightarrow> auth_config \<Rightarrow> gate_env \<Rightarrow> (string \<times> string) option \<Rightarrow> auth_db \<Rightarrow> auth_view response \<times> auth_db" where
  "bff_Login cr cfg E body db =
     (case body of
        None \<Rightarrow> (BadRequest ''INVALID_JSON'' ''Invalid JSON'' (geRid E) None, db)
      | Some (login, password) \<Rightarrow>
          auth_reply (geFmt E) 200 (geRid E)
            (Login cr cfg (geXs E) (geBytes E) (geWire E (withForwardedMD (geHeaders E))) (trim_space login) password db))"

definition bff_Refresh :: "crypto \<Rightarrow> auth_config \<Rightarrow> gate_env \<Rightarrow> string option \<Rightarrow> auth_db \<Rightarrow> auth_view response \<times> auth_db" where
  "bff_Refresh cr cfg E body db =
     (case body of
        None \<Rightarrow> (BadRequest ''INVALID_JSON'' ''Invalid JSON'' (geRid E) None, db)
      | Some token \<Rightarrow>
          auth_reply (geFmt E) 200 (geRid E)
            (Refresh cr cfg (geXs E) (geBytes E) (geWire E (withForwardedMD (geHeaders E))) (trim_space token) db))"

definition bff_Logout :: "crypto \<Rightarrow> gate_env \<Rightarrow> string option \<Rightarrow> auth_db \<Rightarrow> unit response \<times> auth_db" where
  "bff_Logout cr E body db =
     (case body of
        None \<Rightarrow> (BadRequest ''INVALID_JSON'' ''Invalid JSON'' (geRid E) None, db)
      | Some token \<Rightarrow>
          (case Logout cr (geXs E) (trim_space token) db of
             (Inl e, db) \<Rightarrow> (writeGRPCError (geRid E) (Some e), db)
           | (Inr _, db) \<Rightarrow> (WriteHeader 204, db)))"

text \<open>The profile: the token's user, and what the auth service knows of it.\<close>

record me_view =
  mvUserID :: string
  mvEmail :: "string option"
  mvUsername :: "string option"

definition unless_empty :: "string \<Rightarrow> string option" where
  "unless_empty s = (if s \<noteq> [] then Some s else None)"

definition bff_Me :: "crypto \<Rightarrow> auth_config \<Rightarrow> ctx \<Rightarrow> (md \<Rightarrow> md) \<Rightarrow> string \<Rightarrow> auth_db \<Rightarrow> auth_ctx \<Rightarrow> me_view response" where
  "bff_Me cr cfg x wire authz db c =
     (let uid = (case ctxUserID c of None \<Rightarrow> [] | Some u \<Rightarrow> u);
          resp = \<lparr>mvUserID = uid, mvEmail = None, mvUsername = None\<rparr>
      in WriteJSON 200
           (if authz \<noteq> [] then
              (case Me cr cfg x (wire (md_set ''authorization'' authz (\<lambda>_. []))) db of
                 Inl e \<Rightarrow> resp
               | Inr me \<Rightarrow> resp\<lparr>mvEmail := unless_empty (meEmail me), mvUsername := unless_empty (meUsername me)\<rparr>)
            else resp))"

section \<open>Users are kept\<close>

abbreviation user_by :: "string \<Rightarrow> auth_db \<Rightarrow> user_row option" where
  "user_by i db \<equiv> row_by (\<lambda>r. uID (urUser r)) i (dbUsers db)"

text \<open>What never changes of an account once it is there.\<close>

definition identity :: "user \<Rightarrow> string \<times> string \<times> string" where
  "identity u = (uID u, uEmail u, uUsername u)"

definition known :: "string \<times> string \<times> string \<Rightarrow> auth_db \<Rightarrow> bool" where
  "known k db \<longleftrightarrow> (\<exists>r. user_by (fst k) db = Some r \<and> identity (urUser r) = k)"

lemma known_sessions [simp]: "known k (db\<lparr>dbSessions := ss\<rparr>) = known k db"
  by (simp add: known_def)

lemma known_role:
  assumes "known k db"
  shows "known k (db\<lparr>dbUsers := fst (sql_update P (\<lambda>r. r\<lparr>urUser := (urUser r)\<lparr>uRole := role\<rparr>\<rparr>) (dbUsers db))\<rparr>)"
proof -
  let ?f = "\<lambda>r. if P r then r\<lparr>urUser := (urUser r)\<lparr>uRole := role\<rparr>\<rparr> else r"
  from assms obtain r where r: "user_by (fst k) db = Some r" "identity (urUser r) = k" by (auto simp: known_def)
  have "row_by (\<lambda>r. uID (urUser r)) (fst k) (map ?f (dbUsers db)) = Some (?f r)"
    using r(1) by (subst row_by_map) simp_all
  moreover have "identity (urUser (?f r)) = k" using r(2) by (simp add: identity_def)
  ultimately show ?thesis unfolding known_def sql_update_def fst_conv by (intro exI [of _ "?f r"] conjI) simp_all
qed

lemma known_append: "known k db \<Longrightarrow> known k (db\<lparr>dbUsers := dbUsers db @ rs\<rparr>)"
  by (auto simp: known_def row_by_append)

lemma known_set_role: "known k db \<Longrightarrow> known k (snd (SetUserRoleByID x i role db))"
  by (simp add: SetUserRoleByID_def known_role)

lemma known_promote: "known k db \<Longrightarrow> known k (snd (PromoteAdmin lower x tm u db))"
  by (simp add: PromoteAdmin_def known_role Let_def)

lemma known_create_user: "known k db \<Longrightarrow> known k (snd (CreateUser lower x e u h db))"
  by (simp add: CreateUser_def known_append Let_def)

lemma known_session_ops [simp]:
  "known k (snd (CreateRefreshSession x p db)) = known k db"
  "known k (snd (RevokeRefreshSession x i t db)) = known k db"
  "known k (snd (ReplaceRefreshSession x i j t db)) = known k db"
  by (simp_all add: CreateRefreshSession_def RevokeRefreshSession_def ReplaceRefreshSession_def)

lemma known_issue [simp]: "known k (snd (issueTokens cr cfg x later bytes u ip ua db)) = known k db"
proof -
  have "known k db' = known k db" if "CreateRefreshSession x p db = (r, db')" for p r db'
    using known_session_ops(1) [of k x p db] that by simp
  then show ?thesis by (auto simp: issueTokens_def Let_def split: option.splits prod.splits sum.splits)
qed

lemma known_register: "known k db \<Longrightarrow> known k (snd (Register cr cfg xs bytes m e u p db))"
proof (cases "bcryptHash cr p")
  case (Some h)
  assume k: "known k db"
  let ?c = "CreateUser (sqlLower cr) (xs 0) (trim_space e) (trim_space u) h db"
  have 1: "known k (snd ?c)" using k by (rule known_create_user)
  have 2: "known k db3 = known k db2" if "issueTokens cr cfg x later bytes v ip ua db2 = (r, db3)" for x later v ip ua db2 r db3
    using known_issue [of k cr cfg x later bytes v ip ua db2] that by simp
  show ?thesis using 1 k Some
    by (auto simp: Register_def Let_def simp: known_set_role dest!: 2 split: prod.splits sum.splits auth_error.splits option.splits)
qed (simp add: Register_def Let_def)

lemma known_login [simp]: "known k (snd (Login cr cfg xs bytes m l p db)) = known k db"
proof -
  have "known k db' = known k db" if "issueTokens cr cfg x later bytes v ip ua db = (r, db')" for x later v ip ua r db'
    using known_issue [of k cr cfg x later bytes v ip ua db] that by simp
  then show ?thesis by (auto simp: Login_def Let_def split: prod.splits sum.splits option.splits)
qed

lemma known_refresh [simp]: "known k (snd (Refresh cr cfg xs bytes m t db)) = known k db"
proof -
  have 1: "known k db' = known k db" if "ReplaceRefreshSession x i j t db = (r, db')" for x i j t r db db'
    using known_session_ops(3) [of k x i j t db] that by simp
  have 2: "known k db' = known k db" if "CreateRefreshSession x p db = (r, db')" for x p r db db'
    using known_session_ops(1) [of k x p db] that by simp
  show ?thesis by (auto simp: Refresh_def refresh_write_def Let_def dest: 1 2 split: prod.splits sum.splits)
qed

lemma known_logout [simp]: "known k (snd (Logout cr xs t db)) = known k db"
  by (simp add: Logout_def Let_def split: sum.splits)

lemma known_exec: "known k db \<Longrightarrow> known k (exec_auths cr cfg ops db)"
proof (induction ops arbitrary: db)
  case (Cons op ops)
  then show ?case by (cases op) (simp_all add: known_register known_promote)
qed simp

section \<open>Signing in\<close>

datatype sign_in = SignRegister string string string | SignLogin string string | SignRefresh string

fun gateway_sign_in :: "crypto \<Rightarrow> auth_config \<Rightarrow> gate_env \<Rightarrow> sign_in \<Rightarrow> auth_db \<Rightarrow> auth_view response \<times> auth_db" where
  "gateway_sign_in cr cfg E (SignRegister e u p) db = bff_Register cr cfg E (Some (e, u, p)) db"
| "gateway_sign_in cr cfg E (SignLogin l p) db = bff_Login cr cfg E (Some (l, p)) db"
| "gateway_sign_in cr cfg E (SignRefresh t) db = bff_Refresh cr cfg E (Some t) db"

fun issued_at :: "gate_env \<Rightarrow> sign_in \<Rightarrow> time" where
  "issued_at E (SignRefresh t) = now (geXs E 1)"
| "issued_at E op = now (geXs E 2)"

text \<open>Identifier text as the database writes it, and the constraints of the tables.\<close>

definition canonical :: "crypto \<Rightarrow> string \<Rightarrow> bool" where
  "canonical cr i \<longleftrightarrow> sqlUuid cr i = Some i \<and> uuidParse cr i = Some i \<and> trim_space i \<noteq> []"

definition accounts_inv :: "crypto \<Rightarrow> auth_db \<Rightarrow> bool" where
  "accounts_inv cr db \<longleftrightarrow>
     distinct (map (\<lambda>r. uID (urUser r)) (dbUsers db)) \<and> (\<forall>r \<in> set (dbUsers db). canonical cr (uID (urUser r))) \<and>
     (\<forall>s \<in> set (dbSessions db). rsUserID s \<in> (\<lambda>r. uID (urUser r)) ` set (dbUsers db))"

text \<open>
  The JWT library at time \<open>t\<close>: a token that was signed with a secret is text without white space, and until its expiry, which it carries in
  whole seconds, it parses under that secret for HS256 to the subject and role it was signed for.
\<close>

definition jwt_law :: "crypto \<Rightarrow> jwt_lib \<Rightarrow> string \<Rightarrow> time \<Rightarrow> bool" where
  "jwt_law cr lib secret t \<longleftrightarrow>
     (\<forall>c tok. jwtSign cr secret c = Some tok \<longrightarrow>
        tok \<noteq> [] \<and> (\<forall>ch \<in> set tok. plain_char ch) \<and>
        (t < acExpiresAt c div 1000000000 * 1000000000 \<longrightarrow>
          (\<forall>key. key ''HS256'' = Some secret \<longrightarrow>
             (\<exists>c'. jwtParse cr key tok = Some (c', True) \<and> acSubject c' = acSubject c \<and> acRole c' = acRole c) \<and>
             lib key tok = Some (\<lparr>clSubject = acSubject c, clRole = acRole c\<rparr>, True))))"

definition token_claims :: "auth_config \<Rightarrow> string \<Rightarrow> string \<Rightarrow> time \<Rightarrow> access_claims" where
  "token_claims cfg i role t = \<lparr>acSubject = i, acIssuedAt = t, acExpiresAt = t + cfgAccessTTL cfg, acRole = role\<rparr>"

lemma new_access_signed:
  "NewAccessToken cr cfg i role t clock = Some (tok, e) \<Longrightarrow> t \<noteq> zero_time \<Longrightarrow> jwtSign cr (cfgSecret cfg) (token_claims cfg i role t) = Some tok"
  by (auto simp: NewAccessToken_def token_claims_def Let_def split: if_splits option.splits)

lemma issue_signed:
  assumes "issueTokens cr cfg x later bytes u ip ua db = (Some a, db')" "now x \<noteq> zero_time"
  shows "arUser a = u" "jwtSign cr (cfgSecret cfg) (token_claims cfg (uID u) (uRole u) (now x)) = Some (arAccessToken a)"
  using assms by (auto simp: issueTokens_def Let_def intro: new_access_signed split: option.splits prod.splits sum.splits)

lemma user_by_known: "user_by (uID u) db = Some r \<Longrightarrow> identity (urUser r) = identity u \<Longrightarrow> known (identity u) db"
  by (simp add: known_def identity_def)

text \<open>What a successful sign-in at the auth service gives.\<close>

lemma created_known:
  assumes "CreateUser lower x e u h db = (Inr v, db1)"
  shows "uID v = fresh x" "known (identity v) db1"
proof -
  have d: "v = \<lparr>uID = fresh x, uEmail = e, uUsername = u, uRole = ''user'', uCreatedAt = now x\<rparr>"
      "db1 = db\<lparr>dbUsers := dbUsers db @ [\<lparr>urUser = v, urPasswordHash = h\<rparr>]\<rparr>" "fresh x \<notin> (\<lambda>r. uID (urUser r)) ` set (dbUsers db)"
    using assms by (auto simp: CreateUser_def Let_def split: if_splits)
  show "uID v = fresh x" by (simp add: d(1))
  have "user_by (fresh x) db = None" using d(3) by (simp only: row_by_None not_False_eq_True)
  then have "user_by (uID v) db1 = Some \<lparr>urUser = v, urPasswordHash = h\<rparr>" by (simp add: d(2) row_by_append) (simp add: d(1))
  then show "known (identity v) db1" by (rule user_by_known) simp
qed

lemma register_steps:
  assumes "Register cr cfg xs bytes m e u p db = (Inr a, db')"
  obtains h v db1 v' db2 where "CreateUser (sqlLower cr) (xs 0) (trim_space e) (trim_space u) h db = (Inr v, db1)"
    "identity v' = identity v" "db2 = db1 \<or> (\<exists>i. db2 = snd (SetUserRoleByID (xs 1) i ''admin'' db1))"
    "issueTokens cr cfg (xs 2) (now (xs 3)) bytes v' (clientIPFromMD cr m) (userAgentFromMD m) db2 = (Some a, db')"
proof -
  from assms obtain h v db1 where c: "CreateUser (sqlLower cr) (xs 0) (trim_space e) (trim_space u) h db = (Inr v, db1)" "bcryptHash cr p = Some h"
    by (auto simp: Register_def Let_def split: if_splits option.splits prod.splits sum.splits auth_error.splits)
  define step where "step = (if equal_fold (trim_space (cfgBootstrapAdmin cfg)) (uUsername v) \<and> cfgBootstrapAdmin cfg \<noteq> []
      then (case uuidParse cr (uID v) of None \<Rightarrow> (v, db1) | Some i \<Rightarrow> (v\<lparr>uRole := ''admin''\<rparr>, snd (SetUserRoleByID (xs 1) i ''admin'' db1))) else (v, db1))"
  have "identity (fst step) = identity v" "snd step = db1 \<or> (\<exists>i. snd step = snd (SetUserRoleByID (xs 1) i ''admin'' db1))"
    by (auto simp: step_def identity_def split: option.splits)
  moreover have "issueTokens cr cfg (xs 2) (now (xs 3)) bytes (fst step) (clientIPFromMD cr m) (userAgentFromMD m) (snd step) = (Some a, db')"
  proof -
    have valid: "isValidEmail (trim_space e)" "isValidUsername (trim_space u)" "\<not> length p < 8"
      using assms by (auto simp: Register_def Let_def split: if_splits)
    then have "(case step of (u, db2) \<Rightarrow>
        (case issueTokens cr cfg (xs 2) (now (xs 3)) bytes u (clientIPFromMD cr m) (userAgentFromMD m) db2 of
           (None, db3) \<Rightarrow> (Inl (errInternal ''INTERNAL'' ''Internal error''), db3) | (Some resp, db3) \<Rightarrow> (Inr resp, db3))) = (Inr a, db')"
      using assms c unfolding step_def Register_def by (simp only: Let_def if_False if_True not_True_eq_False prod.case sum.case option.case)
    then show ?thesis by (auto split: prod.splits option.splits)
  qed
  ultimately show ?thesis by (rule that [OF c(1)])
qed

lemma register_signed:
  assumes "Register cr cfg xs bytes m e u p db = (Inr a, db')" "now (xs 2) \<noteq> zero_time"
  shows "\<exists>role. jwtSign cr (cfgSecret cfg) (token_claims cfg (uID (arUser a)) role (now (xs 2))) = Some (arAccessToken a)"
    and "known (identity (arUser a)) db'" and "uID (arUser a) = fresh (xs 0)"
proof -
  obtain h v db1 v' db2 where s: "CreateUser (sqlLower cr) (xs 0) (trim_space e) (trim_space u) h db = (Inr v, db1)"
    "identity v' = identity v" "db2 = db1 \<or> (\<exists>i. db2 = snd (SetUserRoleByID (xs 1) i ''admin'' db1))"
    "issueTokens cr cfg (xs 2) (now (xs 3)) bytes v' (clientIPFromMD cr m) (userAgentFromMD m) db2 = (Some a, db')"
    using assms(1) by (rule register_steps)
  have a: "arUser a = v'" using issue_signed(1) [OF s(4) assms(2)] .
  show "\<exists>role. jwtSign cr (cfgSecret cfg) (token_claims cfg (uID (arUser a)) role (now (xs 2))) = Some (arAccessToken a)"
    using issue_signed(2) [OF s(4) assms(2)] a by auto
  have "known (identity v) db2" using s(3) created_known(2) [OF s(1)] by (elim disjE exE) (simp_all add: known_set_role)
  then show "known (identity (arUser a)) db'" using known_issue [of "identity v" cr cfg "xs 2" "now (xs 3)" bytes v'] s(2,4) a by (metis snd_conv)
  show "uID (arUser a) = fresh (xs 0)" using created_known(1) [OF s(1)] s(2) a by (simp add: identity_def)
qed

lemma login_signed:
  assumes "Login cr cfg xs bytes m l p db = (Inr a, db')" "now (xs 2) \<noteq> zero_time" "accounts_inv cr db"
  shows "\<exists>role. jwtSign cr (cfgSecret cfg) (token_claims cfg (uID (arUser a)) role (now (xs 2))) = Some (arAccessToken a)"
    and "known (identity (arUser a)) db'" and "canonical cr (uID (arUser a))"
proof -
  from assms(1) obtain r where r: "FindUserByLogin (sqlLower cr) (xs 0) (trim_space l) db = Inr r"
    "issueTokens cr cfg (xs 2) (now (xs 3)) bytes (urUser r) (clientIPFromMD cr m) (userAgentFromMD m) db = (Some a, db')"
    by (auto simp: Login_def Let_def split: if_splits option.splits prod.splits sum.splits)
  have mem: "r \<in> set (dbUsers db)" using r(1) by (auto simp: FindUserByLogin_def Let_def find_Some_iff split: if_splits option.splits)
  have a: "arUser a = urUser r" using issue_signed(1) [OF r(2) assms(2)] .
  show "\<exists>role. jwtSign cr (cfgSecret cfg) (token_claims cfg (uID (arUser a)) role (now (xs 2))) = Some (arAccessToken a)"
    using issue_signed(2) [OF r(2) assms(2)] a by auto
  have "user_by (uID (urUser r)) db = Some r" using row_by_mem [of "\<lambda>r. uID (urUser r)" "dbUsers db" r] mem assms(3) by (simp add: accounts_inv_def)
  then have "known (identity (urUser r)) db" by (rule user_by_known) simp
  then show "known (identity (arUser a)) db'" using known_issue [of _ cr cfg "xs 2" "now (xs 3)" bytes "urUser r"] r(2) a by (metis snd_conv)
  show "canonical cr (uID (arUser a))" using assms(3) mem a by (simp add: accounts_inv_def)
qed

lemma refresh_signed:
  assumes "Refresh cr cfg xs bytes m t db = (Inr a, db')" "now (xs 1) \<noteq> zero_time" "accounts_inv cr db"
  shows "\<exists>role. jwtSign cr (cfgSecret cfg) (token_claims cfg (uID (arUser a)) role (now (xs 1))) = Some (arAccessToken a)"
    and "known (identity (arUser a)) db'" and "canonical cr (uID (arUser a))"
proof -
  from assms(1) obtain q where q: "refresh_check cr cfg xs bytes t db = Inr q" "refresh_write cr cfg xs m q db = (Inr a, db')"
    by (auto simp: Refresh_def split: sum.splits)
  have a: "arUser a = rpUser q" "arAccessToken a = rpAccess q"
    using q(2) by (auto simp: refresh_write_def split: sum.splits prod.splits)
  have c: "GetRefreshSessionByHash (xs 0) (sha256Hex cr (trim_space t)) db = Inr (rpSession q)" "GetUserByID (sqlUuid cr) (xs 2) (rsUserID (rpSession q)) db = Inr (rpUser q)"
    "\<exists>e. NewAccessToken cr cfg (rsUserID (rpSession q)) (uRole (rpUser q)) (now (xs 1)) (now (xs 2)) = Some (rpAccess q, e)"
    using q(1) by (auto simp: refresh_check_def Let_def split: if_splits option.splits prod.splits sum.splits)
  have "rpSession q \<in> set (dbSessions db)" using c(1) row_by_Some by (fastforce simp: GetRefreshSessionByHash_def split: if_splits option.splits)
  then have fk: "rsUserID (rpSession q) \<in> (\<lambda>r. uID (urUser r)) ` set (dbUsers db)" using assms(3) by (simp add: accounts_inv_def)
  then have can: "canonical cr (rsUserID (rpSession q))" using assms(3) by (auto simp: accounts_inv_def)
  then obtain r where r: "user_by (rsUserID (rpSession q)) db = Some r" "rpUser q = urUser r"
    using c(2) by (auto simp: GetUserByID_def canonical_def split: if_splits option.splits)
  then have i: "uID (rpUser q) = rsUserID (rpSession q)" using row_by_Some by fastforce
  show "\<exists>role. jwtSign cr (cfgSecret cfg) (token_claims cfg (uID (arUser a)) role (now (xs 1))) = Some (arAccessToken a)"
  proof -
    from c(3) obtain e where "NewAccessToken cr cfg (rsUserID (rpSession q)) (uRole (rpUser q)) (now (xs 1)) (now (xs 2)) = Some (rpAccess q, e)" by blast
    from new_access_signed [OF this assms(2)] show ?thesis unfolding a i by blast
  qed
  have "known (identity (rpUser q)) db" using r i by (intro user_by_known) auto
  then show "known (identity (arUser a)) db'" using known_refresh [of _ cr cfg xs bytes m t db] assms(1) a by (metis snd_conv)
  show "canonical cr (uID (arUser a))" using can by (simp add: a i)
qed

lemma auth_reply_ok:
  assumes "auth_reply fmt st rid R = (WriteJSON st' v, db')"
  obtains a where "R = (Inr a, db')" "v = toAuthResponse fmt (Some (arUser a)) (arAccessToken a) (arRefreshToken a) (arExpiresIn a)"
proof -
  have "writeGRPCError rid e \<noteq> (WriteJSON st' v :: auth_view response)" for e
    by (auto simp: writeGRPCError_def WriteJSON_def api_defs Let_def split: option.splits grpc_code.splits)
  then show ?thesis using assms that by (auto simp: auth_reply_def WriteJSON_def split: prod.splits sum.splits)
qed

lemma sign_in_signed:
  assumes "gateway_sign_in cr cfg E op db = (WriteJSON st v, db')" "issued_at E op \<noteq> zero_time" "accounts_inv cr db" "canonical cr (fresh (geXs E 0))"
  obtains u role where "jwtSign cr (cfgSecret cfg) (token_claims cfg (uID u) role (issued_at E op)) = Some (avAccessToken v)"
    "known (identity u) db'" "canonical cr (uID u)" "identity u = (uvID (avUser v), uvEmail (avUser v), uvUsername (avUser v))"
proof -
  obtain a :: auth_response where a: "\<exists>role. jwtSign cr (cfgSecret cfg) (token_claims cfg (uID (arUser a)) role (issued_at E op)) = Some (arAccessToken a)"
      "known (identity (arUser a)) db'" "canonical cr (uID (arUser a))"
      and v: "v = toAuthResponse (geFmt E) (Some (arUser a)) (arAccessToken a) (arRefreshToken a) (arExpiresIn a)"
  proof (cases op)
    case (SignRegister e u p)
    then obtain a where "Register cr cfg (geXs E) (geBytes E) (geWire E (withForwardedMD (geHeaders E))) (trim_space e) (trim_space u) p db = (Inr a, db')"
        and v: "v = toAuthResponse (geFmt E) (Some (arUser a)) (arAccessToken a) (arRefreshToken a) (arExpiresIn a)"
      using assms(1) by (auto simp: bff_Register_def elim!: auth_reply_ok)
    note s = register_signed [OF this(1)]
    show ?thesis using s assms(2,4) SignRegister by (intro that [OF _ _ _ v]) simp_all
  next
    case (SignLogin l p)
    then obtain a where "Login cr cfg (geXs E) (geBytes E) (geWire E (withForwardedMD (geHeaders E))) (trim_space l) p db = (Inr a, db')"
        and v: "v = toAuthResponse (geFmt E) (Some (arUser a)) (arAccessToken a) (arRefreshToken a) (arExpiresIn a)"
      using assms(1) by (auto simp: bff_Login_def elim!: auth_reply_ok)
    note s = login_signed [OF this(1) _ assms(3)]
    show ?thesis using s assms(2) SignLogin by (intro that [OF _ _ _ v]) simp_all
  next
    case (SignRefresh t)
    then obtain a where "Refresh cr cfg (geXs E) (geBytes E) (geWire E (withForwardedMD (geHeaders E))) (trim_space t) db = (Inr a, db')"
        and v: "v = toAuthResponse (geFmt E) (Some (arUser a)) (arAccessToken a) (arRefreshToken a) (arExpiresIn a)"
      using assms(1) by (auto simp: bff_Refresh_def elim!: auth_reply_ok)
    note s = refresh_signed [OF this(1) _ assms(3)]
    show ?thesis using s assms(2) SignRefresh by (intro that [OF _ _ _ v]) simp_all
  qed
  from a(1) obtain role where "jwtSign cr (cfgSecret cfg) (token_claims cfg (uID (arUser a)) role (issued_at E op)) = Some (arAccessToken a)" by blast
  then show ?thesis using a(2,3) by (intro that [of "arUser a" role]) (simp_all add: v toAuthResponse_def identity_def)
qed

lemma bearer_split:
  assumes "tok \<noteq> []" "\<forall>ch \<in> set tok. plain_char ch"
  shows "trim_space (''Bearer '' @ tok) = ''Bearer '' @ tok" "split_n 2 CHR '' '' (''Bearer '' @ tok) = [''Bearer'', tok]" "trim_space tok = tok"
    "to_lower ''Bearer'' = ''bearer''"
proof -
  have "trim_space (''Bearer '' @ tok) = ''Bearer '' @ tok" using assms by (intro trim_space_plain) (auto simp: last_append plain_ascii)
  then show "trim_space (''Bearer '' @ tok) = ''Bearer '' @ tok" .
  show "split_n 2 CHR '' '' (''Bearer '' @ tok) = [''Bearer'', tok]" using split_n_two [of "CHR '' ''" "''Bearer''" tok] by simp
  show "trim_space tok = tok" using assms(2) by (rule trim_space_all_plain)
  show "to_lower ''Bearer'' = ''bearer''" by code_simp
qed

lemma Me_known:
  assumes "first (m ''authorization'') = ''Bearer '' @ tok" "tok \<noteq> []" "\<forall>ch \<in> set tok. plain_char ch"
    and "ParseAccessToken cr cfg tok = Some c" "acSubject c = fst k" "canonical cr (fst k)" "known k db" "\<not> fault x 0"
  shows "Me cr cfg x m db = Inr \<lparr>meUserId = fst k, meEmail = fst (snd k), meUsername = snd (snd k)\<rparr>"
  using assms bearer_split [OF assms(2,3)]
  by (auto simp: Me_def Let_def GetUserByID_def canonical_def known_def identity_def)

section \<open>The property\<close>

text \<open>
  Whoever signs in at the gateway, by registering, by logging in or by a refresh, is recognised with the access token of the
  response until it expires: the profile endpoint lets the request through and answers with the identifier, e-mail and user name of
  that account, whatever requests the auth service handled in between, logouts and further refreshes included.
\<close>

theorem signed_in_user_recognised:
  assumes signed: "gateway_sign_in cr cfg E op db = (WriteJSON st v, db')" and inv: "accounts_inv cr db" and new: "canonical cr (fresh (geXs E 0))"
    and jwt: "jwt_law cr lib (cfgSecret cfg) t" and clock: "issued_at E op \<noteq> zero_time"
    and live: "t < (issued_at E op + cfgAccessTTL cfg) div 1000000000 * 1000000000"
    and wire: "\<forall>m. wire m ''authorization'' = m ''authorization''" and calm: "\<not> fault x 0"
  shows "RequireUser lib (cfgSecret cfg) (''Bearer '' @ avAccessToken v)
      (bff_Me cr cfg x wire (''Bearer '' @ avAccessToken v) (exec_auths cr cfg ops db')) empty_ctx =
    WriteJSON 200 \<lparr>mvUserID = uvID (avUser v), mvEmail = unless_empty (uvEmail (avUser v)), mvUsername = unless_empty (uvUsername (avUser v))\<rparr>"
proof -
  obtain u role where u: "jwtSign cr (cfgSecret cfg) (token_claims cfg (uID u) role (issued_at E op)) = Some (avAccessToken v)"
    "known (identity u) db'" "canonical cr (uID u)" "identity u = (uvID (avUser v), uvEmail (avUser v), uvUsername (avUser v))"
    using signed clock inv new by (rule sign_in_signed)
  let ?tok = "avAccessToken v" and ?key = "\<lambda>alg. if alg \<noteq> ''HS256'' then None else Some (cfgSecret cfg)"
  have tok: "?tok \<noteq> []" "\<forall>ch \<in> set ?tok. plain_char ch" using jwt u(1) unfolding jwt_law_def by blast+
  have "t < acExpiresAt (token_claims cfg (uID u) role (issued_at E op)) div 1000000000 * 1000000000"
    using live by (simp add: token_claims_def)
  then have parsed: "\<exists>c'. jwtParse cr ?key ?tok = Some (c', True) \<and> acSubject c' = uID u" "lib ?key ?tok = Some (\<lparr>clSubject = uID u, clRole = role\<rparr>, True)"
    using jwt [unfolded jwt_law_def, rule_format, OF u(1)] by (auto simp: token_claims_def dest: spec [of _ ?key])
  then obtain c where c: "ParseAccessToken cr cfg ?tok = Some c" "acSubject c = uID u" by (auto simp: ParseAccessToken_def)
  have i: "uID u = fst (identity u)" by (simp add: identity_def)
  have "Me cr cfg x (wire (md_set ''authorization'' (''Bearer '' @ ?tok) (\<lambda>_. []))) (exec_auths cr cfg ops db') =
      Inr \<lparr>meUserId = fst (identity u), meEmail = fst (snd (identity u)), meUsername = snd (snd (identity u))\<rparr>"
    using c u(3) known_exec [OF u(2)] calm tok by (intro Me_known) (simp_all add: wire md_set_def first_def i [symmetric])
  moreover have "JWT_Parse lib (cfgSecret cfg) ?tok = Some \<lparr>clSubject = uID u, clRole = role\<rparr>" using parsed(2) by (simp add: JWT_Parse_def)
  moreover have "trim_space (uID u) \<noteq> []" using u(3) by (simp add: canonical_def)
  moreover have "uID u = uvID (avUser v)" using u(4) by (simp add: identity_def)
  ultimately show ?thesis
    using bearer_split [OF tok] by (simp add: RequireUser_def bff_Me_def empty_ctx_def Let_def u(4))
qed

definition gate_crypto :: crypto where
  "gate_crypto = demo_crypto
     \<lparr>jwtSign := (\<lambda>k c. if k = ''k'' \<and> acRole c = ''user'' \<and> acSubject c \<noteq> [] \<and> (\<forall>ch \<in> set (acSubject c). plain_char ch) then Some (acSubject c) else None),
      jwtParse := (\<lambda>key tok. if key ''HS256'' = Some ''k'' then Some (\<lparr>acSubject = tok, acIssuedAt = 0, acExpiresAt = 0, acRole = ''user''\<rparr>, True) else None)\<rparr>"

definition gate_lib :: jwt_lib where
  "gate_lib key tok = (if key ''HS256'' = Some ''k'' then Some (\<lparr>clSubject = tok, clRole = ''user''\<rparr>, True) else None)"

definition gate_cfg :: auth_config where
  "gate_cfg = demo_cfg\<lparr>cfgAccessTTL := 10000000000\<rparr>"

definition demo_gate :: gate_env where
  "demo_gate = \<lparr>geXs = (\<lambda>_. calm 1 ''s2''), geBytes = Some ''x'', geWire = (\<lambda>m. m), geFmt = (\<lambda>_. []), geHeaders = \<lparr>hAuthorization = [], hUserAgent = []\<rparr>, geRid = []\<rparr>"

lemma gate_law: "jwt_law gate_crypto gate_lib ''k'' t"
  by (auto simp: jwt_law_def gate_crypto_def gate_lib_def split: if_splits)

lemma gate_names: "trim_space ''ann'' = ''ann''" "trim_space ''s2'' = ''s2''" "trim_space ''u1'' = ''u1''"
  by code_simp+

theorem signed_in_user_recognised_witness:
  "\<exists>v db'. gateway_sign_in gate_crypto gate_cfg demo_gate (SignLogin ''ann'' ''pw'') demo_auth_db = (WriteJSON 200 v, db') \<and>
     RequireUser gate_lib ''k'' (''Bearer '' @ avAccessToken v)
       (bff_Me gate_crypto gate_cfg (calm 5 []) (\<lambda>m. m) (''Bearer '' @ avAccessToken v)
         (exec_auths gate_crypto gate_cfg [ALogout (\<lambda>_. calm 3 []) ''tok''] db')) empty_ctx =
     WriteJSON 200 \<lparr>mvUserID = ''u1'', mvEmail = Some ''a@b.cd'', mvUsername = Some ''ann''\<rparr>"
proof -
  let ?a = "\<lparr>uvID = ''u1'', uvEmail = ''a@b.cd'', uvUsername = ''ann'', uvCreatedAt = []\<rparr>"
  obtain v db' where s: "gateway_sign_in gate_crypto gate_cfg demo_gate (SignLogin ''ann'' ''pw'') demo_auth_db = (WriteJSON 200 v, db')" "avUser v = ?a"
    by (simp add: bff_Login_def auth_reply_def Login_def demo_gate_def gate_names FindUserByLogin_def gate_crypto_def gate_cfg_def demo_simps issueTokens_def
        NewAccessToken_def NewRefreshToken_def CreateRefreshSession_def zero_time_def toAuthResponse_def plain_ascii Let_def)
  have k: "cfgSecret gate_cfg = ''k''" by (simp add: gate_cfg_def demo_cfg_def)
  have inv: "accounts_inv gate_crypto demo_auth_db" "canonical gate_crypto (fresh (geXs demo_gate 0))"
    by (simp_all add: accounts_inv_def canonical_def demo_auth_db_def gate_crypto_def demo_crypto_def demo_gate_def gate_names)
  have clock: "issued_at demo_gate (SignLogin ''ann'' ''pw'') \<noteq> zero_time"
    "5 < (issued_at demo_gate (SignLogin ''ann'' ''pw'') + cfgAccessTTL gate_cfg) div 1000000000 * 1000000000"
    by (simp_all add: demo_gate_def zero_time_def gate_cfg_def)
  have law: "jwt_law gate_crypto gate_lib (cfgSecret gate_cfg) 5" unfolding k by (rule gate_law)
  have "\<not> fault (calm 5 []) 0" by simp
  with signed_in_user_recognised [OF s(1) inv law clock, of "\<lambda>m. m" "calm 5 []" "[ALogout (\<lambda>_. calm 3 []) ''tok'']"]
  have "RequireUser gate_lib ''k'' (''Bearer '' @ avAccessToken v) (bff_Me gate_crypto gate_cfg (calm 5 []) (\<lambda>m. m) (''Bearer '' @ avAccessToken v)
      (exec_auths gate_crypto gate_cfg [ALogout (\<lambda>_. calm 3 []) ''tok''] db')) empty_ctx =
    WriteJSON 200 \<lparr>mvUserID = ''u1'', mvEmail = Some ''a@b.cd'', mvUsername = Some ''ann''\<rparr>"
    unfolding k s(2) unless_empty_def by simp
  with s(1) show ?thesis by blast
qed

end
