(* ===== verification/Ingestion_Queue.thy ===== *)
theory Ingestion_Queue
  imports Go_Prelude
begin

unbundle bit_operations_syntax

text \<open>
  The job queue of the ingestion service (services/ingestion/internal/queue): the retry delay, and the worker that runs a delivered job,
  retries it and finally moves it to the dead-letter subject. A job's handler is a state transformer that reports whether it
  succeeded; JSON decoding of a payload is the parameter \<open>qeDecode\<close>, and \<open>qeValid\<close> says which texts are JSON at all.
\<close>

section \<open>The delay\<close>

text \<open>
  \<open>int(numDelivered)\<close> reinterprets 64 bits, a shift by 64 or more gives 0, and a \<open>time.Duration\<close> is 64 bits of nanoseconds.
\<close>

definition backoffDelay :: "i64 \<Rightarrow> i64" where
  "backoffDelay numDelivered =
     (let attempt = sint numDelivered;
          attempt = (if attempt < 1 then 1 else attempt);
          sec = push_bit (nat (attempt - 1)) (1 :: i64);
          sec = (if sint sec > 60 then 60 else sec)
      in sec * 1000000000)"

section \<open>The worker\<close>

record worker =
  MaxDeliver :: int

definition NewWorker :: worker where
  "NewWorker = \<lparr>MaxDeliver = 5\<rparr>"

record 's job_handlers =
  JikanSync :: "int \<Rightarrow> 's \<Rightarrow> bool \<times> 's"
  HiAnimeSync :: "int \<Rightarrow> 's \<Rightarrow> bool \<times> 's"

record job_msg =
  jmData :: string
  jmDelivered :: "i64 option"

datatype settle = Acked | Naked i64

text \<open>A dead letter; \<open>None\<close> is the empty message that is sent when the envelope does not encode, because the payload is no JSON.\<close>

record dead_letter =
  dlSubject :: string
  dlReason :: string
  dlPayload :: string

record queue_env =
  qeDecode :: "string \<Rightarrow> int option"
  qeValid :: "string \<Rightarrow> bool"
  qeDlqOk :: bool

record 's queue =
  qState :: 's
  qDead :: "dead_letter option list"

definition publishDLQ :: "queue_env \<Rightarrow> string \<Rightarrow> string \<Rightarrow> string \<Rightarrow> 's queue \<Rightarrow> 's queue" where
  "publishDLQ E subject data reason q =
     (let b = (if qeValid E data then Some \<lparr>dlSubject = subject, dlReason = reason, dlPayload = data\<rparr> else None)
      in if qeDlqOk E then q\<lparr>qDead := qDead q @ [b]\<rparr> else q)"

text \<open>One branch of the switch: decode, check the number, run the handler.\<close>

definition run_job :: "queue_env \<Rightarrow> i64 \<Rightarrow> string \<Rightarrow> (int \<Rightarrow> 's \<Rightarrow> bool \<times> 's) \<Rightarrow> 's queue \<Rightarrow> settle \<times> 's queue" where
  "run_job E numDelivered data sync q =
     (case qeDecode E data of
        None \<Rightarrow> (Acked, q)
      | Some malID \<Rightarrow>
          if malID \<le> 0 then (Acked, q)
          else
            (case sync malID (qState q) of
               (False, s) \<Rightarrow> (Naked (backoffDelay numDelivered), q\<lparr>qState := s\<rparr>)
             | (True, s) \<Rightarrow> (Acked, q\<lparr>qState := s\<rparr>)))"

definition handleMsg :: "worker \<Rightarrow> queue_env \<Rightarrow> 's job_handlers \<Rightarrow> job_msg \<Rightarrow> string \<Rightarrow> 's queue \<Rightarrow> settle \<times> 's queue" where
  "handleMsg W E H m subj q =
     (let numDelivered = (case jmDelivered m of None \<Rightarrow> 1 | Some n \<Rightarrow> n)
      in if MaxDeliver W > 0 \<and> sint numDelivered > MaxDeliver W
         then (Acked, publishDLQ E subj (jmData m) (''max deliveries exceeded: '' @ format_nat (unat numDelivered)) q)
         else if subj = ''ingestion.jikan.sync'' then run_job E numDelivered (jmData m) (JikanSync H) q
         else if subj = ''ingestion.hianime.sync'' then run_job E numDelivered (jmData m) (HiAnimeSync H) q
         else (Acked, q))"

section \<open>The life of a job\<close>

text \<open>
  Delivery \<open>k\<close> carries the count \<open>k\<close>; a job that is not acknowledged, or whose acknowledgement is lost, is delivered again. The first
  number is how many deliveries are followed.
\<close>

fun job_life ::
  "worker \<Rightarrow> queue_env \<Rightarrow> (nat \<Rightarrow> bool) \<Rightarrow> (nat \<Rightarrow> 's job_handlers) \<Rightarrow> string \<Rightarrow> string \<Rightarrow> nat \<Rightarrow> nat \<Rightarrow> 's queue \<Rightarrow> settle list \<times> 's queue" where
  "job_life W E ackOk H subj data 0 k q = ([], q)"
| "job_life W E ackOk H subj data (Suc n) k q =
     (case handleMsg W E (H k) \<lparr>jmData = data, jmDelivered = Some (of_nat k)\<rparr> subj q of
        (v, q1) \<Rightarrow>
          if v = Acked \<and> ackOk k then ([v], q1)
          else (case job_life W E ackOk H subj data n (Suc k) q1 of (vs, q2) \<Rightarrow> (v # vs, q2)))"

text \<open>The specification: try at most \<open>n\<close> times, counting from \<open>k\<close>, until one attempt succeeds.\<close>

fun bounded_retry :: "(nat \<Rightarrow> 's \<Rightarrow> bool \<times> 's) \<Rightarrow> nat \<Rightarrow> nat \<Rightarrow> 's \<Rightarrow> bool \<times> nat \<times> 's" where
  "bounded_retry h 0 k s = (False, k, s)"
| "bounded_retry h (Suc n) k s = (case h k s of (True, s1) \<Rightarrow> (True, k, s1) | (False, s1) \<Rightarrow> bounded_retry h n (Suc k) s1)"

lemma bounded_retry_range: "bounded_retry h n k s = (ok, j, s1) \<Longrightarrow> k \<le> j \<and> j \<le> k + n \<and> (ok \<longrightarrow> j < k + n) \<and> (\<not> ok \<longrightarrow> j = k + n)"
  by (induction n arbitrary: k s) (force split: prod.splits bool.splits)+

section \<open>Delays in range\<close>

text \<open>A shift of 1 that stays below the sign bit is the power of two; from there on the word is negative or 0.\<close>

lemma sint_shift: "n < 63 \<Longrightarrow> sint (push_bit n (1 :: i64)) = 2 ^ n"
proof -
  assume "n < 63"
  then have b: "(2 :: int) ^ n < 2 ^ 63" by (rule power_strict_increasing) simp
  have "- 9223372036854775808 \<le> (2 :: int) ^ n" by (rule order_trans [of _ 0]) simp_all
  then have "sint (word_of_int (2 ^ n) :: i64) = 2 ^ n"
    using b by (simp only: signed_of_int) (simp add: signed_take_bit_int_eq_self_iff)
  then show ?thesis by (simp add: push_bit_eq_mult)
qed

lemma backoff_small: "1 \<le> k \<Longrightarrow> k \<le> (5 :: nat) \<Longrightarrow> backoffDelay (of_nat k) = 2 ^ (k - 1) * 1000000000"
proof -
  assume "1 \<le> k" "k \<le> 5"
  then consider "k = 1" | "k = 2" | "k = 3" | "k = 4" | "k = 5" by linarith
  then show ?thesis by cases (simp_all add: backoffDelay_def)
qed

lemma small_count: "k \<le> 6 \<Longrightarrow> sint (of_nat k :: i64) = int k" "k \<le> 6 \<Longrightarrow> unat (of_nat k :: i64) = k"
proof -
  assume "k \<le> 6"
  then consider "k = 0" | "k = 1" | "k = 2" | "k = 3" | "k = 4" | "k = 5" | "k = 6" by linarith
  then show "sint (of_nat k :: i64) = int k" "unat (of_nat k :: i64) = k" by (cases; simp)+
qed

section \<open>Bounded retries\<close>

definition sync_of :: "string \<Rightarrow> 's job_handlers \<Rightarrow> int \<Rightarrow> 's \<Rightarrow> bool \<times> 's" where
  "sync_of subj H = (if subj = ''ingestion.jikan.sync'' then JikanSync H else HiAnimeSync H)"

definition exhausted :: "queue_env \<Rightarrow> string \<Rightarrow> string \<Rightarrow> dead_letter option list" where
  "exhausted E subj data =
     (if qeDlqOk E
      then [if qeValid E data then Some \<lparr>dlSubject = subj, dlReason = ''max deliveries exceeded: 6'', dlPayload = data\<rparr> else None]
      else [])"

lemma handleMsg_attempt:
  assumes "subj \<in> {''ingestion.jikan.sync'', ''ingestion.hianime.sync''}" "qeDecode E data = Some i" "0 < i" "1 \<le> k" "k \<le> 5"
  shows "handleMsg NewWorker E H \<lparr>jmData = data, jmDelivered = Some (of_nat k)\<rparr> subj q =
    (case sync_of subj H i (qState q) of
       (False, s) \<Rightarrow> (Naked (2 ^ (k - 1) * 1000000000), q\<lparr>qState := s\<rparr>)
     | (True, s) \<Rightarrow> (Acked, q\<lparr>qState := s\<rparr>))"
proof -
  have c: "sint (of_nat k :: i64) = int k" using small_count(1) [of k] assms(5) by simp
  obtain r s where h: "sync_of subj H i (qState q) = (r, s)" by (cases "sync_of subj H i (qState q)")
  have "handleMsg NewWorker E H \<lparr>jmData = data, jmDelivered = Some (of_nat k)\<rparr> subj q = run_job E (of_nat k) data (sync_of subj H) q"
    using assms(1,5) by (auto simp: handleMsg_def NewWorker_def sync_of_def Let_def c)
  then show ?thesis using h assms(2,3) backoff_small [OF assms(4,5)] by (cases r) (simp_all add: run_job_def)
qed

lemma handleMsg_exhausted:
  "handleMsg NewWorker E H \<lparr>jmData = data, jmDelivered = Some (of_nat 6)\<rparr> subj q = (Acked, q\<lparr>qDead := qDead q @ exhausted E subj data\<rparr>)"
  by (simp add: handleMsg_def NewWorker_def publishDLQ_def exhausted_def Let_def format_nat.simps digit_char_def char_of_def bit_iff_odd drop_bit_eq_div)

lemma job_life_from:
  assumes "subj \<in> {''ingestion.jikan.sync'', ''ingestion.hianime.sync''}" "qeDecode E data = Some i" "0 < i" "\<forall>k. ackOk k"
  shows "n + k = 6 \<Longrightarrow> 1 \<le> k \<Longrightarrow> bounded_retry (\<lambda>k. sync_of subj (H k) i) n k (qState q) = (ok, j, s) \<Longrightarrow>
    job_life NewWorker E ackOk H subj data (Suc n) k q =
      (map (\<lambda>k. Naked (2 ^ (k - 1) * 1000000000)) [k..<j] @ [Acked], q\<lparr>qState := s, qDead := qDead q @ (if ok then [] else exhausted E subj data)\<rparr>)"
proof (induction n arbitrary: k q)
  case 0
  then show ?case using handleMsg_exhausted [of E "H 6" data subj q] assms(4) by simp
next
  case (Suc n)
  have k: "k \<le> 5" using Suc.prems(1) by simp
  obtain r s1 where h: "sync_of subj (H k) i (qState q) = (r, s1)" by (cases "sync_of subj (H k) i (qState q)")
  note m = handleMsg_attempt [OF assms(1-3) Suc.prems(2) k, of "H k" q]
  show ?case
  proof (cases r)
    case True
    then have "ok" "j = k" "s = s1" using Suc.prems(3) h by auto
    then show ?thesis using m h True assms(4) by simp
  next
    case False
    then have br: "bounded_retry (\<lambda>k. sync_of subj (H k) i) n (Suc k) (qState (q\<lparr>qState := s1\<rparr>)) = (ok, j, s)"
      using Suc.prems(3) h by simp
    have up: "[k..<j] = k # [Suc k..<j]" using bounded_retry_range [OF br] by (simp add: upt_conv_Cons)
    have "job_life NewWorker E ackOk H subj data (Suc n) (Suc k) (q\<lparr>qState := s1\<rparr>) =
        (map (\<lambda>k. Naked (2 ^ (k - 1) * 1000000000)) [Suc k..<j] @ [Acked],
         q\<lparr>qState := s1\<rparr>\<lparr>qState := s, qDead := qDead (q\<lparr>qState := s1\<rparr>) @ (if ok then [] else exhausted E subj data)\<rparr>)"
      by (rule Suc.IH [OF _ _ br]) (use Suc.prems(1) in simp_all)
    then show ?thesis unfolding job_life.simps(2) [of NewWorker E ackOk H subj data "Suc n" k q] using m h False
      by (simp add: up del: job_life.simps)
  qed
qed

section \<open>Properties\<close>

text \<open>
  The delay before a retry: one second for the first delivery, doubling to 32 seconds at the sixth, 60 seconds from the seventh to the
  63rd; from the 64th on, and for no smaller count, the shift leaves the 64 bits and the delay is zero.
\<close>

theorem backoff_delay:
  "sint (backoffDelay n) =
     (if sint n < 1 then 1 else if sint n \<le> 6 then 2 ^ nat (sint n - 1) else if sint n \<le> 63 then 60 else 0) * 1000000000"
proof -
  consider "sint n < 1" | "sint n = 1" | "sint n = 2" | "sint n = 3" | "sint n = 4" | "sint n = 5" | "sint n = 6"
    | "7 \<le> sint n" "sint n \<le> 63" | "sint n = 64" | "65 \<le> sint n" by linarith
  then show ?thesis
  proof cases
    case 8
    have "(2 :: int) ^ 6 \<le> 2 ^ nat (sint n - 1)" using 8 by (intro power_increasing) auto
    moreover have "sint (push_bit (nat (sint n - 1)) (1 :: i64)) = 2 ^ nat (sint n - 1)" using 8 by (intro sint_shift) auto
    ultimately show ?thesis using 8 by (simp add: backoffDelay_def)
  next
    case 10
    then have z: "(2 :: i64) ^ nat (sint n - 1) = 0" by (simp add: exp_eq_zero_iff)
    show ?thesis using 10 by (simp add: backoffDelay_def Let_def push_bit_eq_mult z)
  qed (simp_all add: backoffDelay_def)
qed


definition demo_queue_env :: queue_env where
  "demo_queue_env = \<lparr>qeDecode = (\<lambda>d. if d = ''{7}'' then Some 7 else None), qeValid = (\<lambda>d. d = ''{7}''), qeDlqOk = True\<rparr>"

definition flaky :: "nat \<Rightarrow> nat job_handlers" where
  "flaky k = \<lparr>JikanSync = (\<lambda>i n. (k = 3, n + 1)), HiAnimeSync = (\<lambda>i n. (False, n + 1))\<rparr>"


end
