(* ===== verification/Ingestion_Jobs.thy ===== *)
theory Ingestion_Jobs
  imports Ingestion_Queue Catalog Hls_Signing
begin

text \<open>
  The jobs of the ingestion service: the clients of the two metadata providers (services/ingestion/internal/jikan and hianime), the mapping
  to catalog messages, the episode synchronisation (services/ingestion/internal/jobs), the handlers and the page import of
  services/ingestion/cmd/ingestion/main.go, over the catalog's service. The HTTP exchange with a provider and JSON decoding are
  parameters; a call to the catalog reaches it and its answer comes back.
\<close>

section \<open>Providers\<close>

datatype client_error =
    MalIDRequired | BadRequestURL | NilURL | Transport | ReadBody | BadStatus nat string | DecodeError string

text \<open>\<open>heDo\<close> is the exchange: status and body (\<open>None\<close> when reading it fails), or a transport error.\<close>

record http_env =
  heLib :: url_lib
  heRequestOk :: "string \<Rightarrow> bool"
  heDo :: "string \<Rightarrow> headers \<Rightarrow> (nat \<times> string option) option"

definition client_headers :: headers where
  "client_headers = header_set ''User-Agent'' ''anime-platform-ingestion/1.0'' (header_set ''Accept'' ''application/json'' [])"

definition doJSON :: "nat \<Rightarrow> http_env \<Rightarrow> (string \<Rightarrow> 'a option) \<Rightarrow> string \<Rightarrow> client_error + 'a" where
  "doJSON bound E decode u =
     (if \<not> heRequestOk E u then Inl BadRequestURL
      else
        (case heDo E u client_headers of
           None \<Rightarrow> Inl Transport
         | Some (status, None) \<Rightarrow> Inl ReadBody
         | Some (status, Some body) \<Rightarrow>
             let b = take bound body
             in if status \<noteq> 200 then Inl (BadStatus status (take (min (length b) 200) b))
                else (case decode b of None \<Rightarrow> Inl (DecodeError (take (min (length b) 200) b)) | Some v \<Rightarrow> Inr v)))"

definition trim_right_slash :: "string \<Rightarrow> string" where
  "trim_right_slash s = rev (dropWhile (\<lambda>c. c = CHR ''/'') (rev s))"

definition jikan_New :: "string \<Rightarrow> string" where
  "jikan_New baseURL = trim_right_slash (if baseURL = [] then ''https://api.jikan.moe/v4'' else baseURL)"

definition hianime_New :: "string \<Rightarrow> string" where
  "hianime_New baseURL = trim_right_slash (if baseURL = [] then ''https://void-roan-six.vercel.app/api/v2'' else baseURL)"

record anime_data =
  adMalID :: i32
  adTitle :: string
  adTitleEnglish :: string
  adTitleJapanese :: string
  adSynopsis :: string
  adType :: string
  adStatus :: string
  adEpisodes :: i32
  adScore :: i32
  adGenres :: "string list"
  adImage :: string

definition jikan_GetAnime :: "http_env \<Rightarrow> (string \<Rightarrow> anime_data option) \<Rightarrow> string \<Rightarrow> int \<Rightarrow> client_error + anime_data" where
  "jikan_GetAnime E decode base malID =
     (if malID \<le> 0 then Inl MalIDRequired
      else
        (case ulParse (heLib E) (base @ ''/anime/'' @ format_int malID) of
           None \<Rightarrow> Inl NilURL
         | Some u \<Rightarrow> doJSON (2 * 2 ^ 20) E decode (ulString (heLib E) u)))"

definition fetchList :: "http_env \<Rightarrow> (string \<Rightarrow> (anime_data list \<times> bool) option) \<Rightarrow> string \<Rightarrow> client_error + anime_data list \<times> bool" where
  "fetchList E decode rawURL = doJSON (4 * 2 ^ 20) E decode rawURL"

definition GetTopAnime :: "http_env \<Rightarrow> (string \<Rightarrow> (anime_data list \<times> bool) option) \<Rightarrow> string \<Rightarrow> int \<Rightarrow> client_error + anime_data list \<times> bool" where
  "GetTopAnime E decode base page = fetchList E decode (base @ ''/top/anime?page='' @ format_int page)"

definition GetSeasonNow :: "http_env \<Rightarrow> (string \<Rightarrow> (anime_data list \<times> bool) option) \<Rightarrow> string \<Rightarrow> int \<Rightarrow> client_error + anime_data list \<times> bool" where
  "GetSeasonNow E decode base page = fetchList E decode (base @ ''/seasons/now?page='' @ format_int page)"

definition jikan_Search ::
  "http_env \<Rightarrow> (string \<Rightarrow> (anime_data list \<times> bool) option) \<Rightarrow> string \<Rightarrow> string \<Rightarrow> int \<Rightarrow> client_error + anime_data list \<times> bool" where
  "jikan_Search E decode base q limit =
     fetchList E decode (base @ ''/anime?q='' @ query_escape q @ ''&limit='' @ format_int limit @ ''&order_by=popularity&sort=asc'')"

text \<open>The second provider: a search lists the identifiers found, an anime carries its MyAnimeList number, an episode identifier, number, title and flag.\<close>

record search_reply =
  shStatus :: int
  shAnimes :: "string list"

record provider_episode =
  ppEpisodeID :: string
  ppNumber :: i32
  ppTitle :: string
  ppIsFiller :: bool

text \<open>\<open>url.PathEscape\<close>: beside the unreserved characters a path segment keeps the ampersand, plus, dollar, equals, colon and at sign.\<close>

definition path_escape :: "string \<Rightarrow> string" where
  "path_escape s =
     concat (map (\<lambda>c. if unreserved c \<or> c \<in> {CHR ''$'', CHR ''&'', CHR ''+'', CHR ''='', CHR '':'', CHR ''@''} then [c]
       else [CHR ''%'', hex_digit (of_char c div 16), hex_digit (of_char c mod 16)]) s)"

definition hianime_Search :: "http_env \<Rightarrow> (string \<Rightarrow> search_reply option) \<Rightarrow> string \<Rightarrow> string \<Rightarrow> int \<Rightarrow> client_error + search_reply" where
  "hianime_Search E decode base q page =
     (case ulParse (heLib E) (base @ ''/hianime/search'') of
        None \<Rightarrow> Inl NilURL
      | Some u \<Rightarrow>
          let qq = values_set ''q'' q (parse_query (unRawQuery u));
              qq = (if page > 0 then values_set ''page'' (format_int page) qq else qq)
          in doJSON (2 ^ 20) E decode (ulString (heLib E) (u\<lparr>unRawQuery := values_encode qq\<rparr>)))"

definition hianime_GetAnime :: "http_env \<Rightarrow> (string \<Rightarrow> int option) \<Rightarrow> string \<Rightarrow> string \<Rightarrow> client_error + int" where
  "hianime_GetAnime E decode base slug = doJSON (2 ^ 20) E decode (base @ ''/hianime/anime/'' @ path_escape slug)"

definition hianime_GetEpisodes :: "http_env \<Rightarrow> (string \<Rightarrow> provider_episode list option) \<Rightarrow> string \<Rightarrow> string \<Rightarrow> client_error + provider_episode list" where
  "hianime_GetEpisodes E decode base slug = doJSON (2 ^ 20) E decode (base @ ''/hianime/anime/'' @ path_escape slug @ ''/episodes'')"

section \<open>Mapping\<close>

definition AnimeDataToProto :: "anime_data \<Rightarrow> jikan_input" where
  "AnimeDataToProto d =
     \<lparr>jiMalID = adMalID d, jiTitle = trim_space (adTitle d), jiTitleEnglish = trim_space (adTitleEnglish d),
      jiTitleJapanese = trim_space (adTitleJapanese d), jiImage = trim_space (adImage d), jiSynopsis = trim_space (adSynopsis d),
      jiGenres = filter (\<lambda>name. name \<noteq> []) (map trim_space (adGenres d)), jiType = trim_space (adType d), jiStatus = trim_space (adStatus d),
      jiTotalEpisodes = adEpisodes d, jiScore = adScore d\<rparr>"

definition ToCatalogProto :: "anime_data option \<Rightarrow> jikan_input option" where
  "ToCatalogProto resp = (case resp of None \<Rightarrow> None | Some d \<Rightarrow> Some (AnimeDataToProto d))"

definition BestTitle :: "anime_data option \<Rightarrow> string" where
  "BestTitle resp =
     (case resp of
        None \<Rightarrow> []
      | Some d \<Rightarrow>
          if trim_space (adTitleEnglish d) \<noteq> [] then trim_space (adTitleEnglish d)
          else if trim_space (adTitle d) \<noteq> [] then trim_space (adTitle d)
          else trim_space (adTitleJapanese d))"

section \<open>Synchronising episodes\<close>

datatype sync_error =
    MalIDMissing | TitleRequired | ClientFailed client_error | CatalogFailed grpc_status | NoResults string | NoSlug int

text \<open>
  The environment of one run: the providers' answers (\<open>syJikan\<close> is \<open>None\<close> when there is no such provider; candidate \<open>i\<close> is asked for once),
  and the contexts of the two catalog calls.
\<close>

record sync_env =
  syJikan :: "(int \<Rightarrow> client_error + anime_data) option"
  sySearch :: "string \<Rightarrow> client_error + search_reply"
  syAnime :: "nat \<Rightarrow> string \<Rightarrow> client_error + int"
  syEpisodes :: "string \<Rightarrow> client_error + provider_episode list"
  syUuid :: "string \<Rightarrow> uuid option"
  syResolve :: ctx
  syUpsert :: ctx
  syRows :: "nat \<Rightarrow> ctx"
  syIds :: "nat \<Rightarrow> uuid"

definition query_title :: "sync_env \<Rightarrow> int \<Rightarrow> string \<Rightarrow> sync_error + string" where
  "query_title E malID queryTitle =
     (let queryTitle = trim_space queryTitle
      in if queryTitle \<noteq> [] then Inr queryTitle
         else
           (case syJikan E of
              None \<Rightarrow> Inl TitleRequired
            | Some get \<Rightarrow>
                (case get malID of
                   Inl e \<Rightarrow> Inl (ClientFailed e)
                 | Inr d \<Rightarrow> let t = trim_space (BestTitle (Some d)) in if t = [] then Inl TitleRequired else Inr t)))"

fun find_slug :: "(nat \<Rightarrow> string \<Rightarrow> client_error + int) \<Rightarrow> int \<Rightarrow> (nat \<times> string) list \<Rightarrow> string" where
  "find_slug get malID [] = []"
| "find_slug get malID ((i, a) # as) =
     (if i \<ge> 15 then []
      else
        let cand = trim_space a
        in if cand = [] then find_slug get malID as
           else
             (case get i cand of
                Inl _ \<Rightarrow> find_slug get malID as
              | Inr m \<Rightarrow> if m = malID then cand else find_slug get malID as))"

definition to_pb_episodes :: "provider_episode list \<Rightarrow> (string \<times> i32 \<times> string \<times> bool) option list" where
  "to_pb_episodes eps =
     map (\<lambda>e. Some (trim_space (ppEpisodeID e), ppNumber e, trim_space (ppTitle e), ppIsFiller e))
       (filter (\<lambda>e. trim_space (ppEpisodeID e) \<noteq> []) eps)"

text \<open>The result: identifier, slug and episode identifiers, or the error with the identifier and slug known so far.\<close>

definition SyncEpisodesByMALID ::
  "sync_env \<Rightarrow> int \<Rightarrow> string \<Rightarrow> catalog_db \<Rightarrow> ((sync_error \<times> string \<times> string) + string \<times> string \<times> uuid list) \<times> catalog_db" where
  "SyncEpisodesByMALID E malID queryTitle db =
     (if malID \<le> 0 then (Inl (MalIDMissing, [], []), db)
      else
        (case query_title E malID queryTitle of
           Inl e \<Rightarrow> (Inl (e, [], []), db)
         | Inr title \<Rightarrow>
             (case svc_ResolveAnimeIDByExternalID (syResolve E) ''mal'' (format_int malID) db of
                Inl st \<Rightarrow> (Inl (CatalogFailed st, [], []), db)
              | Inr animeID \<Rightarrow>
                  (case sySearch E title of
                     Inl e \<Rightarrow> (Inl (ClientFailed e, animeID, []), db)
                   | Inr res \<Rightarrow>
                       if shStatus res \<noteq> 200 \<or> shAnimes res = [] then (Inl (NoResults title, animeID, []), db)
                       else
                         let slug = find_slug (syAnime E) malID (enumerate 0 (shAnimes res))
                         in if slug = [] then (Inl (NoSlug malID, animeID, []), db)
                            else
                              (case syEpisodes E slug of
                                 Inl e \<Rightarrow> (Inl (ClientFailed e, animeID, slug), db)
                               | Inr eps \<Rightarrow>
                                   (case svc_UpsertHiAnimeEpisodes (syUuid E) (syUpsert E) (syRows E) (syIds E) animeID slug (to_pb_episodes eps) db of
                                      (Inl st, db1) \<Rightarrow> (Inl (CatalogFailed st, animeID, slug), db1)
                                    | (Inr is, db1) \<Rightarrow> (Inr (animeID, slug, is), db1)))))))"

section \<open>Handlers of the worker\<close>

text \<open>What the jobs change: the catalog, and the jobs they publish (subject and number).\<close>

record ingest_state =
  igDb :: catalog_db
  igJobs :: "(string \<times> int) list"

text \<open>
  \<open>jbWait\<close> and \<open>jbHiaWait\<close>: the rate limiters let the job through. \<open>jbStored\<close>: the published job is in the stream; \<open>jbPublished\<close>: its
  acknowledgement came back.
\<close>

record job_env =
  jbWait :: bool
  jbJikan :: "int \<Rightarrow> client_error + anime_data"
  jbUpsert :: ctx
  jbIds :: "nat \<Rightarrow> uuid"
  jbStored :: bool
  jbPublished :: bool
  jbHiaWait :: bool
  jbSync :: sync_env

definition jikan_sync_job :: "job_env \<Rightarrow> int \<Rightarrow> ingest_state \<Rightarrow> bool \<times> ingest_state" where
  "jikan_sync_job E malID st =
     (if \<not> jbWait E then (False, st)
      else
        (case jbJikan E malID of
           Inl e \<Rightarrow> (False, st)
         | Inr d \<Rightarrow>
             (case svc_UpsertJikanAnime (jbUpsert E) (jbIds E) (ToCatalogProto (Some d)) (igDb st) of
                (Inl e, db) \<Rightarrow> (False, st\<lparr>igDb := db\<rparr>)
              | (Inr _, db) \<Rightarrow>
                  (jbPublished E,
                   st\<lparr>igDb := db, igJobs := (if jbStored E then igJobs st @ [(''ingestion.hianime.sync'', malID)] else igJobs st)\<rparr>))))"

definition hianime_sync_job :: "job_env \<Rightarrow> int \<Rightarrow> ingest_state \<Rightarrow> bool \<times> ingest_state" where
  "hianime_sync_job E malID st =
     (if \<not> jbHiaWait E then (False, st)
      else (case SyncEpisodesByMALID (jbSync E) malID [] (igDb st) of (r, db) \<Rightarrow> (isr r, st\<lparr>igDb := db\<rparr>)))"

definition ingestion_handlers :: "job_env \<Rightarrow> ingest_state job_handlers" where
  "ingestion_handlers E = \<lparr>JikanSync = jikan_sync_job E, HiAnimeSync = hianime_sync_job E\<rparr>"

section \<open>Importing pages\<close>

text \<open>The positive numbers of the pages up to the last one, to an error or to the given count, without repetition.\<close>

fun fetch_pages :: "(int \<Rightarrow> client_error + anime_data list \<times> bool) \<Rightarrow> int \<Rightarrow> nat \<Rightarrow> i32 list \<Rightarrow> i32 list" where
  "fetch_pages get p 0 seen = seen"
| "fetch_pages get p (Suc n) seen =
     (case get p of
        Inl e \<Rightarrow> seen
      | Inr (ds, hasNext) \<Rightarrow>
          let seen = fold (\<lambda>d s. if sint (adMalID d) > 0 then List.insert (adMalID d) s else s) ds seen
          in if \<not> hasNext then seen else fetch_pages get (p + 1) n seen)"

text \<open>\<open>ord\<close> is the iteration order of the map; \<open>pub i\<close> says whether publishing number \<open>i\<close> succeeds.\<close>

definition publishJikanPages ::
  "http_env \<Rightarrow> (string \<Rightarrow> (anime_data list \<times> bool) option) \<Rightarrow> string \<Rightarrow> (i32 list \<Rightarrow> i32 list) \<Rightarrow> (i32 \<Rightarrow> bool) \<Rightarrow> string \<Rightarrow> int \<Rightarrow>
   (string \<times> int) list \<Rightarrow> nat \<times> (string \<times> int) list" where
  "publishJikanPages E decode base ord pub kind pages jobs =
     (let dedup = fetch_pages (if kind = ''season'' then GetSeasonNow E decode base else GetTopAnime E decode base) 1 (nat pages) [];
          sent = filter pub (ord dedup)
      in (length sent, jobs @ map (\<lambda>i. (''ingestion.jikan.sync'', sint i)) sent))"

section \<open>HTTP triggers\<close>

definition parse_mal_id :: "string \<Rightarrow> int option" where
  "parse_mal_id malStr = (case parse_int malStr of None \<Rightarrow> None | Some i \<Rightarrow> if i \<le> 0 then None else Some i)"

definition bad_mal_id :: "string \<Rightarrow> string \<Rightarrow> 'b response" where
  "bad_mal_id malStr rid = BadRequest ''VALIDATION_MAL_ID'' ''Invalid mal_id'' rid (Some [''mal_id'' \<mapsto> malStr])"

text \<open>\<open>txt\<close> gives the text of an error; the body of a successful answer is the identifier with the title, or with slug and episodes.\<close>

definition jikan_trigger ::
  "(client_error \<Rightarrow> string) \<Rightarrow> (grpc_status \<Rightarrow> string) \<Rightarrow> job_env \<Rightarrow> string \<Rightarrow> string \<Rightarrow> catalog_db \<Rightarrow> (uuid \<times> string) response \<times> catalog_db" where
  "jikan_trigger txt stTxt E rid param db =
     (let malStr = trim_space param
      in (case parse_mal_id malStr of
            None \<Rightarrow> (bad_mal_id malStr rid, db)
          | Some malID \<Rightarrow>
              (case jbJikan E malID of
                 Inl e \<Rightarrow> (WriteError 502 ''JIKAN_FAILED'' (txt e) rid None, db)
               | Inr d \<Rightarrow>
                   (case svc_UpsertJikanAnime (jbUpsert E) (jbIds E) (ToCatalogProto (Some d)) db of
                      (Inl st, db) \<Rightarrow> (WriteError 502 ''CATALOG_FAILED'' (stTxt st) rid None, db)
                    | (Inr i, db) \<Rightarrow> (WriteJSON 200 (i, BestTitle (Some d)), db)))))"

text \<open>\<open>body\<close> is the title of the decoded request; a body that does not decode counts as one without title.\<close>

definition hianime_trigger ::
  "(sync_error \<Rightarrow> string) \<Rightarrow> sync_env \<Rightarrow> string \<Rightarrow> string \<Rightarrow> string option \<Rightarrow> catalog_db \<Rightarrow> (string \<times> string \<times> uuid list) response \<times> catalog_db" where
  "hianime_trigger txt E rid param body db =
     (let malStr = trim_space param
      in (case parse_mal_id malStr of
            None \<Rightarrow> (bad_mal_id malStr rid, db)
          | Some malID \<Rightarrow>
              (case SyncEpisodesByMALID E malID (trim_space (case body of None \<Rightarrow> [] | Some t \<Rightarrow> t)) db of
                 (Inl (e, _, _), db) \<Rightarrow> (WriteError 502 ''INGEST_FAILED'' (txt e) rid None, db)
               | (Inr r, db) \<Rightarrow> (WriteJSON 200 r, db))))"

section \<open>What a synchronisation establishes\<close>

lemma find_slug_sound:
  "find_slug get m as \<noteq> [] \<Longrightarrow>
   \<exists>(i, a) \<in> set as. i < 15 \<and> trim_space a = find_slug get m as \<and> get i (find_slug get m as) = Inr m"
  by (induction as) (force simp: Let_def split: if_splits sum.splits)+

lemma fetch_pages_distinct: "distinct seen \<Longrightarrow> distinct (fetch_pages get p n seen)"
proof (induction n arbitrary: p seen)
  case (Suc n)
  have "distinct (fold (\<lambda>d s. if sint (adMalID d) > 0 then List.insert (adMalID d) s else s) ds seen)" for ds
    using Suc.prems by (induction ds arbitrary: seen) (simp_all add: distinct_insert)
  then show ?case using Suc by (auto simp: Let_def split: sum.split prod.split)
qed simp

lemma trim_space_mal [simp]: "trim_space ''mal'' = ''mal''"
  by (rule trim_space_all_plain) (simp add: plain_ascii)

lemma sync_success:
  assumes "SyncEpisodesByMALID E malID title db = (Inr (animeID, slug, is), db')"
  obtains q eps where "0 < malID" "row_by fst (''mal'', format_int malID) (cdExtAnime db) = Some q" "animeID = snd q"
    "slug \<noteq> []" "\<exists>i a. i < 15 \<and> trim_space a = slug \<and> syAnime E i slug = Inr malID"
    "svc_UpsertHiAnimeEpisodes (syUuid E) (syUpsert E) (syRows E) (syIds E) animeID slug (to_pb_episodes eps) db = (Inr is, db')"
proof -
  obtain t where t: "0 < malID" "query_title E malID title = Inr t"
    using assms by (auto simp: SyncEpisodesByMALID_def split: if_splits sum.splits)
  obtain an where an: "svc_ResolveAnimeIDByExternalID (syResolve E) ''mal'' (format_int malID) db = Inr an"
    using assms t by (auto simp: SyncEpisodesByMALID_def split: sum.splits)
  obtain res where res: "sySearch E t = Inr res" "\<not> (shStatus res \<noteq> 200 \<or> shAnimes res = [])"
    using assms t an by (auto simp: SyncEpisodesByMALID_def split: sum.splits if_splits)
  let ?s = "find_slug (syAnime E) malID (enumerate 0 (shAnimes res))"
  obtain eps where eps: "?s \<noteq> []" "syEpisodes E ?s = Inr eps"
    using assms t an res by (auto simp: SyncEpisodesByMALID_def Let_def split: sum.splits if_splits)
  obtain r db1 where up: "svc_UpsertHiAnimeEpisodes (syUuid E) (syUpsert E) (syRows E) (syIds E) an ?s (to_pb_episodes eps) db = (r, db1)"
    by (cases "svc_UpsertHiAnimeEpisodes (syUuid E) (syUpsert E) (syRows E) (syIds E) an ?s (to_pb_episodes eps) db")
  have eq: "animeID = an" "slug = ?s" "r = Inr is" "db1 = db'"
    using assms t an res eps up by (cases r; auto simp: SyncEpisodesByMALID_def Let_def)+
  have "ResolveAnimeIDByExternalID (syResolve E) ''mal'' (format_int malID) db = Inr an"
    using an by (simp add: svc_ResolveAnimeIDByExternalID_def Let_def split: if_splits)
  then obtain q where q: "row_by fst (''mal'', format_int malID) (cdExtAnime db) = Some q" "an = snd q"
    by (auto simp: ResolveAnimeIDByExternalID_def split: if_splits option.splits)
  have v: "\<exists>i a. i < 15 \<and> trim_space a = ?s \<and> syAnime E i ?s = Inr malID" using find_slug_sound [OF eps(1)] by auto
  show ?thesis
    by (rule that [of q eps]) (use t(1) q eps(1) v up eq in simp_all)
qed

lemma jikan_job_success:
  assumes "jikan_sync_job E malID st = (True, st')" "jbJikan E malID = Inr d"
  obtains i db where "svc_UpsertJikanAnime (jbUpsert E) (jbIds E) (Some (AnimeDataToProto d)) (igDb st) = (Inr i, db)" "jbPublished E"
    "st' = st\<lparr>igDb := db, igJobs := (if jbStored E then igJobs st @ [(''ingestion.hianime.sync'', malID)] else igJobs st)\<rparr>"
proof -
  obtain r db where u: "svc_UpsertJikanAnime (jbUpsert E) (jbIds E) (Some (AnimeDataToProto d)) (igDb st) = (r, db)"
    by (cases "svc_UpsertJikanAnime (jbUpsert E) (jbIds E) (Some (AnimeDataToProto d)) (igDb st)")
  show ?thesis
    using that [of _ db] assms u by (cases r) (auto simp: jikan_sync_job_def ToCatalogProto_def split: if_splits)
qed

text \<open>A synchronisation that succeeds binds its slug to the anime its number is bound to.\<close>

lemma sync_binds:
  assumes "catalog_inv db" "SyncEpisodesByMALID E malID title db = (Inr (animeID, slug, is), db')"
    and "\<forall>i \<in> anime_ids db. trim_space i = i \<and> syUuid E i = Some i"
  shows "row_by fst (''mal'', format_int malID) (cdExtAnime db) = Some ((''mal'', format_int malID), animeID)"
    and "row_by fst (''mal'', format_int malID) (cdExtAnime db') = Some ((''mal'', format_int malID), animeID)"
    and "row_by fst (''hianime'', slug) (cdExtAnime db') = Some ((''hianime'', slug), animeID)"
    and "\<exists>i. i < 15 \<and> syAnime E i slug = Inr malID"
proof -
  obtain q eps where s: "0 < malID" "row_by fst (''mal'', format_int malID) (cdExtAnime db) = Some q" "animeID = snd q"
    "slug \<noteq> []" "\<exists>i a. i < 15 \<and> trim_space a = slug \<and> syAnime E i slug = Inr malID"
    "svc_UpsertHiAnimeEpisodes (syUuid E) (syUpsert E) (syRows E) (syIds E) animeID slug (to_pb_episodes eps) db = (Inr is, db')"
    using sync_success [OF assms(2)] by metis
  have q: "q \<in> set (cdExtAnime db)" "fst q = (''mal'', format_int malID)" using row_by_Some [OF s(2)] by auto
  have an: "animeID \<in> anime_ids db" using assms(1) q(1) s(3) by (auto simp: catalog_inv_def)
  have tr: "trim_space slug = slug" "trim_space animeID = animeID" "syUuid E animeID = Some animeID" using s(5) assms(3) an by auto
  obtain peps where "UpsertHiAnimeEpisodes (syUuid E) (syUpsert E) (syRows E) (syIds E) animeID slug peps db = (Inr is, db')"
    using s(6) tr by (auto simp: svc_UpsertHiAnimeEpisodes_def Let_def split: if_splits)
  from episodes_success [OF this] have x: "cdExtAnime db' = upsert_ext (''hianime'', slug) animeID (cdExtAnime db)" using tr by auto
  have "q = ((''mal'', format_int malID), animeID)" using q(2) s(3) by (metis prod.collapse)
  then show "row_by fst (''mal'', format_int malID) (cdExtAnime db) = Some ((''mal'', format_int malID), animeID)" using s(2) by simp
  then show "row_by fst (''mal'', format_int malID) (cdExtAnime db') = Some ((''mal'', format_int malID), animeID)"
    "row_by fst (''hianime'', slug) (cdExtAnime db') = Some ((''hianime'', slug), animeID)" using x by (simp_all add: upsert_ext_lookup)
  show "\<exists>i. i < 15 \<and> syAnime E i slug = Inr malID" using s(5) by blast
qed

section \<open>Properties\<close>


definition demo_anime :: anime_data where
  "demo_anime = \<lparr>adMalID = 7, adTitle = ''T'', adTitleEnglish = [], adTitleJapanese = [], adSynopsis = [], adType = [], adStatus = [],
     adEpisodes = 1, adScore = 0, adGenres = [], adImage = []\<rparr>"

definition demo_sync :: sync_env where
  "demo_sync = \<lparr>syJikan = Some (\<lambda>_. Inr demo_anime), sySearch = (\<lambda>_. Inr \<lparr>shStatus = 200, shAnimes = [''x'', ''t'']\<rparr>),
     syAnime = (\<lambda>_ a. if a = ''t'' then Inr 7 else Inr 8),
     syEpisodes = (\<lambda>_. Inr [\<lparr>ppEpisodeID = ''e'', ppNumber = 1, ppTitle = ''E'', ppIsFiller = False\<rparr>]),
     syUuid = Some, syResolve = calm 2 [], syUpsert = calm 2 [], syRows = (\<lambda>_. calm 2 []), syIds = (\<lambda>i. if i = 0 then ''e1'' else ''o2'')\<rparr>"

definition demo_job :: job_env where
  "demo_job = \<lparr>jbWait = True, jbJikan = (\<lambda>_. Inr demo_anime), jbUpsert = calm 1 [], jbIds = (\<lambda>i. if i = 0 then ''a1'' else ''o1''),
     jbStored = True, jbPublished = True, jbHiaWait = True, jbSync = demo_sync\<rparr>"

lemma trim_space_short: "s \<in> {''a1'', ''e'', ''x'', ''t'', ''T'', ''E''} \<Longrightarrow> trim_space s = s"
  by (rule trim_space_all_plain) (auto simp: plain_ascii)

lemmas demo_trim = trim_space_short [of "''a1''", simplified] trim_space_short [of "''e''", simplified] trim_space_short [of "''x''", simplified]
  trim_space_short [of "''t''", simplified] trim_space_short [of "''T''", simplified] trim_space_short [of "''E''", simplified]


end
