(* ===== verification/Bff_Guards.thy ===== *)
theory Bff_Guards
  imports Complex_Main Keyset Api
begin

text \<open>
  Two guards of the gateway: the token-bucket rate limiter (services/bff/internal/http/ratelimit.go) and the response cache
  (services/bff/internal/handlers/cache.go). Token counts are exact rationals where the code has \<open>float64\<close>; the clock of the limiter is
  Go's monotonic clock, so times do not go back. \<open>mem_*\<close> maps stand for Go maps under their mutex.
\<close>

section \<open>The rate limiter\<close>

record bucket =
  bkTokens :: rat
  bkLast :: time

record rate_limiter =
  rlBuckets :: "string \<rightharpoonup> bucket"
  rlRate :: rat
  rlBurst :: int

definition NewRateLimiter :: "rat \<Rightarrow> int \<Rightarrow> rate_limiter" where
  "NewRateLimiter rate burst = \<lparr>rlBuckets = Map.empty, rlRate = rate, rlBurst = burst\<rparr>"

definition seconds :: "int \<Rightarrow> rat" where
  "seconds d = of_int d / 1000000000"

definition allow :: "time \<Rightarrow> string \<Rightarrow> rate_limiter \<Rightarrow> bool \<times> rate_limiter" where
  "allow t key rl =
     (let b = (case rlBuckets rl key of None \<Rightarrow> \<lparr>bkTokens = of_int (rlBurst rl), bkLast = t\<rparr> | Some b \<Rightarrow> b);
          elapsed = seconds (t - bkLast b);
          tokens = bkTokens b + elapsed * rlRate rl;
          tokens = (if tokens > of_int (rlBurst rl) then of_int (rlBurst rl) else tokens)
      in if tokens < 1 then (False, rl\<lparr>rlBuckets := (rlBuckets rl)(key \<mapsto> \<lparr>bkTokens = tokens, bkLast = t\<rparr>)\<rparr>)
         else (True, rl\<lparr>rlBuckets := (rlBuckets rl)(key \<mapsto> \<lparr>bkTokens = tokens - 1, bkLast = t\<rparr>)\<rparr>))"

text \<open>The middleware, with the address, the forwarding header and the request identifier of a request.\<close>

definition rate_middleware ::
  "(rate_limiter \<Rightarrow> 'b response) \<Rightarrow> time \<Rightarrow> string \<Rightarrow> string \<Rightarrow> string \<Rightarrow> rate_limiter \<Rightarrow> 'b response \<times> rate_limiter" where
  "rate_middleware nxt t remoteAddr forwardedFor rid rl =
     (let ip = (if forwardedFor \<noteq> [] then forwardedFor else remoteAddr)
      in (case allow t ip rl of
            (False, rl') \<Rightarrow> (RateLimited ''RATE_LIMITED'' ''Too many requests'' rid None, rl')
          | (True, rl') \<Rightarrow> (nxt rl', rl')))"

text \<open>A sequence of requests: how many of one key are let through.\<close>

fun allowed :: "string \<Rightarrow> (time \<times> string) list \<Rightarrow> rate_limiter \<Rightarrow> nat" where
  "allowed k [] rl = 0"
| "allowed k ((t, key) # rs) rl = (let (ok, rl') = allow t key rl in (if ok \<and> key = k then 1 else 0) + allowed k rs rl')"

text \<open>What a request leaves in the bucket of its key: what was there and what flowed in since, at most the burst, less the token it took.\<close>

lemma allow_frame: "rlRate (snd (allow t key rl)) = rlRate rl" "rlBurst (snd (allow t key rl)) = rlBurst rl"
  "k \<noteq> key \<Longrightarrow> rlBuckets (snd (allow t key rl)) k = rlBuckets rl k"
  by (simp_all add: allow_def Let_def)

definition refilled :: "time \<Rightarrow> string \<Rightarrow> rate_limiter \<Rightarrow> rat" where
  "refilled t key rl = (case rlBuckets rl key of None \<Rightarrow> of_int (rlBurst rl)
     | Some b \<Rightarrow> min (of_int (rlBurst rl)) (bkTokens b + seconds (t - bkLast b) * rlRate rl))"

lemma allow_bucket:
  assumes "allow t key rl = (ok, rl')"
  shows "rlBuckets rl' key = Some \<lparr>bkTokens = refilled t key rl - (if ok then 1 else 0), bkLast = t\<rparr>" "ok \<longleftrightarrow> 1 \<le> refilled t key rl"
  using assms by (auto simp: allow_def Let_def refilled_def seconds_def min_def split: if_splits option.splits)

lemma seconds_nonneg: "0 \<le> d \<Longrightarrow> 0 \<le> seconds d"
  by (simp add: seconds_def)

lemma seconds_add: "seconds a + seconds b = seconds (a + b)"
  by (simp add: seconds_def add_divide_distrib)

text \<open>From a bucket last touched at \<open>s\<close> on, the tokens and what flows in until the last request pay for every request let through.\<close>

lemma allowed_paid:
  assumes "0 \<le> rlRate rl" "0 \<le> rlBurst rl" "sorted (s # map fst rs)" "rlBuckets rl k = Some \<lparr>bkTokens = n, bkLast = s\<rparr>" "0 \<le> n"
  shows "of_nat (allowed k rs rl) \<le> n + seconds (last (s # map fst rs) - s) * rlRate rl"
  using assms
proof (induction rs arbitrary: rl s n)
  case Nil
  then show ?case by (simp add: seconds_def)
next
  case (Cons r rs)
  obtain t key where r: "r = (t, key)" by (cases r)
  obtain ok rl' where a: "allow t key rl = (ok, rl')" by (cases "allow t key rl")
  have keep: "rlRate rl' = rlRate rl" "rlBurst rl' = rlBurst rl" using allow_frame(1,2) [of t key rl] a by simp_all
  have ord: "s \<le> t" "sorted (t # map fst rs)" "sorted (s # map fst rs)" using Cons.prems(3) r by auto
  let ?l = "last (t # map fst rs)"
  show ?case
  proof (cases "key = k")
    case True
    let ?n = "refilled t key rl" and ?d = "if ok then 1 else 0 :: rat"
    have rf: "?n = min (of_int (rlBurst rl)) (n + seconds (t - s) * rlRate rl)" using Cons.prems(4) True by (simp add: refilled_def)
    have "0 \<le> seconds (t - s) * rlRate rl" using seconds_nonneg [of "t - s"] ord(1) Cons.prems(1) by simp
    then have "0 \<le> ?n" using rf Cons.prems(2,5) by (simp add: min_def)
    then have "0 \<le> ?n - ?d" using allow_bucket(2) [OF a] by simp
    then have "of_nat (allowed k rs rl') \<le> (?n - ?d) + seconds (?l - t) * rlRate rl'"
      using Cons.IH [of rl' t "?n - ?d"] allow_bucket(1) [OF a] Cons.prems(1,2) keep ord(2) True by simp
    moreover have "?n \<le> n + seconds (t - s) * rlRate rl" using rf by simp
    moreover have "seconds (t - s) * rlRate rl + seconds (?l - t) * rlRate rl = seconds (?l - s) * rlRate rl"
      by (simp add: distrib_right [symmetric] seconds_add)
    ultimately have "of_nat (allowed k rs rl') + ?d \<le> n + seconds (?l - s) * rlRate rl" using keep(1) by simp
    then show ?thesis using r a True by (cases ok) (simp_all add: add.commute)
  next
    case False
    have "rlBuckets rl' k = Some \<lparr>bkTokens = n, bkLast = s\<rparr>"
      using allow_frame(3) [where k = k and key = key and t = t and rl = rl] a False Cons.prems(4) by simp
    then have "of_nat (allowed k rs rl') \<le> n + seconds (last (s # map fst rs) - s) * rlRate rl"
      using Cons.IH [of rl' s n] Cons.prems(1,2,5) keep ord(3) by simp
    moreover have "seconds (last (s # map fst rs) - s) * rlRate rl \<le> seconds (?l - s) * rlRate rl"
      using Cons.prems(1) ord by (intro mult_right_mono) (auto simp: seconds_def divide_right_mono)
    ultimately show ?thesis using r a False by auto
  qed
qed

lemma allowed_from_empty:
  assumes "0 \<le> rlRate rl" "0 \<le> rlBurst rl" "sorted (map fst rs)" "rlBuckets rl k = None"
  shows "of_nat (allowed k rs rl) \<le> of_int (rlBurst rl) + seconds (last (0 # map fst rs) - hd (map fst rs @ [0])) * rlRate rl"
  using assms
proof (induction rs arbitrary: rl)
  case Nil
  then show ?case by (simp add: seconds_def)
next
  case (Cons r rs)
  obtain t key where r: "r = (t, key)" by (cases r)
  obtain ok rl' where a: "allow t key rl = (ok, rl')" by (cases "allow t key rl")
  have keep: "rlRate rl' = rlRate rl" "rlBurst rl' = rlBurst rl" using allow_frame(1,2) [of t key rl] a by simp_all
  let ?l = "last (t # map fst rs)"
  have tl: "sorted (t # map fst rs)" using Cons.prems(3) r by auto
  show ?case
  proof (cases "key = k")
    case True
    let ?d = "if ok then 1 else 0 :: rat"
    have rf: "refilled t key rl = of_int (rlBurst rl)" using Cons.prems(4) True by (simp add: refilled_def)
    then have "0 \<le> of_int (rlBurst rl) - ?d" using allow_bucket(2) [OF a] Cons.prems(2) by simp
    then have "of_nat (allowed k rs rl') \<le> (of_int (rlBurst rl) - ?d) + seconds (?l - t) * rlRate rl'"
      using allowed_paid [of rl' t rs k "of_int (rlBurst rl) - ?d"] allow_bucket(1) [OF a] rf keep Cons.prems(1,2) tl True by simp
    then show ?thesis using r a True keep(1) by (cases ok) (simp_all add: add.commute)
  next
    case False
    have "rlBuckets rl' k = None" using allow_frame(3) [where k = k and key = key and t = t and rl = rl] a False Cons.prems(4) by simp
    then have ih: "of_nat (allowed k rs rl') \<le> of_int (rlBurst rl) + seconds (last (0 # map fst rs) - hd (map fst rs @ [0])) * rlRate rl"
      using Cons.IH [of rl'] Cons.prems keep by simp
    have "seconds (last (0 # map fst rs) - hd (map fst rs @ [0])) * rlRate rl \<le> seconds (?l - t) * rlRate rl"
      using Cons.prems(1) tl by (cases rs) (auto intro!: mult_right_mono simp: seconds_def divide_right_mono)
    then show ?thesis using ih r a False by auto
  qed
qed

section \<open>The response cache\<close>

record 'v cacheItem =
  ciVal :: 'v
  expiresAt :: time

record 'v ttl_cache =
  items :: "string \<rightharpoonup> 'v cacheItem"
  ttl :: int

definition NewTTLCache :: "int \<Rightarrow> 'v ttl_cache" where
  "NewTTLCache ttlSec = (let ttlSec = (if ttlSec \<le> 0 then 60 else ttlSec) in \<lparr>items = Map.empty, ttl = ttlSec * 1000000000\<rparr>)"

text \<open>The subscription's callback: an empty key or, in any case of letters, ALL drops everything.\<close>

definition cache_invalidate :: "string \<Rightarrow> 'v ttl_cache \<Rightarrow> 'v ttl_cache" where
  "cache_invalidate key c =
     (if key = [] \<or> equal_fold key ''ALL'' then c\<lparr>items := Map.empty\<rparr> else c\<lparr>items := (items c)(key := None)\<rparr>)"

text \<open>
  Get releases the lock between its two looks at the map: \<open>between\<close> is what the other goroutines do to the cache there, and \<open>t1\<close> and \<open>t2\<close> are
  the two clock readings.
\<close>

definition cache_get ::
  "time \<Rightarrow> time \<Rightarrow> ('v ttl_cache \<Rightarrow> 'v ttl_cache) \<Rightarrow> string \<Rightarrow> 'v ttl_cache \<Rightarrow> 'v option \<times> 'v ttl_cache" where
  "cache_get t1 t2 between key c =
     (case items c key of
        None \<Rightarrow> (None, between c)
      | Some it \<Rightarrow>
          if t1 > expiresAt it
          then (let c = between c in
                (None, (case items c key of
                          Some cur \<Rightarrow> if t2 > expiresAt cur then c\<lparr>items := (items c)(key := None)\<rparr> else c
                        | None \<Rightarrow> c)))
          else (Some (ciVal it), between c))"

definition cache_set :: "time \<Rightarrow> string \<Rightarrow> 'v \<Rightarrow> 'v ttl_cache \<Rightarrow> 'v ttl_cache" where
  "cache_set t key v c = c\<lparr>items := (items c)(key \<mapsto> \<lparr>ciVal = v, expiresAt = t + ttl c\<rparr>)\<rparr>"

text \<open>
  A history of the cache, newest step first: the sections that run under the write lock, in the order they take it, with their times. The
  eviction step is the second section of a Get that saw a stale entry.
\<close>

datatype 'v cache_step = StepSet string 'v | StepEvict string | StepInvalidate string

definition cache_evict :: "time \<Rightarrow> string \<Rightarrow> 'v ttl_cache \<Rightarrow> 'v ttl_cache" where
  "cache_evict t key c = snd (cache_get (expiresAt (the (items c key)) + 1) t id key c)"

fun cache_after :: "int \<Rightarrow> (time \<times> 'v cache_step) list \<Rightarrow> 'v ttl_cache" where
  "cache_after ttlSec [] = NewTTLCache ttlSec"
| "cache_after ttlSec ((t, StepSet k v) # h) = cache_set t k v (cache_after ttlSec h)"
| "cache_after ttlSec ((t, StepEvict k) # h) = cache_evict t k (cache_after ttlSec h)"
| "cache_after ttlSec ((t, StepInvalidate k) # h) = cache_invalidate k (cache_after ttlSec h)"

text \<open>What a history makes visible: the last value set, unless it is too old or an invalidation that covers the key came after it.\<close>

definition covers :: "string \<Rightarrow> string \<Rightarrow> bool" where
  "covers k key \<longleftrightarrow> k = [] \<or> equal_fold k ''ALL'' \<or> k = key"

fun visible :: "int \<Rightarrow> string \<Rightarrow> (time \<times> 'v cache_step) list \<Rightarrow> time \<Rightarrow> 'v option" where
  "visible d key [] t = None"
| "visible d key ((s, StepSet k v) # h) t = (if k = key then if t \<le> s + d then Some v else None else visible d key h t)"
| "visible d key ((s, StepEvict k) # h) t = visible d key h t"
| "visible d key ((s, StepInvalidate k) # h) t = (if covers k key then None else visible d key h t)"

definition cache_look :: "time \<Rightarrow> string \<Rightarrow> 'v ttl_cache \<Rightarrow> 'v option" where
  "cache_look t key c = (case items c key of Some it \<Rightarrow> if t > expiresAt it then None else Some (ciVal it) | None \<Rightarrow> None)"

lemma cache_get_look: "fst (cache_get t t' f key c) = cache_look t key c"
  by (simp add: cache_get_def cache_look_def Let_def split: option.split)

lemma cache_evict_items:
  "items (cache_evict t key c) = (items c)(key := (case items c key of Some cur \<Rightarrow> if t > expiresAt cur then None else Some cur | None \<Rightarrow> None))"
  "ttl (cache_evict t key c) = ttl c"
  by (auto simp: cache_evict_def cache_get_def Let_def fun_eq_iff split: option.split)

lemma cache_look_simps [simp]:
  "cache_look t key (cache_set s k v c) = (if k = key then if t \<le> s + ttl c then Some v else None else cache_look t key c)"
  "cache_look t key (cache_invalidate k c) = (if covers k key then None else cache_look t key c)"
  "s \<le> t \<Longrightarrow> cache_look t key (cache_evict s k c) = cache_look t key c"
  by (auto simp: cache_look_def cache_set_def cache_invalidate_def covers_def cache_evict_items split: option.split)

definition cache_ttl :: "int \<Rightarrow> int" where
  "cache_ttl ttlSec = (if ttlSec \<le> 0 then 60 else ttlSec) * 1000000000"

lemma ttl_after: "ttl (cache_after ttlSec h) = cache_ttl ttlSec"
  by (induction ttlSec h rule: cache_after.induct)
    (simp_all add: NewTTLCache_def Let_def cache_ttl_def cache_set_def cache_evict_items cache_invalidate_def)

lemma cache_look_after:
  "\<forall>s\<in>set (map fst h). s \<le> t \<Longrightarrow> cache_look t key (cache_after ttlSec h) = visible (cache_ttl ttlSec) key h t"
proof (induction ttlSec h rule: cache_after.induct)
  case (1 ttlSec)
  show ?case by (simp add: NewTTLCache_def Let_def cache_look_def)
qed (simp_all add: ttl_after)

section \<open>Properties\<close>

text \<open>
  The rate limiter keeps its promise over any run of requests of any clients, in the order of their times: of the requests of one client,
  starting from an empty limiter, at most the burst plus what the rate adds between the first and the last request of the run are let through.
\<close>

theorem rate_limit_bound:
  assumes "0 \<le> rate" "0 \<le> burst" "sorted (map fst rs)" "rs \<noteq> []"
  shows "of_nat (allowed k rs (NewRateLimiter rate burst)) \<le> of_int burst + seconds (fst (last rs) - fst (hd rs)) * rate"
  using allowed_from_empty [of "NewRateLimiter rate burst" rs k] assms
  by (simp add: NewRateLimiter_def last_map hd_map split: if_splits)

theorem rate_limit_bound_witness:
  "allowed ''a'' [(0, ''a''), (0, ''a''), (0, ''b''), (0, ''a''), (500000000, ''a'')] (NewRateLimiter 2 2) = 3 \<and>
   of_nat (allowed ''a'' [(0, ''a''), (0, ''a''), (0, ''b''), (0, ''a''), (500000000, ''a'')] (NewRateLimiter 2 2)) \<le> (3 :: rat)"
  using rate_limit_bound [of 2 2 "[(0, ''a''), (0, ''a''), (0, ''b''), (0, ''a''), (500000000, ''a'')]" "''a''"]
  by (simp add: NewRateLimiter_def allow_def seconds_def Let_def)



end
