(* ===== verification/Catalog_Outbox.thy ===== *)
theory Catalog_Outbox
  imports Catalog
begin

text \<open>
  The outbox publisher of the catalog (services/catalog/internal/outbox). One flush locks a batch of unpublished events, sends them to
  the stream asynchronously, waits for every acknowledgement and only then marks the batch. The stream is the list of the messages it
  stored; the environment of a flush says which sends fail, which messages are stored, which acknowledgements arrive, and which rows another publisher holds.
\<close>

section \<open>The publisher\<close>

record flush_env =
  feCtx :: ctx
  fePubErr :: "nat \<Rightarrow> bool"
  feStored :: "nat \<Rightarrow> bool"
  feAcked :: "nat \<Rightarrow> bool"
  feLocked :: "uuid \<Rightarrow> bool"

type_synonym message = "string \<times> string"

definition message_of :: "outbox_row \<Rightarrow> message" where
  "message_of r = (obEventType r, obAnimeID r)"

definition pending :: "catalog_db \<Rightarrow> outbox_row list" where
  "pending db = sort_key obCreatedAt (filter (\<lambda>r. obPublishedAt r = None) (cdOutbox db))"

text \<open>\<open>ORDER BY created_at LIMIT n FOR UPDATE SKIP LOCKED\<close>\<close>

definition select_batch :: "flush_env \<Rightarrow> nat \<Rightarrow> catalog_db \<Rightarrow> outbox_row list" where
  "select_batch E n db = take n (filter (\<lambda>r. \<not> feLocked E (obID r)) (pending db))"

text \<open>The loop of \<open>PublishAsync\<close>: an error ends it, what was sent before stays sent.\<close>

fun publish_all :: "flush_env \<Rightarrow> (nat \<times> outbox_row) list \<Rightarrow> message list \<Rightarrow> bool \<times> message list" where
  "publish_all E [] st = (True, st)"
| "publish_all E ((i, r) # rs) st =
     (if fePubErr E i then (False, st) else publish_all E rs (if feStored E i then st @ [message_of r] else st))"

definition mark_published :: "time \<Rightarrow> uuid list \<Rightarrow> catalog_db \<Rightarrow> catalog_db" where
  "mark_published t ids db =
     db\<lparr>cdOutbox := fst (sql_update (\<lambda>r. obID r \<in> set ids) (\<lambda>r. r\<lparr>obPublishedAt := Some (pg_time t)\<rparr>) (cdOutbox db))\<rparr>"

text \<open>Begin (statement 0), select (1), update (2), commit (3).\<close>

definition flushOnce :: "flush_env \<Rightarrow> nat \<Rightarrow> catalog_db \<times> message list \<Rightarrow> bool \<times> catalog_db \<times> message list" where
  "flushOnce E n s =
     (let (db, st) = s; x = feCtx E
      in if fault x 0 \<or> fault x 1 then (False, db, st)
         else
           let items = select_batch E n db
           in if items = [] then (True, db, st)
              else
                (case publish_all E (enumerate 0 items) st of
                   (False, st1) \<Rightarrow> (False, db, st1)
                 | (True, st1) \<Rightarrow>
                     if \<exists>i < length items. \<not> feAcked E i then (False, db, st1)
                     else if fault x 2 \<or> fault x 3 then (False, db, st1)
                     else (True, mark_published (now x) (map obID items) db, st1)))"

section \<open>Runs: writes and flushes\<close>

datatype catalog_step = Write catalog_op | Flush flush_env nat

fun catalog_run :: "(string \<Rightarrow> uuid option) \<Rightarrow> catalog_step list \<Rightarrow> catalog_db \<times> message list \<Rightarrow> catalog_db \<times> message list" where
  "catalog_run uuid_of [] s = s"
| "catalog_run uuid_of (Write op # ss) s = catalog_run uuid_of ss (exec_catalog uuid_of op (fst s), snd s)"
| "catalog_run uuid_of (Flush E n # ss) s = catalog_run uuid_of ss (snd (flushOnce E n s))"

text \<open>An acknowledgement is for a message the stream has stored.\<close>

fun honest :: "catalog_step \<Rightarrow> bool" where
  "honest (Flush E n) \<longleftrightarrow> (\<forall>i. feAcked E i \<longrightarrow> feStored E i)"
| "honest (Write op) \<longleftrightarrow> True"

definition delivered :: "catalog_db \<times> message list \<Rightarrow> bool" where
  "delivered s \<longleftrightarrow> (\<forall>r \<in> set (cdOutbox (fst s)). obPublishedAt r \<noteq> None \<longrightarrow> message_of r \<in> set (snd s))"

lemma publish_all_grows: "set st \<subseteq> set (snd (publish_all E rs st))"
proof (induction rs arbitrary: st)
  case (Cons r rs)
  obtain i q where "r = (i, q)" by (cases r)
  then show ?case using Cons [of st] Cons [of "st @ [message_of q]"] by auto
qed simp

lemma publish_all_stored:
  "publish_all E rs st = (True, st') \<Longrightarrow> (i, r) \<in> set rs \<Longrightarrow> feStored E i \<Longrightarrow> message_of r \<in> set st'"
proof (induction rs arbitrary: st)
  case (Cons q rs)
  obtain j p where q: "q = (j, p)" by (cases q)
  show ?case
  proof (cases "(i, r) = q")
    case True
    then show ?thesis using Cons.prems q publish_all_grows [of "st @ [message_of p]" E rs] by (auto split: if_splits)
  next
    case False
    then show ?thesis using Cons.prems q by (auto intro: Cons.IH split: if_splits)
  qed
qed simp

lemma write_outbox: "\<exists>rs. cdOutbox (exec_catalog uuid_of op db) = cdOutbox db @ rs \<and> (\<forall>r \<in> set rs. obPublishedAt r = None)"
proof -
  have j: "\<exists>rs. cdOutbox (snd (UpsertJikanAnime x ids a db)) = cdOutbox db @ rs \<and> (\<forall>r \<in> set rs. obPublishedAt r = None)" for x ids a
    using catalog_write_announced_jikan [of x ids a db] by (auto simp: event_row_def)
  have h: "\<exists>rs. cdOutbox (snd (UpsertHiAnimeEpisodes uuid_of x ys ids an s eps db)) = cdOutbox db @ rs \<and> (\<forall>r \<in> set rs. obPublishedAt r = None)"
    for x ys ids an s eps
    using catalog_write_announced_episodes [of uuid_of x ys ids an s eps db] by (auto simp: event_row_def)
  show ?thesis
    by (cases op) (auto simp: svc_UpsertJikanAnime_def svc_UpsertHiAnimeEpisodes_def svc_AttachExternalAnimeID_def AttachExternalAnimeID_def
        Let_def j h split: option.splits)
qed

lemma flush_cases:
  obtains (kept) ok st1 where "flushOnce E n (db, st) = (ok, db, st1)" "set st \<subseteq> set st1"
  | (marked) st1 where "flushOnce E n (db, st) = (True, mark_published (now (feCtx E)) (map obID (select_batch E n db)) db, st1)"
      "publish_all E (enumerate 0 (select_batch E n db)) st = (True, st1)" "\<forall>i < length (select_batch E n db). feAcked E i"
proof -
  obtain ok st1 where p: "publish_all E (enumerate 0 (select_batch E n db)) st = (ok, st1)"
    by (cases "publish_all E (enumerate 0 (select_batch E n db)) st")
  have g: "set st \<subseteq> set st1" using publish_all_grows [of st E "enumerate 0 (select_batch E n db)"] p by simp
  have "(\<exists>ok' st'. flushOnce E n (db, st) = (ok', db, st') \<and> set st \<subseteq> set st') \<or>
      flushOnce E n (db, st) = (True, mark_published (now (feCtx E)) (map obID (select_batch E n db)) db, st1) \<and>
        publish_all E (enumerate 0 (select_batch E n db)) st = (True, st1) \<and> (\<forall>i < length (select_batch E n db). feAcked E i)"
    using p g by (cases ok) (auto simp: flushOnce_def Let_def)
  then show thesis
  proof (elim disjE exE conjE)
    fix ok' st' assume "flushOnce E n (db, st) = (ok', db, st')" "set st \<subseteq> set st'"
    then show thesis by (rule kept)
  qed (rule marked)
qed

lemma mark_published_row:
  assumes "r \<in> set (cdOutbox (mark_published t ids db))"
  shows "\<exists>q \<in> set (cdOutbox db). obID r = obID q \<and> message_of r = message_of q \<and> obCreatedAt r = obCreatedAt q \<and>
    (obPublishedAt r = obPublishedAt q \<or> obID q \<in> set ids)"
  using assms by (auto simp: mark_published_def sql_update_def message_of_def intro: bexI split: if_splits)

lemma batch_rows: "q \<in> set (select_batch E n db) \<Longrightarrow> q \<in> set (cdOutbox db) \<and> obPublishedAt q = None"
  by (auto simp: select_batch_def pending_def dest: in_set_takeD)

lemma flush_delivered:
  assumes "\<forall>i. feAcked E i \<longrightarrow> feStored E i" "distinct (map obID (cdOutbox db))" "delivered (db, st)"
  shows "delivered (snd (flushOnce E n (db, st))) \<and> map obID (cdOutbox (fst (snd (flushOnce E n (db, st))))) = map obID (cdOutbox db)"
proof (cases rule: flush_cases [of E n db st])
  case (kept ok st1)
  then show ?thesis using assms(3) by (auto simp: delivered_def)
next
  case (marked st1)
  let ?b = "select_batch E n db"
  have sent: "message_of q \<in> set st1" if q: "q \<in> set ?b" for q
  proof -
    obtain i where i: "i < length ?b" "?b ! i = q" using q by (auto simp: in_set_conv_nth)
    then have "(i, q) \<in> set (enumerate 0 ?b)" by (auto simp: in_set_enumerate_eq)
    then show ?thesis using publish_all_stored [OF marked(2)] marked(3) assms(1) i(1) by blast
  qed
  have grow: "set st \<subseteq> set st1" using publish_all_grows [of st E "enumerate 0 ?b"] marked(2) by simp
  have "message_of r \<in> set st1" if r: "r \<in> set (cdOutbox (mark_published (now (feCtx E)) (map obID ?b) db))" "obPublishedAt r \<noteq> None" for r
  proof -
    obtain q where q: "q \<in> set (cdOutbox db)" "obID r = obID q" "message_of r = message_of q" "obPublishedAt r = obPublishedAt q \<or> obID q \<in> obID ` set ?b"
      using mark_published_row [OF r(1)] by auto
    show ?thesis
    proof (cases "obID q \<in> obID ` set ?b")
      case True
      then obtain p where p: "p \<in> set ?b" "obID p = obID q" by auto
      then have "p = q" using batch_rows [OF p(1)] q(1) assms(2) by (metis distinct_map inj_on_def)
      then show ?thesis using sent [OF p(1)] q(3) by simp
    next
      case False
      then show ?thesis using q assms(3) r(2) grow by (auto simp: delivered_def)
    qed
  qed
  moreover have "map obID (cdOutbox (mark_published (now (feCtx E)) (map obID ?b) db)) = map obID (cdOutbox db)"
    by (simp add: mark_published_def sql_update_keys)
  ultimately show ?thesis using marked(1) by (auto simp: delivered_def)
qed

text \<open>The identifiers of outbox rows are unique, along every run.\<close>

lemma insertOutboxEvent_distinct:
  "insertOutboxEvent x i a db = Some db' \<Longrightarrow> distinct (map obID (cdOutbox db)) \<Longrightarrow> distinct (map obID (cdOutbox db'))"
  by (auto simp: insertOutboxEvent_def split: if_splits)

lemma write_distinct:
  assumes "distinct (map obID (cdOutbox db))"
  shows "distinct (map obID (cdOutbox (exec_catalog uuid_of op db)))"
proof -
  have j: "distinct (map obID (cdOutbox (snd (UpsertJikanAnime x ids a db))))" for x ids a
    using assms by (auto simp: UpsertJikanAnime_def split: sum.splits option.splits dest!: insertOutboxEvent_distinct dest: jikan_write_frame(1))
  have h: "distinct (map obID (cdOutbox (snd (UpsertHiAnimeEpisodes uuid_of x ys ids an s eps db))))" for x ys ids an s eps
    using assms
    by (auto simp: UpsertHiAnimeEpisodes_def split: sum.splits option.splits dest!: insertOutboxEvent_distinct dest: upsertEpisodes_frame)
  show ?thesis
    using assms by (cases op) (auto simp: svc_UpsertJikanAnime_def svc_UpsertHiAnimeEpisodes_def svc_AttachExternalAnimeID_def
        AttachExternalAnimeID_def Let_def j h split: option.splits)
qed

lemma run_delivered:
  "distinct (map obID (cdOutbox (fst s))) \<Longrightarrow> delivered s \<Longrightarrow> \<forall>t \<in> set ss. honest t \<Longrightarrow> delivered (catalog_run uuid_of ss s)"
proof (induction uuid_of ss s rule: catalog_run.induct)
  case (2 uuid_of op ss s)
  have "delivered (exec_catalog uuid_of op (fst s), snd s)"
    using "2.prems"(2) write_outbox [of uuid_of op "fst s"] by (auto simp: delivered_def)
  then show ?case using 2 write_distinct by simp
next
  case (3 uuid_of E n ss s)
  obtain db st where s: "s = (db, st)" by (cases s)
  have "delivered (snd (flushOnce E n (db, st))) \<and> map obID (cdOutbox (fst (snd (flushOnce E n (db, st))))) = map obID (cdOutbox db)"
    by (rule flush_delivered) (use 3 s in auto)
  then show ?case using 3 s by simp
qed simp

section \<open>Properties\<close>

text \<open>
  C12. No announcement is lost: along every run of writes and flushes, failing ones included, an outbox event that is marked as published
  is in the stream.
\<close>

theorem outbox_no_loss:
  assumes "\<forall>t \<in> set ss. honest t" "catalog_run uuid_of ss (empty_catalog, []) = (db, st)" "r \<in> set (cdOutbox db)" "obPublishedAt r \<noteq> None"
  shows "message_of r \<in> set st"
  using run_delivered [of "(empty_catalog, [])" ss uuid_of] assms by (auto simp: delivered_def empty_catalog_def)

text \<open>A flush with nothing in its way.\<close>

definition calm_flush :: "time \<Rightarrow> flush_env" where
  "calm_flush t = \<lparr>feCtx = calm t [], fePubErr = (\<lambda>_. False), feStored = (\<lambda>_. True), feAcked = (\<lambda>_. True), feLocked = (\<lambda>_. False)\<rparr>"

theorem outbox_no_loss_witness:
  "\<exists>db st. catalog_run Some [Write (CJikan (calm 1 []) (\<lambda>i. if i = 0 then ''a1'' else ''o1'') (Some (demo_jikan ''t''))), Flush (calm_flush 5) 100]
       (empty_catalog, []) = (db, st) \<and>
     (\<forall>r \<in> set (cdOutbox db). obPublishedAt r \<noteq> None \<longrightarrow> message_of r \<in> set st)"
proof -
  let ?ss = "[Write (CJikan (calm 1 []) (\<lambda>i. if i = 0 then ''a1'' else ''o1'') (Some (demo_jikan ''t''))), Flush (calm_flush 5) 100]"
  obtain db st where r: "catalog_run Some ?ss (empty_catalog, []) = (db, st)" by (cases "catalog_run Some ?ss (empty_catalog, [])")
  have h: "\<forall>t \<in> set ?ss. honest t" by (simp add: calm_flush_def)
  have "\<forall>r \<in> set (cdOutbox db). obPublishedAt r \<noteq> None \<longrightarrow> message_of r \<in> set st" using outbox_no_loss [OF h r] by blast
  with r show ?thesis by (intro exI conjI)
qed

lemma publish_all_calm: "publish_all (calm_flush t) rs st = (True, st @ map (\<lambda>p. message_of (snd p)) rs)"
  by (induction rs arbitrary: st) (auto simp: calm_flush_def)

lemma snd_enumerate: "map (\<lambda>p. f (snd p)) (enumerate n xs) = map f xs"
  by (induction xs arbitrary: n) auto

lemma filter_unmarked:
  "map (\<lambda>r. if hit r then r\<lparr>obPublishedAt := Some v\<rparr> else r)
     (filter (\<lambda>r. obPublishedAt (if hit r then r\<lparr>obPublishedAt := Some v\<rparr> else r) = None) rows) =
   filter (\<lambda>r. \<not> hit r) (filter (\<lambda>r. obPublishedAt r = None) rows)"
  by (induction rows) auto

text \<open>A calm flush sends the oldest events in order and leaves the rest pending.\<close>

lemma calm_flush_step:
  assumes "distinct (map obID (cdOutbox db))" "pending db \<noteq> []" "0 < n"
  shows "\<exists>db'. flushOnce (calm_flush t) n (db, st) = (True, db', st @ map message_of (take n (pending db))) \<and>
     pending db' = drop n (pending db) \<and> distinct (map obID (cdOutbox db'))"
proof -
  let ?b = "take n (pending db)" and ?m = "mark_published t (map obID (take n (pending db))) db"
  have b: "select_batch (calm_flush t) n db = ?b" by (simp add: select_batch_def calm_flush_def)
  have f: "flushOnce (calm_flush t) n (db, st) = (True, ?m, st @ map message_of ?b)"
    using assms(2,3) by (simp add: flushOnce_def b publish_all_calm snd_enumerate Let_def) (simp add: calm_flush_def)
  let ?u = "\<lambda>r. obPublishedAt r = None" and ?hit = "\<lambda>r. obID r \<in> obID ` set ?b"
  have "filter ?u (cdOutbox ?m) = filter (\<lambda>r. \<not> ?hit r) (filter ?u (cdOutbox db))"
    by (simp add: mark_published_def sql_update_def filter_map comp_def filter_unmarked)
  then have "pending ?m = filter (\<lambda>r. \<not> ?hit r) (pending db)" by (simp add: pending_def filter_sort)
  also have "\<dots> = drop n (pending db)"
  proof -
    have d: "distinct (map obID (pending db))"
      using assms(1) distinct_map_filter [of obID "cdOutbox db"] by (simp add: pending_def distinct_map)
    have "set (map obID ?b) \<inter> set (map obID (drop n (pending db))) = {}"
      using d by (metis append_take_drop_id distinct_append map_append)
    then have 1: "filter (\<lambda>r. \<not> ?hit r) (drop n (pending db)) = drop n (pending db)" "filter (\<lambda>r. \<not> ?hit r) ?b = []"
      by (auto simp: filter_id_conv filter_empty_conv)
    have "filter (\<lambda>r. \<not> ?hit r) (?b @ drop n (pending db)) = drop n (pending db)" unfolding filter_append 1 by simp
    then show ?thesis by (simp only: append_take_drop_id)
  qed
  finally have "pending ?m = drop n (pending db)" .
  moreover have "distinct (map obID (cdOutbox ?m))" using assms(1) by (simp add: mark_published_def sql_update_keys)
  ultimately show ?thesis using f by blast
qed

fun flushes :: "nat \<Rightarrow> time \<Rightarrow> nat \<Rightarrow> catalog_db \<times> message list \<Rightarrow> catalog_db \<times> message list" where
  "flushes 0 t n s = s"
| "flushes (Suc k) t n s = flushes k t n (snd (flushOnce (calm_flush t) n s))"

lemma outbox_drains_lemma:
  assumes "distinct (map obID (cdOutbox db))" "0 < n" "length (pending db) \<le> k * n"
  shows "\<exists>db'. flushes k t n (db, st) = (db', st @ map message_of (pending db)) \<and> pending db' = []"
  using assms
proof (induction k arbitrary: db st)
  case (Suc k)
  show ?case
  proof (cases "pending db = []")
    case True
    have "flushOnce (calm_flush t) n (db, st) = (True, db, st)" using True by (simp add: flushOnce_def select_batch_def calm_flush_def Let_def)
    then show ?thesis using Suc.IH [OF Suc.prems(1,2)] True by simp
  next
    case False
    from calm_flush_step [OF Suc.prems(1) this Suc.prems(2)] obtain db1 where 1:
      "flushOnce (calm_flush t) n (db, st) = (True, db1, st @ map message_of (take n (pending db)))"
      "pending db1 = drop n (pending db)" "distinct (map obID (cdOutbox db1))" by blast
    have "length (pending db1) \<le> k * n" using 1(2) Suc.prems(3) by simp
    from Suc.IH [OF 1(3) Suc.prems(2) this, of "st @ map message_of (take n (pending db))"] obtain db' where
      "flushes k t n (db1, st @ map message_of (take n (pending db))) =
        (db', (st @ map message_of (take n (pending db))) @ map message_of (drop n (pending db)))" "pending db' = []"
      unfolding 1(2) by blast
    then show ?thesis using 1(1) by (simp add: map_append [symmetric] del: map_append)
  qed
qed simp

text \<open>
  The outbox drains: when nothing fails, as many flushes as there are full batches deliver every pending event, in the order of
  creation and each exactly once, and leave nothing pending.
\<close>

theorem outbox_drains:
  assumes "distinct (map obID (cdOutbox db))" "0 < n" "length (pending db) \<le> k * n"
  shows "\<exists>db'. flushes k t n (db, st) = (db', st @ map message_of (pending db)) \<and> pending db' = []"
  by (rule outbox_drains_lemma [OF assms])

theorem outbox_drains_witness:
  "\<exists>db'. flushes 2 7 1 (empty_catalog\<lparr>cdOutbox := [event_row ''o1'' ''a'' 2000, event_row ''o2'' ''b'' 1000]\<rparr>, []) =
     (db', [(''catalog.anime.upserted'', ''b''), (''catalog.anime.upserted'', ''a'')]) \<and> pending db' = []"
proof -
  let ?db = "empty_catalog\<lparr>cdOutbox := [event_row ''o1'' ''a'' 2000, event_row ''o2'' ''b'' 1000]\<rparr>"
  have p: "pending ?db = [event_row ''o2'' ''b'' 1000, event_row ''o1'' ''a'' 2000]"
    by (simp add: pending_def event_row_def pg_time_def)
  have "\<exists>db'. flushes 2 7 1 (?db, []) = (db', [] @ map message_of (pending ?db)) \<and> pending db' = []"
    by (rule outbox_drains) (simp_all add: p, simp add: event_row_def)
  then show ?thesis unfolding p by (simp add: message_of_def event_row_def)
qed

end
