(* ===== verification/Search.thy ===== *)
theory Search
  imports Catalog_Outbox
begin

text \<open>
  The search service: the indexer that follows the catalog's events (services/search/internal/indexer), and the query side
  (services/search/internal/grpcapi). The search engine is a document store keyed by \<open>anime_id\<close>; whether a call to it succeeds is part
  of the environment. A document has the columns of the catalog's response, so it is the same record.
\<close>

section \<open>The indexer\<close>

type_synonym index = "string \<rightharpoonup> anime"

text \<open>
  The environment of one message: the catalog call is \<open>ixCatalog\<close>, \<open>ixAdd\<close> says whether adding the document succeeds, \<open>ixDecode\<close> reads the
  payload.
\<close>

record index_env =
  ixUuid :: "string \<Rightarrow> uuid option"
  ixCatalog :: ctx
  ixAdd :: bool

definition doc_of :: "anime \<Rightarrow> anime" where
  "doc_of a = a\<lparr>anURL := [], anSubOrDub := [], anOtherName := []\<rparr>"

definition indexAnime :: "index_env \<Rightarrow> string \<Rightarrow> catalog_db \<Rightarrow> index \<Rightarrow> bool \<times> index" where
  "indexAnime E animeID db idx =
     (case svc_GetAnimeByIDs (ixUuid E) (ixCatalog E) [animeID] db of
        Inl e \<Rightarrow> (False, idx)
      | Inr [] \<Rightarrow> (True, idx)
      | Inr (a # _) \<Rightarrow> if ixAdd E then (True, idx(anID a \<mapsto> doc_of a)) else (False, idx))"

text \<open>\<open>payload\<close> is the \<open>anime_id\<close> of the decoded message, \<open>None\<close> when it does not decode.\<close>

definition index_handleMsg :: "index_env \<Rightarrow> string option \<Rightarrow> catalog_db \<Rightarrow> index \<Rightarrow> bool \<times> index" where
  "index_handleMsg E payload db idx =
     (case payload of
        None \<Rightarrow> (False, idx)
      | Some p \<Rightarrow> let animeID = trim_space p in if animeID = [] then (False, idx) else indexAnime E animeID db idx)"

text \<open>The loop over fetched messages: a message that fails is negatively acknowledged and stays to be delivered again.\<close>

fun index_loop :: "(nat \<Rightarrow> index_env) \<Rightarrow> (nat \<times> message) list \<Rightarrow> catalog_db \<Rightarrow> index \<Rightarrow> message list \<times> index" where
  "index_loop Es [] db idx = ([], idx)"
| "index_loop Es ((i, m) # ms') db idx =
     (let (ok, idx1) = index_handleMsg (Es i) (Some (snd m)) db idx;
          (naks, idx2) = index_loop Es ms' db idx1
      in (if ok then naks else m # naks, idx2))"

fun index_all :: "(nat \<Rightarrow> index_env) \<Rightarrow> (nat \<times> string) list \<Rightarrow> catalog_db \<Rightarrow> index \<Rightarrow> bool \<times> index" where
  "index_all Es [] db idx = (True, idx)"
| "index_all Es ((i, a) # as) db idx =
     (case indexAnime (Es i) a db idx of
        (False, idx1) \<Rightarrow> (False, idx1)
      | (True, idx1) \<Rightarrow> index_all Es as db idx1)"

definition ReindexAll :: "ctx \<Rightarrow> (nat \<Rightarrow> index_env) \<Rightarrow> catalog_db \<Rightarrow> index \<Rightarrow> bool \<times> index" where
  "ReindexAll x Es db idx =
     (case svc_GetAnimeIDs x db of
        Inl e \<Rightarrow> (False, idx)
      | Inr ids \<Rightarrow> index_all Es (enumerate 0 ids) db idx)"

section \<open>Queries\<close>

record search_request =
  srQuery :: string
  srLimit :: i32
  srOffset :: i32
  srGenres :: "string list"
  srStatus :: string
  srType :: string
  srMinScore :: i32
  srMaxScore :: i32

text \<open>
  What the query side needs of \<open>float32\<close>: the comparison with 0 and the format \<open>%.2f\<close>, as parameters on the bit patterns.
\<close>

record float_lib =
  flPositive :: "i32 \<Rightarrow> bool"
  flFormat2 :: "i32 \<Rightarrow> string"

definition trim_right_char :: "char \<Rightarrow> string \<Rightarrow> string" where
  "trim_right_char c s = rev (dropWhile (\<lambda>x. x = c) (rev s))"

definition formatFloat :: "float_lib \<Rightarrow> i32 \<Rightarrow> string" where
  "formatFloat F v = trim_right_char CHR ''.'' (trim_right_char CHR ''0'' (flFormat2 F v))"

definition quote_value :: "string \<Rightarrow> string" where
  "quote_value v = CHR 0x22 # v @ [CHR 0x22]"

definition buildFilters :: "float_lib \<Rightarrow> search_request \<Rightarrow> string" where
  "buildFilters F req =
     (let vals = map (\<lambda>g. ''genres = '' @ quote_value g) (filter (\<lambda>g. g \<noteq> []) (map trim_space (srGenres req)));
          status = trim_space (srStatus req); type = trim_space (srType req)
      in join '' AND ''
           ((if vals \<noteq> [] then [''('' @ join '' OR '' vals @ '')''] else []) @
            (if status \<noteq> [] then [''status = '' @ quote_value status] else []) @
            (if type \<noteq> [] then [''type = '' @ quote_value type] else []) @
            (if flPositive F (srMinScore req) then [''score >= '' @ formatFloat F (srMinScore req)] else []) @
            (if flPositive F (srMaxScore req) then [''score <= '' @ formatFloat F (srMaxScore req)] else [])))"

record search_payload =
  spQ :: string
  spLimit :: i32
  spOffset :: i32
  spFilter :: "string option"

definition search_payload_of :: "float_lib \<Rightarrow> search_request \<Rightarrow> search_payload" where
  "search_payload_of F req =
     (let filters = buildFilters F req
      in \<lparr>spQ = trim_space (srQuery req),
          spLimit = (if sint (srLimit req) \<le> 0 \<or> sint (srLimit req) > 100 then 25 else srLimit req),
          spOffset = (if sint (srOffset req) < 0 then 0 else srOffset req),
          spFilter = (if filters \<noteq> [] then Some filters else None)\<rparr>)"

text \<open>
  \<open>engine\<close> is the search engine: the hits (\<open>None\<close> for one that does not decode) and its estimate of their number, an \<open>int\<close> that the
  response cuts to 32 bits; or an error.
\<close>

definition SearchAnime ::
  "float_lib \<Rightarrow> (search_payload \<Rightarrow> (anime option list \<times> int) option) \<Rightarrow> search_request \<Rightarrow> grpc_status + anime list \<times> i32" where
  "SearchAnime F engine req =
     (case engine (search_payload_of F req) of
        None \<Rightarrow> Inl (status_Error InternalCode ''search backend'')
      | Some (hits, est) \<Rightarrow> Inr (map doc_of (List.map_filter id hits), word_of_int est))"

section \<open>The index follows the catalog\<close>

definition fresh_doc :: "catalog_db \<Rightarrow> index \<Rightarrow> string \<Rightarrow> bool" where
  "fresh_doc db idx i \<longleftrightarrow>
     (case row_by (\<lambda>r. anID (arAnime r)) i (cdAnime db) of None \<Rightarrow> True | Some r \<Rightarrow> idx i = Some (doc_of (arAnime r)))"

definition calm_index :: "index_env \<Rightarrow> bool" where
  "calm_index E \<longleftrightarrow> \<not> fault (ixCatalog E) 0 \<and> ixAdd E"

lemma doc_of_idem [simp]: "doc_of (doc_of a) = doc_of a" "anID (doc_of a) = anID a"
  by (simp_all add: doc_of_def)

lemma filter_key: "distinct (map key rows) \<Longrightarrow> filter (\<lambda>r. key r = k) rows = (case row_by key k rows of None \<Rightarrow> [] | Some r \<Rightarrow> [r])"
proof (induction rows)
  case (Cons a rows)
  then show ?case
  proof (cases "key a = k")
    case True
    then have "row_by key k rows = None" using Cons.prems by (simp add: row_by_None)
    then show ?thesis using True Cons by simp
  qed simp
qed simp

lemma indexAnime_calm:
  assumes "distinct (map (\<lambda>r. anID (arAnime r)) (cdAnime db))" "calm_index E" "ixUuid E i = Some k"
  shows "indexAnime E i db idx =
    (True, case row_by (\<lambda>r. anID (arAnime r)) k (cdAnime db) of None \<Rightarrow> idx | Some r \<Rightarrow> idx(k \<mapsto> doc_of (arAnime r)))"
proof -
  let ?id = "\<lambda>r. anID (arAnime r)"
  have "svc_GetAnimeByIDs (ixUuid E) (ixCatalog E) [i] db = Inr (map (\<lambda>r. doc_of (arAnime r)) (filter (\<lambda>r. ?id r = k) (cdAnime db)))"
    using assms(2,3) by (simp add: svc_GetAnimeByIDs_def GetAnimeByIDs_def uuid_array_def calm_index_def doc_of_def)
  then have g: "svc_GetAnimeByIDs (ixUuid E) (ixCatalog E) [i] db =
      Inr (case row_by ?id k (cdAnime db) of None \<Rightarrow> [] | Some r \<Rightarrow> [doc_of (arAnime r)])"
    by (simp add: filter_key [OF assms(1)] split: option.split)
  show ?thesis
  proof (cases "row_by ?id k (cdAnime db)")
    case None
    then show ?thesis using g by (simp add: indexAnime_def)
  next
    case (Some r)
    then have "?id r = k" using row_by_Some [of ?id k "cdAnime db" r] by blast
    then show ?thesis using g Some assms(2) by (simp add: indexAnime_def calm_index_def)
  qed
qed

text \<open>Indexing never makes a document stale: it writes what the catalog has.\<close>

lemma indexAnime_keeps_fresh:
  assumes "distinct (map (\<lambda>r. anID (arAnime r)) (cdAnime db))" "fresh_doc db idx j" "indexAnime E i db idx = (ok, idx')"
  shows "fresh_doc db idx' j"
proof (cases "ok \<and> idx' \<noteq> idx")
  case True
  then obtain k a where k: "idx' = idx(anID a \<mapsto> doc_of a)" "a \<in> set (case svc_GetAnimeByIDs (ixUuid E) (ixCatalog E) [i] db of Inl _ \<Rightarrow> [] | Inr l \<Rightarrow> l)"
    using assms(3) by (auto simp: indexAnime_def split: sum.splits list.splits if_splits)
  then obtain r where r: "r \<in> set (cdAnime db)" "a = doc_of (arAnime r)"
    by (auto simp: svc_GetAnimeByIDs_def GetAnimeByIDs_def doc_of_def split: if_splits option.splits)
  have "row_by (\<lambda>r. anID (arAnime r)) (anID (arAnime r)) (cdAnime db) = Some r" using row_by_mem [OF assms(1) r(1)] .
  then show ?thesis using assms(2) k(1) r(2) by (cases "j = anID (arAnime r)") (simp_all add: fresh_doc_def split: option.splits)
next
  case False
  then have "idx' = idx" using assms(3) by (auto simp: indexAnime_def split: sum.splits list.splits if_splits)
  then show ?thesis using assms(2) by simp
qed

lemma loop_keeps_fresh:
  assumes "distinct (map (\<lambda>r. anID (arAnime r)) (cdAnime db))"
  shows "fresh_doc db idx j \<Longrightarrow> fresh_doc db (snd (index_loop Es msgs db idx)) j"
proof (induction msgs arbitrary: idx)
  case (Cons p msgs)
  obtain i m where p: "p = (i, m)" by (cases p)
  obtain ok idx1 where h: "index_handleMsg (Es i) (Some (snd m)) db idx = (ok, idx1)" by (cases "index_handleMsg (Es i) (Some (snd m)) db idx")
  have "fresh_doc db idx1 j"
    using h Cons.prems indexAnime_keeps_fresh [OF assms Cons.prems] by (auto simp: index_handleMsg_def Let_def split: if_splits)
  then show ?case using Cons.IH [of idx1] h p by (auto split: prod.split)
qed simp

lemma loop_indexes:
  assumes "distinct (map (\<lambda>r. anID (arAnime r)) (cdAnime db))"
    and "\<And>i. calm_index (Es i) \<and> ixUuid (Es i) = uuid_of" "uuid_of j = Some j" "trim_space j = j" "j \<noteq> []"
  shows "(n, (sub, j)) \<in> set msgs \<Longrightarrow> fresh_doc db (snd (index_loop Es msgs db idx)) j"
proof (induction msgs arbitrary: idx)
  case (Cons p msgs)
  obtain i m where p: "p = (i, m)" by (cases p)
  obtain ok idx1 where h: "index_handleMsg (Es i) (Some (snd m)) db idx = (ok, idx1)" by (cases "index_handleMsg (Es i) (Some (snd m)) db idx")
  have s: "snd (index_loop Es (p # msgs) db idx) = snd (index_loop Es msgs db idx1)" using h p by (simp split: prod.split)
  show ?case
  proof (cases "p = (n, (sub, j))")
    case True
    have "index_handleMsg (Es i) (Some (snd m)) db idx = indexAnime (Es i) j db idx"
      using True p assms(4,5) by (simp add: index_handleMsg_def Let_def)
    then have "fresh_doc db idx1 j"
      using h indexAnime_calm [OF assms(1), of "Es i" j j idx] assms(2) [of i] assms(3) by (auto simp: fresh_doc_def split: option.splits)
    then show ?thesis unfolding s by (rule loop_keeps_fresh [OF assms(1)])
  next
    case False
    then show ?thesis unfolding s using Cons by auto
  qed
qed simp

lemma flush_anime: "cdAnime (fst (snd (flushOnce E n s))) = cdAnime (fst s)"
proof -
  obtain db st where s: "s = (db, st)" by (cases s)
  show ?thesis unfolding s by (cases rule: flush_cases [of E n db st]) (simp_all add: mark_published_def)
qed

lemma flushes_anime: "cdAnime (fst (flushes k t n s)) = cdAnime (fst s)"
  by (induction k arbitrary: s) (simp_all add: flush_anime)

section \<open>Properties\<close>

text \<open>
  C16. Search catches up with the catalog: for every anime named by an event that waits in the outbox, enough undisturbed flushes of the
  publisher and one undisturbed pass of the indexer over what the stream received leave its document equal to its row in the catalog.
\<close>

theorem search_catches_up:
  assumes "catalog_inv db" "distinct (map obID (cdOutbox db))" "0 < n" "length (pending db) \<le> k * n"
    and "\<And>i. calm_index (Es i) \<and> ixUuid (Es i) = uuid_of" "flushes k t n (db, st) = (db', st')"
    and "r \<in> set (cdAnime db)" "anID (arAnime r) = j" "e \<in> set (pending db)" "obAnimeID e = j"
    and "uuid_of j = Some j" "trim_space j = j" "j \<noteq> []"
  shows "snd (index_loop Es (enumerate 0 st') db' idx) j = Some (doc_of (arAnime r))"
proof -
  have d: "distinct (map (\<lambda>r. anID (arAnime r)) (cdAnime db'))" and a: "cdAnime db' = cdAnime db"
    using assms(1) flushes_anime [of k t n "(db, st)"] assms(6) by (simp_all add: catalog_inv_def)
  have "\<exists>db'. flushes k t n (db, st) = (db', st @ map message_of (pending db)) \<and> pending db' = []"
    by (rule outbox_drains_lemma [OF assms(2-4)])
  then have "message_of e \<in> set st'" using assms(6,9) by auto
  then obtain i where "i < length st'" "st' ! i = message_of e" by (auto simp: in_set_conv_nth)
  then have "(i, (obEventType e, j)) \<in> set (enumerate 0 st')" using assms(10) by (auto simp: in_set_enumerate_eq message_of_def)
  from loop_indexes [where idx = idx, OF d assms(5) assms(11-13) this] have "fresh_doc db' (snd (index_loop Es (enumerate 0 st') db' idx)) j" .
  then show ?thesis using row_by_mem [OF d, of r] assms(7,8) by (simp add: fresh_doc_def a)
qed

definition demo_index :: index_env where
  "demo_index = \<lparr>ixUuid = Some, ixCatalog = calm 0 [], ixAdd = True\<rparr>"

definition demo_catalog :: catalog_db where
  "demo_catalog = empty_catalog\<lparr>cdAnime := [jikan_row ''a'' 0 (demo_jikan ''t'')], cdOutbox := [event_row ''o1'' ''a'' 2000]\<rparr>"

theorem search_catches_up_witness:
  "\<exists>db' st'. flushes 1 5 100 (demo_catalog, []) = (db', st') \<and>
     snd (index_loop (\<lambda>_. demo_index) (enumerate 0 st') db' Map.empty) ''a'' = Some (doc_of (arAnime (jikan_row ''a'' 0 (demo_jikan ''t''))))"
proof -
  obtain db' st' where f: "flushes 1 5 100 (demo_catalog, []) = (db', st')" by (cases "flushes 1 5 100 (demo_catalog, [])")
  have p: "pending demo_catalog = [event_row ''o1'' ''a'' 2000]" by (simp add: pending_def demo_catalog_def event_row_def)
  have t: "trim_space ''a'' = ''a''" by code_simp
  have "snd (index_loop (\<lambda>_. demo_index) (enumerate 0 st') db' Map.empty) ''a'' = Some (doc_of (arAnime (jikan_row ''a'' 0 (demo_jikan ''t''))))"
    by (rule search_catches_up [where uuid_of = Some and e = "event_row ''o1'' ''a'' 2000" and db = demo_catalog and n = 100 and k = 1, OF _ _ _ _ _ f])
      (simp_all add: p t calm_index_def demo_index_def, simp_all add: demo_catalog_def catalog_inv_def empty_catalog_def event_row_def jikan_row_def)
  with f show ?thesis by (intro exI conjI)
qed

text \<open>A query never leaves its bounds.\<close>

lemma search_request_bounded:
  "1 \<le> sint (spLimit (search_payload_of F req)) \<and> sint (spLimit (search_payload_of F req)) \<le> 100 \<and> 0 \<le> sint (spOffset (search_payload_of F req))"
  by (simp add: search_payload_of_def Let_def)

text \<open>
  A filter value is quoted, not escaped: a genre with a quotation mark in it ends its own value and adds a condition.
\<close>

lemma filter_injection:
  "buildFilters F \<lparr>srQuery = [], srLimit = 0, srOffset = 0, srGenres = [], srStatus = [], srType = ''a'' @ CHR 0x22 # '' OR status = '' @ CHR 0x22 # ''b'',
     srMinScore = 0, srMaxScore = 0\<rparr> =
   buildFilters F \<lparr>srQuery = [], srLimit = 0, srOffset = 0, srGenres = [], srStatus = [], srType = ''a'', srMinScore = 0, srMaxScore = 0\<rparr> @
   '' OR status = '' @ quote_value ''b''" if "\<not> flPositive F 0"
proof -
  have "trim_space (''a'' @ CHR 0x22 # '' OR status = '' @ CHR 0x22 # ''b'') = ''a'' @ CHR 0x22 # '' OR status = '' @ CHR 0x22 # ''b''"
    "trim_space ''a'' = ''a''" by code_simp+
  with that show ?thesis by (simp add: buildFilters_def quote_value_def)
qed

end
