(* ===== verification/Bff_Social.thy ===== *)
theory Bff_Social
  imports "HOL-Library.AList" Social_Consumer Social_Service Hls_Signing
begin

text \<open>
  The gateway's comment and rating endpoints (services/bff/internal/handlers: comments.go, ratings.go, request.go, pubsub.go). A comment write
  goes to the social service directly, or, when asynchronous writes are on, becomes an event for the consumer of that service. A payload
  is the list of its JSON members; \<open>puEncode\<close> is \<open>json.Marshal\<close> of it.
\<close>

section \<open>Events\<close>

datatype jval = JStr string | JInt int

type_synonym payload = "(string \<times> jval) list"

definition readAsyncWritesFromEnv :: "string \<Rightarrow> bool" where
  "readAsyncWritesFromEnv env =
     (let v = trim_space env
      in if v = [] then True else let v = to_lower v in v \<noteq> ''0'' \<and> v \<noteq> ''false'' \<and> v \<noteq> ''no'')"

record event_publisher =
  epJs :: bool
  epAsyncWrites :: bool

definition NewEventPublisher :: "bool \<Rightarrow> string \<Rightarrow> event_publisher" where
  "NewEventPublisher js env = \<lparr>epJs = js, epAsyncWrites = readAsyncWritesFromEnv env\<rparr>"

definition Enabled :: "event_publisher option \<Rightarrow> bool" where
  "Enabled p = (case p of None \<Rightarrow> False | Some p \<Rightarrow> epJs p \<and> epAsyncWrites p)"

text \<open>\<open>puStored\<close>: the event is in the stream; \<open>puAcked\<close>: the acknowledgement came back.\<close>

record publish_env =
  puEventID :: string
  puCreatedAt :: string
  puEncode :: "payload \<Rightarrow> string option"
  puStored :: bool
  puAcked :: bool

definition jset :: "string \<Rightarrow> jval \<Rightarrow> payload \<Rightarrow> payload" where
  "jset k v p = AList.update k v p"

definition event_payload :: "publish_env \<Rightarrow> payload \<Rightarrow> payload" where
  "event_payload E payload =
     (let payload = jset ''event_id'' (JStr (puEventID E)) payload
      in if map_of payload ''created_at'' = None then jset ''created_at'' (JStr (puCreatedAt E)) payload else payload)"

definition PublishJSON :: "event_publisher option \<Rightarrow> publish_env \<Rightarrow> string \<Rightarrow> payload \<Rightarrow> msg list \<Rightarrow> (unit + string) \<times> msg list" where
  "PublishJSON p E subject payload st =
     (if \<not> Enabled p then (Inl (), st)
      else
        (case puEncode E (event_payload E payload) of
           None \<Rightarrow> (Inl (), st)
         | Some body \<Rightarrow>
             (if puAcked E then Inr (puEventID E) else Inl (), if puStored E then st @ [\<lparr>mSubject = subject, mData = body\<rparr>] else st)))"

section \<open>Handlers\<close>

type_synonym 'b reply = "headers \<times> 'b response"

text \<open>The state behind the endpoints: the social service's tables and the event stream.\<close>

record ('s, 'r) social_world =
  swComments :: 's
  swRatings :: 'r
  swStream :: "msg list"

definition withUserMD :: "auth_ctx \<Rightarrow> metadata option" where
  "withUserMD c =
     (case ctxUserID c of
        None \<Rightarrow> None
      | Some uid \<Rightarrow> if trim_space uid = [] then None else Some (Some (\<lambda>k. if k = ''user_id'' then [uid] else [])))"

definition user_of :: "auth_ctx \<Rightarrow> string" where
  "user_of c = (case ctxUserID c of None \<Rightarrow> [] | Some uid \<Rightarrow> uid)"

text \<open>\<open>None\<close> when the publisher is off.\<close>

definition tryPublishAsync ::
  "string \<Rightarrow> string \<Rightarrow> payload \<Rightarrow> event_publisher option \<Rightarrow> publish_env \<Rightarrow> msg list \<Rightarrow> ('b reply \<times> msg list) option" where
  "tryPublishAsync rid subject payload p E st =
     (if \<not> Enabled p then None
      else
        (case PublishJSON p E subject payload st of
           (Inl _, st) \<Rightarrow> Some (([], WriteError 503 ''EVENT_PUBLISH_FAILED'' ''failed to publish event'' rid None), st)
         | (Inr eventID, st) \<Rightarrow> Some ((header_set ''X-Event-ID'' eventID [], WriteHeader 202), st)))"

definition plain_reply :: "'b response \<Rightarrow> 'b reply" where
  "plain_reply r = ([], r)"

text \<open>\<open>req\<close> is the decoded body, \<open>None\<close> when it does not decode.\<close>

definition bff_CreateComment ::
  "('s, 'r) social_service \<Rightarrow> event_publisher option \<Rightarrow> publish_env \<Rightarrow> ctx \<Rightarrow> auth_ctx \<Rightarrow> string \<Rightarrow> string \<Rightarrow> (string \<times> string option) option \<Rightarrow>
   ('s, 'r) social_world \<Rightarrow> pb_comment reply \<times> ('s, 'r) social_world" where
  "bff_CreateComment sv p E x c rid param req w =
     (case withUserMD c of
        None \<Rightarrow> (plain_reply (Unauthorized ''AUTH_MISSING'' ''Missing auth'' rid), w)
      | Some md \<Rightarrow>
          let animeID = trim_space param
          in if animeID = [] then (plain_reply (BadRequest ''MISSING_ID'' ''anime_id is required'' rid None), w)
             else
               (case req of
                  None \<Rightarrow> (plain_reply (BadRequest ''INVALID_JSON'' ''Invalid JSON'' rid None), w)
                | Some (body, parentID) \<Rightarrow>
                    let payload = [(''user_id'', JStr (user_of c)), (''anime_id'', JStr animeID), (''body'', JStr body)] @
                          (case parentID of None \<Rightarrow> [] | Some q \<Rightarrow> [(''parent_id'', JStr q)])
                    in (case tryPublishAsync rid ''social.comments.create'' payload p E (swStream w) of
                          Some (r, st) \<Rightarrow> (r, w\<lparr>swStream := st\<rparr>)
                        | None \<Rightarrow>
                            (case CreateComment sv x md animeID body parentID (swComments w) of
                               (Inl e, s) \<Rightarrow> (plain_reply (writeGRPCError rid (Some e)), w\<lparr>swComments := s\<rparr>)
                             | (Inr pb, s) \<Rightarrow> (plain_reply (WriteJSON 201 pb), w\<lparr>swComments := s\<rparr>)))))"

definition bff_limit :: "string \<Rightarrow> i32" where
  "bff_limit v =
     (if v = [] then 50
      else (case parse_int v of None \<Rightarrow> 50 | Some n \<Rightarrow> if n > 0 \<and> n \<le> 100 then word_of_int n else 50))"

definition bff_ListComments ::
  "('s, 'r) social_service \<Rightarrow> ctx \<Rightarrow> string \<Rightarrow> string \<Rightarrow> string \<Rightarrow> string \<Rightarrow> string \<Rightarrow> 's \<Rightarrow> (pb_node list \<times> string) response" where
  "bff_ListComments sv x rid param sortq limitq cursorq s =
     (let animeID = trim_space param
      in if animeID = [] then BadRequest ''MISSING_ID'' ''anime_id is required'' rid None
         else
           (case ListComments sv x animeID (to_lower (trim_space sortq)) (bff_limit limitq) (trim_space cursorq) s of
              Inl e \<Rightarrow> writeGRPCError rid (Some e)
            | Inr resp \<Rightarrow> WriteJSON 200 resp))"

text \<open>
  What the three other writes share: the user, the identifier, the body, the event, and otherwise the call; \<open>payload\<close> and \<open>call\<close> take the
  decoded body.
\<close>

definition comment_write ::
  "(string \<Rightarrow> 'q \<Rightarrow> payload) \<Rightarrow> string \<Rightarrow> (metadata \<Rightarrow> string \<Rightarrow> 'q \<Rightarrow> 's \<Rightarrow> (grpc_status + unit) \<times> 's) \<Rightarrow> event_publisher option \<Rightarrow> publish_env \<Rightarrow> auth_ctx \<Rightarrow>
   string \<Rightarrow> string \<Rightarrow> 'q option \<Rightarrow> ('s, 'r) social_world \<Rightarrow> unit reply \<times> ('s, 'r) social_world" where
  "comment_write payload subject call p E c rid param req w =
     (case withUserMD c of
        None \<Rightarrow> (plain_reply (Unauthorized ''AUTH_MISSING'' ''Missing auth'' rid), w)
      | Some md \<Rightarrow>
          let commentID = trim_space param
          in if commentID = [] then (plain_reply (BadRequest ''MISSING_ID'' ''comment_id is required'' rid None), w)
             else
               (case req of
                  None \<Rightarrow> (plain_reply (BadRequest ''INVALID_JSON'' ''Invalid JSON'' rid None), w)
                | Some q \<Rightarrow>
                    (case tryPublishAsync rid subject (payload commentID q) p E (swStream w) of
                       Some (r, st) \<Rightarrow> (r, w\<lparr>swStream := st\<rparr>)
                     | None \<Rightarrow>
                         (case call md commentID q (swComments w) of
                            (Inl e, s) \<Rightarrow> (plain_reply (writeGRPCError rid (Some e)), w\<lparr>swComments := s\<rparr>)
                          | (Inr _, s) \<Rightarrow> (plain_reply (WriteHeader 204), w\<lparr>swComments := s\<rparr>)))))"

definition bff_VoteComment ::
  "('s, 'r) social_service \<Rightarrow> event_publisher option \<Rightarrow> publish_env \<Rightarrow> ctx \<Rightarrow> auth_ctx \<Rightarrow> string \<Rightarrow> string \<Rightarrow> i32 option \<Rightarrow>
   ('s, 'r) social_world \<Rightarrow> unit reply \<times> ('s, 'r) social_world" where
  "bff_VoteComment sv p E x c =
     comment_write (\<lambda>commentID vote. [(''user_id'', JStr (user_of c)), (''comment_id'', JStr commentID), (''vote'', JInt (sint vote))])
       ''social.comments.vote'' (\<lambda>md commentID vote. VoteComment sv x md commentID vote) p E c"

definition bff_UpdateComment ::
  "('s, 'r) social_service \<Rightarrow> event_publisher option \<Rightarrow> publish_env \<Rightarrow> ctx \<Rightarrow> auth_ctx \<Rightarrow> string \<Rightarrow> string \<Rightarrow> string option \<Rightarrow>
   ('s, 'r) social_world \<Rightarrow> unit reply \<times> ('s, 'r) social_world" where
  "bff_UpdateComment sv p E x c =
     comment_write (\<lambda>commentID body. [(''user_id'', JStr (user_of c)), (''comment_id'', JStr commentID), (''body'', JStr body)])
       ''social.comments.update'' (\<lambda>md commentID body. UpdateComment sv x md commentID body) p E c"

definition bff_DeleteComment ::
  "('s, 'r) social_service \<Rightarrow> event_publisher option \<Rightarrow> publish_env \<Rightarrow> ctx \<Rightarrow> auth_ctx \<Rightarrow> string \<Rightarrow> string \<Rightarrow>
   ('s, 'r) social_world \<Rightarrow> unit reply \<times> ('s, 'r) social_world" where
  "bff_DeleteComment sv p E x c rid param =
     comment_write (\<lambda>commentID _. [(''user_id'', JStr (user_of c)), (''comment_id'', JStr commentID)])
       ''social.comments.delete'' (\<lambda>md commentID _. DeleteComment sv x md commentID) p E c rid param (Some ())"

text \<open>Ratings; a response holds the identifier, average, count and the caller's own score. Without a user the call carries no metadata.\<close>

definition bff_GetRating ::
  "('s, 'r) social_service \<Rightarrow> (nat \<Rightarrow> ctx) \<Rightarrow> auth_ctx \<Rightarrow> string \<Rightarrow> string \<Rightarrow> 'r \<Rightarrow> (string \<times> rate_response) response" where
  "bff_GetRating sv xs c rid animeID r =
     (if animeID = [] then BadRequest ''MISSING_ID'' ''anime_id is required'' rid None
      else
        (case GetRating sv xs (case withUserMD c of None \<Rightarrow> None | Some md \<Rightarrow> md) animeID r of
           Inl e \<Rightarrow> writeGRPCError rid (Some e)
         | Inr resp \<Rightarrow> WriteJSON 200 (animeID, resp)))"

definition bff_RateAnime ::
  "('s, 'r) social_service \<Rightarrow> (nat \<Rightarrow> ctx) \<Rightarrow> auth_ctx \<Rightarrow> string \<Rightarrow> string \<Rightarrow> i32 option \<Rightarrow> 'r \<Rightarrow> (string \<times> rat \<times> i32) response \<times> 'r" where
  "bff_RateAnime sv xs c rid animeID req r =
     (if animeID = [] then (BadRequest ''MISSING_ID'' ''anime_id is required'' rid None, r)
      else
        (case req of
           None \<Rightarrow> (BadRequest ''INVALID_JSON'' ''Invalid JSON'' rid None, r)
         | Some score \<Rightarrow>
             (case withUserMD c of
                None \<Rightarrow> (Unauthorized ''AUTH_MISSING'' ''authentication required'' rid, r)
              | Some md \<Rightarrow>
                  (case RateAnime sv xs md animeID score r of
                     (Inl e, r) \<Rightarrow> (writeGRPCError rid (Some e), r)
                   | (Inr resp, r) \<Rightarrow> (WriteJSON 200 (animeID, rrAverage resp, rrCount resp), r)))))"

section \<open>What the consumer reads from an event\<close>

text \<open>
  \<open>json.Unmarshal\<close> of a payload into the event types: a member that is absent leaves the zero value, one of the wrong kind or out of
  the range of its field is an error.
\<close>

definition jstr :: "string \<Rightarrow> payload \<Rightarrow> string option" where
  "jstr k p = (case map_of p k of None \<Rightarrow> Some [] | Some (JStr s) \<Rightarrow> Some s | Some (JInt _) \<Rightarrow> None)"

definition jptr :: "string \<Rightarrow> payload \<Rightarrow> string option option" where
  "jptr k p = (case map_of p k of None \<Rightarrow> Some None | Some (JStr s) \<Rightarrow> Some (Some s) | Some (JInt _) \<Rightarrow> None)"

definition jint32 :: "string \<Rightarrow> payload \<Rightarrow> i32 option" where
  "jint32 k p =
     (case map_of p k of
        None \<Rightarrow> Some 0
      | Some (JInt i) \<Rightarrow> if - (2 ^ 31) \<le> i \<and> i < 2 ^ 31 then Some (word_of_int i) else None
      | Some (JStr _) \<Rightarrow> None)"

definition create_event_of :: "payload \<Rightarrow> create_event option" where
  "create_event_of p =
     (case (jstr ''event_id'' p, jstr ''user_id'' p, jstr ''anime_id'' p, jptr ''parent_id'' p, jstr ''body'' p, jstr ''created_at'' p) of
        (Some e, Some u, Some a, Some q, Some b, Some t) \<Rightarrow>
          Some \<lparr>ceEventID = e, ceUserID = u, ceAnimeID = a, ceParentID = q, ceBody = b, ceCreatedAt = t\<rparr>
      | _ \<Rightarrow> None)"

definition update_event_of :: "payload \<Rightarrow> update_event option" where
  "update_event_of p =
     (case (jstr ''event_id'' p, jstr ''user_id'' p, jstr ''comment_id'' p, jstr ''body'' p, jstr ''created_at'' p) of
        (Some e, Some u, Some c, Some b, Some t) \<Rightarrow>
          Some \<lparr>ueEventID = e, ueUserID = u, ueCommentID = c, ueBody = b, ueCreatedAt = t\<rparr>
      | _ \<Rightarrow> None)"

definition delete_event_of :: "payload \<Rightarrow> delete_event option" where
  "delete_event_of p =
     (case (jstr ''event_id'' p, jstr ''user_id'' p, jstr ''comment_id'' p, jstr ''created_at'' p) of
        (Some e, Some u, Some c, Some t) \<Rightarrow> Some \<lparr>deEventID = e, deUserID = u, deCommentID = c, deCreatedAt = t\<rparr>
      | _ \<Rightarrow> None)"

definition vote_event_of :: "payload \<Rightarrow> vote_event option" where
  "vote_event_of p =
     (case (jstr ''event_id'' p, jstr ''user_id'' p, jstr ''comment_id'' p, jint32 ''vote'' p, jstr ''created_at'' p) of
        (Some e, Some u, Some c, Some v, Some t) \<Rightarrow>
          Some \<lparr>veEventID = e, veUserID = u, veCommentID = c, veVote = v, veCreatedAt = t\<rparr>
      | _ \<Rightarrow> None)"

text \<open>Encoding never fails for these payloads, and decoding what was encoded reads its members.\<close>

definition json_law :: "publish_env \<Rightarrow> consumer_env \<Rightarrow> bool" where
  "json_law E P \<longleftrightarrow>
     (\<forall>p. \<exists>b. puEncode E p = Some b \<and> decCreate P b = create_event_of p \<and> decUpdate P b = update_event_of p \<and>
        decDelete P b = delete_event_of p \<and> decVote P b = vote_event_of p)"

text \<open>A write at the gateway, its status and the state after it.\<close>

datatype gateway_write =
    GCreate string string "string option"
  | GVote string i32
  | GUpdate string string
  | GDelete string

fun gateway ::
  "('s, 'r) social_service \<Rightarrow> event_publisher option \<Rightarrow> publish_env \<Rightarrow> ctx \<Rightarrow> auth_ctx \<Rightarrow> string \<Rightarrow> gateway_write \<Rightarrow> ('s, 'r) social_world \<Rightarrow>
   nat \<times> ('s, 'r) social_world" where
  "gateway sv p E x c rid (GCreate a b q) w = map_prod (\<lambda>r. rStatus (snd r)) id (bff_CreateComment sv p E x c rid a (Some (b, q)) w)"
| "gateway sv p E x c rid (GVote i v) w = map_prod (\<lambda>r. rStatus (snd r)) id (bff_VoteComment sv p E x c rid i (Some v) w)"
| "gateway sv p E x c rid (GUpdate i b) w = map_prod (\<lambda>r. rStatus (snd r)) id (bff_UpdateComment sv p E x c rid i (Some b) w)"
| "gateway sv p E x c rid (GDelete i) w = map_prod (\<lambda>r. rStatus (snd r)) id (bff_DeleteComment sv p E x c rid i w)"

text \<open>The message a write becomes.\<close>

fun write_payload :: "string \<Rightarrow> gateway_write \<Rightarrow> payload" where
  "write_payload u (GCreate a b q) = [(''user_id'', JStr u), (''anime_id'', JStr (trim_space a)), (''body'', JStr b)] @
     (case q of None \<Rightarrow> [] | Some q \<Rightarrow> [(''parent_id'', JStr q)])"
| "write_payload u (GVote i v) = [(''user_id'', JStr u), (''comment_id'', JStr (trim_space i)), (''vote'', JInt (sint v))]"
| "write_payload u (GUpdate i b) = [(''user_id'', JStr u), (''comment_id'', JStr (trim_space i)), (''body'', JStr b)]"
| "write_payload u (GDelete i) = [(''user_id'', JStr u), (''comment_id'', JStr (trim_space i))]"

fun write_subject :: "gateway_write \<Rightarrow> string" where
  "write_subject (GCreate _ _ _) = ''social.comments.create''"
| "write_subject (GVote _ _) = ''social.comments.vote''"
| "write_subject (GUpdate _ _) = ''social.comments.update''"
| "write_subject (GDelete _) = ''social.comments.delete''"

fun write_target :: "gateway_write \<Rightarrow> string" where
  "write_target (GCreate a _ _) = trim_space a"
| "write_target (GVote i _) = trim_space i"
| "write_target (GUpdate i _) = trim_space i"
| "write_target (GDelete i) = trim_space i"

definition write_message :: "publish_env \<Rightarrow> string \<Rightarrow> gateway_write \<Rightarrow> msg" where
  "write_message E u g = \<lparr>mSubject = write_subject g, mData = the (puEncode E (event_payload E (write_payload u g)))\<rparr>"

lemma publish_write:
  assumes "Enabled p" "puStored E" "puAcked E" "json_law E P"
  shows "tryPublishAsync rid (write_subject g) (write_payload u g) p E st =
    Some ((header_set ''X-Event-ID'' (puEventID E) [], WriteHeader 202), st @ [write_message E u g])"
proof -
  have "\<exists>b. puEncode E (event_payload E (write_payload u g)) = Some b" using assms(4) by (auto simp: json_law_def)
  then show ?thesis using assms(1-3) by (auto simp: tryPublishAsync_def PublishJSON_def write_message_def)
qed

lemma gateway_async:
  assumes "Enabled p" "puStored E" "puAcked E" "json_law E P" "ctxUserID c = Some u" "trim_space u \<noteq> []" "write_target g \<noteq> []"
  shows "gateway sv p E x c rid g w = (202, w\<lparr>swStream := swStream w @ [write_message E u g]\<rparr>)"
  using assms(5-7) publish_write [where 'a = unit, OF assms(1-4), of rid g u "swStream w"]
    publish_write [where 'a = pb_comment, OF assms(1-4), of rid g u "swStream w"]
  by (cases g) (simp_all add: bff_CreateComment_def bff_VoteComment_def bff_UpdateComment_def bff_DeleteComment_def comment_write_def
    withUserMD_def user_of_def Let_def WriteHeader_def)

text \<open>What the consumer decodes from it.\<close>

lemma message_decodes:
  assumes "json_law E P" "b = mData (write_message E u g)"
  shows "g = GCreate a body q \<Longrightarrow> decCreate P b = Some \<lparr>ceEventID = puEventID E, ceUserID = u, ceAnimeID = trim_space a, ceParentID = q, ceBody = body, ceCreatedAt = puCreatedAt E\<rparr>"
    and "g = GUpdate i body \<Longrightarrow> decUpdate P b = Some \<lparr>ueEventID = puEventID E, ueUserID = u, ueCommentID = trim_space i, ueBody = body, ueCreatedAt = puCreatedAt E\<rparr>"
    and "g = GDelete i \<Longrightarrow> decDelete P b = Some \<lparr>deEventID = puEventID E, deUserID = u, deCommentID = trim_space i, deCreatedAt = puCreatedAt E\<rparr>"
    and "g = GVote i v \<Longrightarrow> decVote P b = Some \<lparr>veEventID = puEventID E, veUserID = u, veCommentID = trim_space i, veVote = v, veCreatedAt = puCreatedAt E\<rparr>"
proof -
  obtain b' where b': "puEncode E (event_payload E (write_payload u g)) = Some b'" "decCreate P b' = create_event_of (event_payload E (write_payload u g))"
    "decUpdate P b' = update_event_of (event_payload E (write_payload u g))" "decDelete P b' = delete_event_of (event_payload E (write_payload u g))"
    "decVote P b' = vote_event_of (event_payload E (write_payload u g))" using assms(1) unfolding json_law_def by metis
  have b: "b = b'" using b'(1) assms(2) by (simp add: write_message_def)
  note defs = event_payload_def jset_def jstr_def jptr_def jint32_def update_conv Let_def
  show "decCreate P b = Some \<lparr>ceEventID = puEventID E, ceUserID = u, ceAnimeID = trim_space a, ceParentID = q, ceBody = body, ceCreatedAt = puCreatedAt E\<rparr>"
    if "g = GCreate a body q" using b b'(2) that by (cases q) (simp_all add: defs create_event_of_def)
  show "decUpdate P b = Some \<lparr>ueEventID = puEventID E, ueUserID = u, ueCommentID = trim_space i, ueBody = body, ueCreatedAt = puCreatedAt E\<rparr>"
    if "g = GUpdate i body" using b b'(3) that by (simp add: defs update_event_of_def)
  show "decDelete P b = Some \<lparr>deEventID = puEventID E, deUserID = u, deCommentID = trim_space i, deCreatedAt = puCreatedAt E\<rparr>"
    if "g = GDelete i" using b b'(4) that by (simp add: defs delete_event_of_def)
  have "- (2 ^ 31) \<le> sint v" "sint v < 2 ^ 31" using sint_greater_eq [of v] sint_less [of v] by simp_all
  then show "decVote P b = Some \<lparr>veEventID = puEventID E, veUserID = u, veCommentID = trim_space i, veVote = v, veCreatedAt = puCreatedAt E\<rparr>"
    if "g = GVote i v" using b b'(5) that by (simp add: defs vote_event_of_def)
qed

section \<open>An event and a direct call have the same effect\<close>

lemma stmt_ctx_calm [simp]: "stmt_ctx (calm t k) n = calm t k"
  by (simp add: stmt_ctx_def calm_def)

lemma one_event:
  assumes "dProcessed db = Some ids" "tsValid P ts" "e \<notin> set ids"
    and "tx_msg P (calm t k) m db = then_exec (mark_processed P (calm t k) e ts db) f" "f (db\<lparr>dProcessed := Some (ids @ [e])\<rparr>) = Some w"
  shows "consume_batch P (calm t k) (\<lambda>_. calm t k) [m] db = (AckAll, w)"
proof -
  have "tx_msg P (calm t k) m db = Done w" using assms by (simp add: then_exec_def mark_processed_def)
  then show ?thesis by (simp add: consume_batch_apply [OF assms(1)])
qed

lemma write_action:
  "trim_prefix ''social.comments.create'' ''social.comments.'' = ''create''" "trim_prefix ''social.comments.update'' ''social.comments.'' = ''update''"
  "trim_prefix ''social.comments.delete'' ''social.comments.'' = ''delete''" "trim_prefix ''social.comments.vote'' ''social.comments.'' = ''vote''"
  by (simp_all add: trim_prefix_def has_prefix_def)

lemma vote_statements:
  assumes "pg_vote (uuidOf P) (calm t k) i u (ucast v) (dTables db) = (Inr (), T)" "sint v = 1 \<or> sint v = -1"
  shows "exec_vote P (calm t k) \<lparr>veEventID = e, veUserID = u, veCommentID = i, veVote = v, veCreatedAt = ts\<rparr> db = Some (db\<lparr>dTables := T\<rparr>)"
proof -
  have m: "(ucast (-1 :: i32) :: i16) = -1" by code_simp
  have v: "v = 1 \<or> v = -1" using sint_vote_cases [OF assms(2)] .
  then have w: "(scast v :: i16) = ucast v" using m by (elim disjE) simp_all
  obtain c where c: "uuidOf P i = Some c" "c \<in> cID ` set (pComments (dTables db))"
    using assms(1) by (auto simp: pg_vote_def split: option.splits if_splits)
  have "exec_vote_write (calm t k) c \<lparr>veEventID = e, veUserID = u, veCommentID = i, veVote = v, veCreatedAt = ts\<rparr> (dTables db) = Some T"
    using assms c unfolding exec_vote_write_def pg_vote_def Let_def
    by (cases "row_by vote_key (c, u) (pVotes (dTables db))") (simp_all add: w split: if_splits)
  then show ?thesis using c by (simp add: exec_vote_def)
qed

text \<open>What a direct call that succeeded did to the tables.\<close>

lemma user_md: "trim_space u = u \<Longrightarrow> u \<noteq> [] \<Longrightarrow> userIDFromMD (Some (\<lambda>k. if k = ''user_id'' then [u] else [])) = Inr u"
  by (simp add: userIDFromMD_def)

lemma error_status: "rStatus (writeGRPCError rid (Some e)) \<notin> {201, 204}"
  by (simp add: writeGRPCError_def api_defs Let_def split: grpc_code.splits)

lemma direct_create:
  assumes "gateway (social_pg U) None E x c rid (GCreate a b q) w = (st, w')" "st \<in> {201, 204}" "ctxUserID c = Some u" "trim_space u = u" "map_option trim_space q = q"
  shows "u \<noteq> [] \<and> trim_space a \<noteq> [] \<and> (\<exists>pc. pg_create U x \<lparr>cID = [], cAnimeID = trim_space a, cUserID = u, cParentID = q, cBody = b, cScore = 0, cCreatedAt = 0,
    cUpdatedAt = None, cDeletedAt = None\<rparr> (swComments w) = (Inr pc, swComments w'))"
proof -
  have ne: "u \<noteq> []" "trim_space a \<noteq> []"
    using assms by (auto simp: bff_CreateComment_def withUserMD_def plain_reply_def api_defs Let_def split: if_splits)
  have "\<exists>pb s. CreateComment (social_pg U) x (Some (\<lambda>k. if k = ''user_id'' then [u] else [])) (trim_space a) b q (swComments w) = (Inr pb, s) \<and> swComments w' = s"
    using assms ne error_status [where rid = rid]
    by (auto simp: bff_CreateComment_def withUserMD_def tryPublishAsync_def Enabled_def plain_reply_def Let_def split: sum.splits prod.splits)
  then show ?thesis using ne assms(4,5) user_md [OF assms(4) ne(1)]
    by (auto simp: CreateComment_def social_pg_def pg_store_def Let_def split: sum.splits prod.splits if_splits)
qed

lemma direct_vote:
  assumes "gateway (social_pg U) None E x c rid (GVote i v) w = (st, w')" "st \<in> {201, 204}" "ctxUserID c = Some u" "trim_space u = u"
  shows "u \<noteq> [] \<and> trim_space i \<noteq> [] \<and> pg_vote U x (trim_space i) u (ucast v) (swComments w) = (Inr (), swComments w')"
proof -
  have ne: "u \<noteq> []" "trim_space i \<noteq> []"
    using assms by (auto simp: bff_VoteComment_def comment_write_def withUserMD_def plain_reply_def api_defs Let_def split: if_splits)
  have "\<exists>s. VoteComment (social_pg U) x (Some (\<lambda>k. if k = ''user_id'' then [u] else [])) (trim_space i) v (swComments w) = (Inr (), s) \<and> swComments w' = s"
    using assms ne error_status [where rid = rid]
    by (auto simp: bff_VoteComment_def comment_write_def withUserMD_def tryPublishAsync_def Enabled_def plain_reply_def Let_def split: sum.splits prod.splits)
  then show ?thesis using ne user_md [OF assms(4) ne(1)]
    by (auto simp: VoteComment_def social_pg_def pg_store_def Let_def split: sum.splits prod.splits if_splits store_error.splits)
qed

lemma direct_update:
  assumes "gateway (social_pg U) None E x c rid (GUpdate i b) w = (st, w')" "st \<in> {201, 204}" "ctxUserID c = Some u" "trim_space u = u"
  shows "u \<noteq> [] \<and> trim_space i \<noteq> [] \<and> pg_update_body U x (trim_space i) u b (swComments w) = (Inr (), swComments w')"
proof -
  have ne: "u \<noteq> []" "trim_space i \<noteq> []"
    using assms by (auto simp: bff_UpdateComment_def comment_write_def withUserMD_def plain_reply_def api_defs Let_def split: if_splits)
  have "\<exists>s. UpdateComment (social_pg U) x (Some (\<lambda>k. if k = ''user_id'' then [u] else [])) (trim_space i) b (swComments w) = (Inr (), s) \<and> swComments w' = s"
    using assms ne error_status [where rid = rid]
    by (auto simp: bff_UpdateComment_def comment_write_def withUserMD_def tryPublishAsync_def Enabled_def plain_reply_def Let_def split: sum.splits prod.splits)
  then show ?thesis using ne user_md [OF assms(4) ne(1)]
    by (auto simp: UpdateComment_def social_pg_def pg_store_def Let_def split: sum.splits prod.splits if_splits store_error.splits)
qed

lemma direct_delete:
  assumes "gateway (social_pg U) None E x c rid (GDelete i) w = (st, w')" "st \<in> {201, 204}" "ctxUserID c = Some u" "trim_space u = u"
  shows "u \<noteq> [] \<and> trim_space i \<noteq> [] \<and> pg_soft_delete U x (trim_space i) u (swComments w) = (Inr (), swComments w')"
proof -
  have ne: "u \<noteq> []" "trim_space i \<noteq> []"
    using assms by (auto simp: bff_DeleteComment_def comment_write_def withUserMD_def plain_reply_def api_defs Let_def split: if_splits)
  have "\<exists>s. DeleteComment (social_pg U) x (Some (\<lambda>k. if k = ''user_id'' then [u] else [])) (trim_space i) (swComments w) = (Inr (), s) \<and> swComments w' = s"
    using assms ne error_status [where rid = rid]
    by (auto simp: bff_DeleteComment_def comment_write_def withUserMD_def tryPublishAsync_def Enabled_def plain_reply_def Let_def split: sum.splits prod.splits)
  then show ?thesis using ne user_md [OF assms(4) ne(1)]
    by (auto simp: DeleteComment_def social_pg_def pg_store_def Let_def split: sum.splits prod.splits if_splits store_error.splits)
qed

lemma event_effect:
  assumes "json_law E P" "gateway (social_pg (uuidOf P)) None E (calm t k) c rid g w = (st, w')" "st \<in> {201, 204}"
    and "ctxUserID c = Some u" "trim_space u = u" "dProcessed db = Some ids" "tsValid P (puCreatedAt E)" "puEventID E \<notin> set ids" "dTables db = swComments w"
    and "\<And>a b q. g = GCreate a b q \<Longrightarrow> map_option trim_space q = q" "\<And>i v. g = GVote i v \<Longrightarrow> sint v = 1 \<or> sint v = -1"
  shows "u \<noteq> [] \<and> write_target g \<noteq> [] \<and>
    consume_batch P (calm t k) (\<lambda>_. calm t k) [write_message E u g] db = (AckAll, \<lparr>dTables = swComments w', dProcessed = Some (ids @ [puEventID E])\<rparr>)"
proof (cases g)
  case (GCreate a b q)
  let ?ev = "\<lparr>ceEventID = puEventID E, ceUserID = u, ceAnimeID = trim_space a, ceParentID = q, ceBody = b, ceCreatedAt = puCreatedAt E\<rparr>"
  note d = direct_create [OF assms(2) [unfolded GCreate] assms(3-5) assms(10) [OF GCreate]]
  have "tx_msg P (calm t k) (write_message E u g) db = tx_create P (calm t k) ?ev db"
    using message_decodes(1) [OF assms(1) refl GCreate] GCreate by (simp add: tx_msg_def write_message_def write_action)
  then have "consume_batch P (calm t k) (\<lambda>_. calm t k) [write_message E u g] db = (AckAll, \<lparr>dTables = swComments w', dProcessed = Some (ids @ [puEventID E])\<rparr>)"
    using d assms(9) by (intro one_event [OF assms(6,7,8), where f = "exec_insert P (calm t k) ?ev"]) (auto simp: tx_create_def exec_insert_def event_comment_def)
  then show ?thesis using d GCreate by simp
next
  case (GVote i v)
  let ?ev = "\<lparr>veEventID = puEventID E, veUserID = u, veCommentID = trim_space i, veVote = v, veCreatedAt = puCreatedAt E\<rparr>"
  note d = direct_vote [OF assms(2) [unfolded GVote] assms(3-5)]
  have "tx_msg P (calm t k) (write_message E u g) db = tx_vote P (calm t k) ?ev db"
    using message_decodes(4) [OF assms(1) refl GVote] GVote by (simp add: tx_msg_def write_message_def write_action)
  then have "consume_batch P (calm t k) (\<lambda>_. calm t k) [write_message E u g] db = (AckAll, \<lparr>dTables = swComments w', dProcessed = Some (ids @ [puEventID E])\<rparr>)"
    using d assms(9) vote_statements [OF _ assms(11) [OF GVote], of P t k "trim_space i" u "db\<lparr>dProcessed := Some (ids @ [puEventID E])\<rparr>" "swComments w'"]
    by (intro one_event [OF assms(6,7,8), where f = "exec_vote P (calm t k) ?ev"]) (simp_all add: tx_vote_def)
  then show ?thesis using d GVote by simp
next
  case (GUpdate i b)
  let ?ev = "\<lparr>ueEventID = puEventID E, ueUserID = u, ueCommentID = trim_space i, ueBody = b, ueCreatedAt = puCreatedAt E\<rparr>"
  note d = direct_update [OF assms(2) [unfolded GUpdate] assms(3-5)]
  have "tx_msg P (calm t k) (write_message E u g) db = tx_update P (calm t k) ?ev db"
    using message_decodes(2) [OF assms(1) refl GUpdate] GUpdate by (simp add: tx_msg_def write_message_def write_action)
  then have "consume_batch P (calm t k) (\<lambda>_. calm t k) [write_message E u g] db = (AckAll, \<lparr>dTables = swComments w', dProcessed = Some (ids @ [puEventID E])\<rparr>)"
    using d assms(9) by (intro one_event [OF assms(6,7,8), where f = "exec_update P (calm t k) ?ev"]) (simp_all add: tx_update_def exec_update_def)
  then show ?thesis using d GUpdate by simp
next
  case (GDelete i)
  let ?ev = "\<lparr>deEventID = puEventID E, deUserID = u, deCommentID = trim_space i, deCreatedAt = puCreatedAt E\<rparr>"
  note d = direct_delete [OF assms(2) [unfolded GDelete] assms(3-5)]
  have "tx_msg P (calm t k) (write_message E u g) db = tx_delete P (calm t k) ?ev db"
    using message_decodes(3) [OF assms(1) refl GDelete] GDelete by (simp add: tx_msg_def write_message_def write_action)
  then have "consume_batch P (calm t k) (\<lambda>_. calm t k) [write_message E u g] db = (AckAll, \<lparr>dTables = swComments w', dProcessed = Some (ids @ [puEventID E])\<rparr>)"
    using d assms(9) by (intro one_event [OF assms(6,7,8), where f = "exec_delete P (calm t k) ?ev"]) (simp_all add: tx_delete_def exec_delete_def)
  then show ?thesis using d GDelete by simp
qed

section \<open>A vote the consumer cannot store\<close>

lemma update_ids: "(\<And>c. cID (f c) = cID c) \<Longrightarrow> cID ` set (fst (sql_update Q f rows)) = cID ` set rows"
proof -
  assume f: "\<And>c. cID (f c) = cID c"
  have "map cID (fst (sql_update Q f rows)) = map cID rows" by (simp add: sql_update_def f)
  then show ?thesis by (metis list.set_map)
qed

lemma exec_op_ids: "cID ` set (pComments t) \<subseteq> cID ` set (pComments (exec_op (pg_store U) op t))"
proof (cases op)
  case (OpCreate x c)
  then show ?thesis by (auto simp: pg_store_def pg_create_def Let_def split: option.splits)
next
  case (OpUpdate x i u b)
  then show ?thesis by (simp add: pg_store_def pg_update_body_def Let_def split_beta update_ids split: option.splits)
next
  case (OpDelete x i u)
  then show ?thesis by (simp add: pg_store_def pg_soft_delete_def Let_def split_beta update_ids split: option.splits)
next
  case (OpVote x i u v)
  then show ?thesis by (simp add: pg_store_def pg_vote_def Let_def update_ids split: option.splits)
qed

lemma tx_msg_ids: "tx_msg P x m w = Done w' \<Longrightarrow> cID ` set (pComments (dTables w)) \<subseteq> cID ` set (pComments (dTables w'))"
proof -
  assume "tx_msg P x m w = Done w'"
  from tx_msg_step [OF this] show ?thesis unfolding store_step_def by (elim disjE exE conjE) (simp_all only: exec_op_ids order_refl)
qed

lemma bad_vote_fails:
  assumes "trim_prefix (mSubject m) ''social.comments.'' = ''vote''" "decVote P (mData m) = Some ev" "sint (veVote ev) \<noteq> 1" "sint (veVote ev) \<noteq> -1"
    and "uuidOf P (veCommentID ev) = Some k" "k \<in> cID ` set (pComments (dTables w))" "dProcessed w = Some ids" "veEventID ev \<notin> set ids"
  shows "tx_msg P x m w = Failed"
proof -
  have "exec_vote P y ev (w\<lparr>dProcessed := d\<rparr>) = None" for y d
    using assms(3-6) by (simp add: exec_vote_def exec_vote_write_def Let_def)
  then show ?thesis using assms(1,2,7,8) by (simp add: tx_msg_def tx_vote_def then_exec_def mark_processed_def)
qed

lemma bad_vote_blocks:
  assumes "trim_prefix (mSubject m) ''social.comments.'' = ''vote''" "decVote P (mData m) = Some ev" "sint (veVote ev) \<noteq> 1" "sint (veVote ev) \<noteq> -1"
    and "uuidOf P (veCommentID ev) = Some k"
  shows "k \<in> cID ` set (pComments (dTables w)) \<Longrightarrow> dProcessed w = Some ids \<Longrightarrow> veEventID ev \<notin> set ids \<Longrightarrow> m \<in> snd ` set ms \<Longrightarrow>
    \<forall>m' \<in> snd ` set ms. event_id P m' = Some (veEventID ev) \<longrightarrow> m' = m \<Longrightarrow> apply_all P ms xs w = None"
proof (induction ms arbitrary: w ids)
  case (Cons a ms)
  obtain i m' where a: "a = (i, m')" by (cases a)
  note bad = bad_vote_fails [OF assms Cons.prems(1-3), of "xs i"]
  show ?case
  proof (cases "m' = m")
    case True
    then show ?thesis using a bad by simp
  next
    case False
    then have in_ms: "m \<in> snd ` set ms" and e: "event_id P m' \<noteq> Some (veEventID ev)" using Cons.prems(4,5) a by auto
    from tx_msg_cases [OF Cons.prems(2), of P "xs i" m'] show ?thesis
    proof (elim disjE exE conjE)
      fix e' w1 assume d: "tx_msg P (xs i) m' w = Done w1" "event_id P m' = Some e'" "dProcessed w1 = Some (ids @ [e'])"
      have "apply_all P ms xs w1 = None"
        using Cons.IH [OF _ d(3) _ in_ms] Cons.prems(1,3,5) tx_msg_ids [OF d(1)] d(2) e a by auto
      then show ?thesis using a d(1) by simp
    qed (use a Cons.IH [OF Cons.prems(1-3) in_ms] Cons.prems(5) in simp_all)
  qed
qed simp

section \<open>Properties\<close>

text \<open>A codec for the examples: members as pairs of texts, numbers in unary.\<close>

fun jtext :: "jval \<Rightarrow> string" where
  "jtext (JStr s) = CHR ''s'' # s"
| "jtext (JInt i) = (if i < 0 then CHR ''m'' else CHR ''p'') # replicate (nat \<bar>i\<bar>) CHR ''1''"

fun junt :: "string \<Rightarrow> jval" where
  "junt [] = JStr []"
| "junt (c # s) = (if c = CHR ''s'' then JStr s else JInt (if c = CHR ''m'' then - int (length s) else int (length s)))"

definition demo_members :: "string \<Rightarrow> payload" where
  "demo_members b = map (\<lambda>(k, v). (k, junt v)) (the (demo_dec b))"

definition demo_publish :: publish_env where
  "demo_publish = \<lparr>puEventID = ''ev'', puCreatedAt = ''t'', puEncode = (\<lambda>p. Some (demo_enc (map (\<lambda>(k, v). (k, jtext v)) p))), puStored = True, puAcked = True\<rparr>"

definition demo_consumer :: consumer_env where
  "demo_consumer = \<lparr>uuidOf = Some, tsValid = (\<lambda>_. True), decCreate = (\<lambda>b. create_event_of (demo_members b)),
     decUpdate = (\<lambda>b. update_event_of (demo_members b)), decDelete = (\<lambda>b. delete_event_of (demo_members b)), decVote = (\<lambda>b. vote_event_of (demo_members b))\<rparr>"

lemma junt_jtext: "junt (jtext v) = v"
  by (cases v) simp_all

lemma demo_law: "json_law demo_publish demo_consumer"
  by (simp add: json_law_def demo_publish_def demo_consumer_def demo_members_def demo_json junt_jtext case_prod_beta' comp_def)

definition demo_world :: "(pg_comments, rating_row list) social_world" where
  "demo_world = \<lparr>swComments = pg_demo, swRatings = [], swStream = []\<rparr>"

abbreviation demo_user :: auth_ctx where
  "demo_user \<equiv> empty_ctx\<lparr>ctxUserID := Some ''u9''\<rparr>"

lemma demo_names: "trim_space ''c2'' = ''c2''" "trim_space ''u9'' = ''u9''"
  by code_simp+

lemma demo_direct_vote:
  "fst (gateway (social_pg Some) None demo_publish (calm 0 []) demo_user [] (GVote ''c2'' 1) demo_world) = 204"
  by (simp add: bff_VoteComment_def comment_write_def withUserMD_def empty_ctx_def tryPublishAsync_def Enabled_def VoteComment_def userIDFromMD_def social_pg_def
    pg_store_def pg_vote_def demo_world_def pg_demo_eq vote_key_def sql_update_def in_int32_def demo_names plain_reply_def WriteHeader_def Let_def)



text \<open>
  C40. The gateway accepts votes the consumer cannot store: a vote other than 1 and -1 on an existing comment is answered 202, and from then
  on every batch that contains its event is rolled back and delivered again, whatever else is in it.
\<close>

theorem bad_vote_accepted_and_stuck:
  assumes "Enabled p" "puStored E" "puAcked E" "json_law E P" "ctxUserID c = Some u" "trim_space u \<noteq> []" "trim_space i \<noteq> []"
    and "sint v \<noteq> 1" "sint v \<noteq> -1" "uuidOf P (trim_space i) = Some k" "k \<in> cID ` set (pComments (dTables db))"
    and "dProcessed db = Some ids" "puEventID E \<notin> set ids"
  shows "\<exists>m. gateway sv p E x c rid (GVote i v) w = (202, w\<lparr>swStream := swStream w @ [m]\<rparr>) \<and>
     (\<forall>y xs msgs. m \<in> set msgs \<and> (\<forall>m' \<in> set msgs. event_id P m' = Some (puEventID E) \<longrightarrow> m' = m) \<longrightarrow> consume_batch P y xs msgs db = (NakAll, db))"
proof -
  let ?m = "write_message E u (GVote i v)"
  have g: "gateway sv p E x c rid (GVote i v) w = (202, w\<lparr>swStream := swStream w @ [?m]\<rparr>)"
    by (rule gateway_async [OF assms(1-6)]) (use assms(7) in simp)
  have s: "trim_prefix (mSubject ?m) ''social.comments.'' = ''vote''" by (simp add: write_message_def write_action)
  note d = message_decodes(4) [OF assms(4) refl, of "GVote i v" i v, OF refl, of u]
  have "apply_all P (enumerate 0 msgs) xs db = None"
    if "?m \<in> set msgs" "\<forall>m' \<in> set msgs. event_id P m' = Some (puEventID E) \<longrightarrow> m' = ?m" for msgs xs
  proof -
    have sn: "snd ` set (enumerate 0 msgs) = set msgs" by (metis list.set_map map_snd_enumerate)
    show ?thesis
      by (rule bad_vote_blocks [OF s d, where k = k and ids = ids]) (use assms(8-13) that sn in simp_all)
  qed
  then have "\<forall>y xs msgs. ?m \<in> set msgs \<and> (\<forall>m' \<in> set msgs. event_id P m' = Some (puEventID E) \<longrightarrow> m' = ?m) \<longrightarrow> consume_batch P y xs msgs db = (NakAll, db)"
    using consume_batch_apply [OF assms(12)] by simp
  with g show ?thesis by blast
qed

theorem bad_vote_accepted_and_stuck_witness:
  "\<exists>m. gateway (social_pg Some) (Some \<lparr>epJs = True, epAsyncWrites = True\<rparr>) demo_publish (calm 0 []) demo_user [] (GVote ''c2'' 5) demo_world =
       (202, demo_world\<lparr>swStream := [m]\<rparr>) \<and> consume_batch demo_consumer (calm 0 []) (\<lambda>_. calm 0 []) [m] demo_db = (NakAll, demo_db)"
proof -
  have "\<exists>m. gateway (social_pg Some) (Some \<lparr>epJs = True, epAsyncWrites = True\<rparr>) demo_publish (calm 0 []) demo_user [] (GVote ''c2'' 5) demo_world =
       (202, demo_world\<lparr>swStream := swStream demo_world @ [m]\<rparr>) \<and>
     (\<forall>y xs msgs. m \<in> set msgs \<and> (\<forall>m' \<in> set msgs. event_id demo_consumer m' = Some (puEventID demo_publish) \<longrightarrow> m' = m) \<longrightarrow>
        consume_batch demo_consumer y xs msgs demo_db = (NakAll, demo_db))"
    by (rule bad_vote_accepted_and_stuck [where u = "''u9''" and k = "''c2''" and ids = "[]", OF _ _ _ demo_law])
      (simp_all add: Enabled_def demo_publish_def demo_consumer_def demo_db_def empty_ctx_def demo_names pg_demo_eq)
  then obtain m where m: "gateway (social_pg Some) (Some \<lparr>epJs = True, epAsyncWrites = True\<rparr>) demo_publish (calm 0 []) demo_user [] (GVote ''c2'' 5) demo_world =
       (202, demo_world\<lparr>swStream := [m]\<rparr>)"
    "\<forall>y xs msgs. m \<in> set msgs \<and> (\<forall>m' \<in> set msgs. event_id demo_consumer m' = Some (puEventID demo_publish) \<longrightarrow> m' = m) \<longrightarrow>
        consume_batch demo_consumer y xs msgs demo_db = (NakAll, demo_db)"
    by (elim exE conjE) (rule that, simp_all add: demo_world_def)
  have "consume_batch demo_consumer (calm 0 []) (\<lambda>_. calm 0 []) [m] demo_db = (NakAll, demo_db)" using m(2) [rule_format, of "[m]"] by simp
  with m(1) show ?thesis by (intro exI conjI)
qed

end
