(* ===== verification/Bff_Reads.thy ===== *)
theory Bff_Reads
  imports Bff_Guards Activity Search Bff_Social
begin

text \<open>
  The gateway's catalog, search and activity endpoints (services/bff/internal/handlers: catalog.go, search.go, activity.go). A call of a backend
  is a call of its service's model. The list endpoints go through the response cache of \<open>Bff_Guards\<close>.
\<close>

section \<open>Catalog\<close>

record anime_response =
  avID :: string
  avTitle :: string
  avTitleEnglish :: string
  avTitleJapanese :: string
  avImage :: string
  avDescription :: string
  avGenres :: "string list"
  avScore :: i32
  avStatus :: string
  avType :: string
  avTotalEpisodes :: i32

record episode_response =
  eqID :: string
  eqAnimeID :: string
  eqNumber :: i32
  eqTitle :: string
  eqAiredAt :: string

definition toAnimeResponse :: "anime \<Rightarrow> anime_response" where
  "toAnimeResponse a =
     \<lparr>avID = anID a, avTitle = anTitle a, avTitleEnglish = anTitleEnglish a, avTitleJapanese = anTitleJapanese a, avImage = anImage a,
      avDescription = anDescription a, avGenres = anGenres a, avScore = anScore a, avStatus = anStatus a, avType = anType a,
      avTotalEpisodes = anTotalEpisodes a\<rparr>"

definition toEpisodeResponse :: "pb_episode \<Rightarrow> episode_response" where
  "toEpisodeResponse e = \<lparr>eqID = peId e, eqAnimeID = peAnimeId e, eqNumber = peNumber e, eqTitle = peTitle e, eqAiredAt = peAiredAtRfc3339 e\<rparr>"

definition http_GetAnime :: "(string \<Rightarrow> uuid option) \<Rightarrow> ctx \<Rightarrow> string \<Rightarrow> string \<Rightarrow> catalog_db \<Rightarrow> anime_response response" where
  "http_GetAnime uuid_of x rid param db =
     (let animeID = trim_space param
      in if animeID = [] then BadRequest ''MISSING_ID'' ''anime_id is required'' rid None
         else
           (case svc_GetAnimeByIDs uuid_of x [animeID] db of
              Inl e \<Rightarrow> writeGRPCError rid (Some e)
            | Inr [] \<Rightarrow> NotFound ''NOT_FOUND'' ''anime not found'' rid
            | Inr (a # _) \<Rightarrow> WriteJSON 200 (toAnimeResponse a)))"

definition http_GetEpisodesByAnime ::
  "(string \<Rightarrow> uuid option) \<Rightarrow> (time \<Rightarrow> string) \<Rightarrow> ctx \<Rightarrow> string \<Rightarrow> string \<Rightarrow> catalog_db \<Rightarrow> episode_response list response" where
  "http_GetEpisodesByAnime uuid_of fmt x rid param db =
     (let animeID = trim_space param
      in if animeID = [] then BadRequest ''MISSING_ID'' ''anime_id is required'' rid None
         else
           (case svc_GetEpisodesByAnimeID uuid_of fmt x animeID db of
              Inl e \<Rightarrow> writeGRPCError rid (Some e)
            | Inr eps \<Rightarrow> WriteJSON 200 (map toEpisodeResponse eps)))"

definition http_GetEpisode ::
  "(string \<Rightarrow> uuid option) \<Rightarrow> (time \<Rightarrow> string) \<Rightarrow> ctx \<Rightarrow> string \<Rightarrow> string \<Rightarrow> catalog_db \<Rightarrow> episode_response response" where
  "http_GetEpisode uuid_of fmt x rid param db =
     (let episodeID = trim_space param
      in if episodeID = [] then BadRequest ''MISSING_ID'' ''episode_id is required'' rid None
         else
           (case svc_GetEpisodesByIDs uuid_of fmt x [episodeID] db of
              Inl e \<Rightarrow> writeGRPCError rid (Some e)
            | Inr [] \<Rightarrow> NotFound ''NOT_FOUND'' ''episode not found'' rid
            | Inr (e # _) \<Rightarrow> WriteJSON 200 (toEpisodeResponse e)))"

text \<open>\<open>Atoi\<close> reads the text untrimmed.\<close>

definition parseInt32 :: "string \<Rightarrow> int \<Rightarrow> int \<Rightarrow> int \<Rightarrow> int" where
  "parseInt32 v dflt mn mx =
     (if trim_space v = [] then dflt
      else (case parse_int v of None \<Rightarrow> dflt | Some i \<Rightarrow> if i < mn then mn else if i > mx then mx else i))"

record anime_list =
  alAnime :: "anime_response list"
  alTotal :: int
  alLimit :: int
  alOffset :: int

definition anime_list_key :: "int \<Rightarrow> int \<Rightarrow> string" where
  "anime_list_key limit offset = ''ListAnime:'' @ format_int limit @ '':'' @ format_int offset"

text \<open>
  The environments: the catalog's two calls, and the clock readings of the cache. Between its sections and around the calls other requests may
  change the cache: \<open>other\<close>.
\<close>

record cached_env =
  ceUuid :: "string \<Rightarrow> uuid option"
  ceIds :: ctx
  ceRows :: ctx
  ceT1 :: time
  ceT2 :: time
  ceT3 :: time

definition http_ListAnime ::
  "cached_env \<Rightarrow> (anime_list ttl_cache \<Rightarrow> anime_list ttl_cache) \<Rightarrow> string \<Rightarrow> string \<Rightarrow> string \<Rightarrow> catalog_db \<Rightarrow> anime_list ttl_cache \<Rightarrow>
   anime_list response \<times> anime_list ttl_cache" where
  "http_ListAnime E other rid limitq offsetq db c =
     (let limit = parseInt32 limitq 25 1 100;
          offset = parseInt32 offsetq 0 0 10000;
          key = anime_list_key limit offset
      in (case cache_get (ceT1 E) (ceT2 E) other key c of
            (Some cached, c) \<Rightarrow> (WriteJSON 200 cached, c)
          | (None, c) \<Rightarrow>
              (case svc_GetAnimeIDs (ceIds E) db of
                 Inl e \<Rightarrow> (writeGRPCError rid (Some e), c)
               | Inr allIDs \<Rightarrow>
                   let n = sint (word_of_int (int (length allIDs)) :: i32)
                   in if offset \<ge> n then
                        (let resp = \<lparr>alAnime = [], alTotal = n, alLimit = limit, alOffset = offset\<rparr>
                         in (WriteJSON 200 resp, cache_set (ceT3 E) key resp (other c)))
                      else
                        let e = (if offset + limit > n then n else offset + limit);
                            pageIDs = take (nat (e - offset)) (drop (nat offset) allIDs)
                        in (case svc_GetAnimeByIDs (ceUuid E) (ceRows E) pageIDs db of
                              Inl st \<Rightarrow> (writeGRPCError rid (Some st), c)
                            | Inr as \<Rightarrow>
                                let resp = \<lparr>alAnime = map toAnimeResponse as, alTotal = n, alLimit = limit, alOffset = offset\<rparr>
                                in (WriteJSON 200 resp, cache_set (ceT3 E) key resp (other c))))))"

section \<open>Search\<close>

definition splitList :: "string \<Rightarrow> string list" where
  "splitList v = (if trim_space v = [] then [] else filter (\<lambda>p. p \<noteq> []) (map trim_space (split_on CHR '','' v)))"

text \<open>\<open>fp\<close> is \<open>strconv.ParseFloat(v, 32)\<close> to bits.\<close>

definition parseFloat32 :: "(string \<Rightarrow> i32 option) \<Rightarrow> string \<Rightarrow> i32 \<Rightarrow> i32" where
  "parseFloat32 fp v dflt = (if trim_space v = [] then dflt else (case fp v of None \<Rightarrow> dflt | Some f \<Rightarrow> f))"

text \<open>The fallback: hits for a query and limit, or an error; \<open>None\<close> when there is no fallback.\<close>

definition http_Search ::
  "(string \<Rightarrow> i32 option) \<Rightarrow> (search_request \<Rightarrow> grpc_status + anime list \<times> i32) \<Rightarrow> (string \<Rightarrow> int \<Rightarrow> unit + anime list) option \<Rightarrow> time \<times> time \<times> time \<Rightarrow>
   ((anime list \<times> int) ttl_cache \<Rightarrow> (anime list \<times> int) ttl_cache) \<Rightarrow> string \<Rightarrow> string \<Rightarrow> url_values \<Rightarrow> (anime list \<times> int) ttl_cache \<Rightarrow>
   (anime list \<times> int) response \<times> (anime list \<times> int) ttl_cache" where
  "http_Search fp search fb ts other rid rawQuery query c =
     (let q = trim_space (values_get ''q'' query);
          limit = parseInt32 (values_get ''limit'' query) 25 1 100;
          offset = parseInt32 (values_get ''offset'' query) 0 0 10000;
          req = \<lparr>srQuery = q, srLimit = word_of_int limit, srOffset = word_of_int offset, srGenres = splitList (values_get ''genres'' query),
            srStatus = trim_space (values_get ''status'' query), srType = trim_space (values_get ''type'' query),
            srMinScore = parseFloat32 fp (values_get ''min_score'' query) 0, srMaxScore = parseFloat32 fp (values_get ''max_score'' query) 0\<rparr>;
          key = ''Search:'' @ rawQuery;
          (t1, t2, t3) = ts
      in (case cache_get t1 t2 other key c of
            (Some cached, c) \<Rightarrow> (WriteJSON 200 cached, c)
          | (None, c) \<Rightarrow>
              (case search req of
                 Inl e \<Rightarrow> (writeGRPCError rid (Some e), c)
               | Inr (hits, n) \<Rightarrow>
                   let plain = (WriteJSON 200 (hits, sint n), cache_set t3 key (hits, sint n) (other c))
                   in (case fb of
                         None \<Rightarrow> plain
                       | Some f \<Rightarrow>
                           if n = 0 \<and> q \<noteq> [] \<and> offset = 0 then
                             (case f q limit of
                                Inr (h # hs) \<Rightarrow> (WriteJSON 200 (h # hs, sint (word_of_int (int (length (h # hs))) :: i32)), c)
                              | _ \<Rightarrow> plain)
                           else plain))))"

section \<open>Activity\<close>

record progress_request =
  pqEpisodeID :: string
  pqPositionSeconds :: i32
  pqDurationSeconds :: i32
  pqClientTsMs :: int

text \<open>The progress endpoint: an event when asynchronous writes are on, the call otherwise.\<close>

definition http_UpsertProgress ::
  "(string \<Rightarrow> uuid option) \<Rightarrow> event_publisher option \<Rightarrow> publish_env \<Rightarrow> time \<Rightarrow> ctx \<Rightarrow> auth_ctx \<Rightarrow> string \<Rightarrow> progress_request option \<Rightarrow>
   progress_record list \<times> msg list \<Rightarrow> pb_progress reply \<times> progress_record list \<times> msg list" where
  "http_UpsertProgress parse p E t x c rid req w =
     (if trim_space (user_of c) = [] then (plain_reply (Unauthorized ''AUTH_MISSING'' ''Missing auth'' rid), w)
      else
        (case req of
           None \<Rightarrow> (plain_reply (BadRequest ''INVALID_JSON'' ''Invalid JSON'' rid None), w)
         | Some r \<Rightarrow>
             let ts = (if pqClientTsMs r = 0 then ms t else pqClientTsMs r);
                 payload = [(''user_id'', JStr (user_of c)), (''anime_id'', JStr []), (''episode_id'', JStr (trim_space (pqEpisodeID r))),
                   (''position'', JInt (sint (pqPositionSeconds r))), (''client_ts_ms'', JInt ts)]
             in (case tryPublishAsync rid ''activity.progress'' payload p E (snd w) of
                   Some (reply, st) \<Rightarrow> (reply, (fst w, st))
                 | None \<Rightarrow>
                     (case UpsertEpisodeProgress parse x \<lparr>uqUserId = user_of c, uqEpisodeId = trim_space (pqEpisodeID r),
                         uqPositionSeconds = pqPositionSeconds r, uqDurationSeconds = pqDurationSeconds r, uqClientTsMs = ts\<rparr> (fst w) of
                        (Inl e, rows) \<Rightarrow> (plain_reply (writeGRPCError rid (Some e)), (rows, snd w))
                      | (Inr pb, rows) \<Rightarrow> (plain_reply (WriteJSON 200 pb), (rows, snd w))))))"

record continue_item =
  coEpisode :: episode_response
  coPosition :: i32
  coDuration :: i32
  coCompleted :: bool
  coUpdatedAtMs :: int
  coClientTsMs :: int

record continue_response =
  crItems :: "continue_item list"
  crLimit :: i32
  crNextCursor :: string

function chunks :: "nat \<Rightarrow> 'a list \<Rightarrow> 'a list list" where
  "chunks n xs = (if xs = [] \<or> n = 0 then [] else take n xs # chunks n (drop n xs))"
  by pat_completeness auto
termination by (relation "measure (\<lambda>(n, xs). length xs)") auto

declare chunks.simps [simp del]

text \<open>
  One goroutine per chunk: \<open>call j\<close> is the call of chunk \<open>j\<close>, \<open>ord\<close> the order in which they finish and send on the two channels. The
  channels hold as many results as there are chunks, so no send blocks.
\<close>

definition fetchEpisodesConcurrently ::
  "(nat \<Rightarrow> string list \<Rightarrow> grpc_status + pb_episode list) \<Rightarrow> (nat list \<Rightarrow> nat list) \<Rightarrow> string list \<Rightarrow> int \<Rightarrow> grpc_status + pb_episode list" where
  "fetchEpisodesConcurrently call ord ids chunkSize =
     (if ids = [] then Inr []
      else
        let chunkSize = (if chunkSize \<le> 0 then 20 else chunkSize);
            cs = chunks (nat chunkSize) ids;
            sent = map (\<lambda>j. call j (cs ! j)) (ord [0..<length cs]);
            errCh = List.map_filter (\<lambda>r. case r of Inl e \<Rightarrow> Some e | Inr _ \<Rightarrow> None) sent;
            ch = List.map_filter (\<lambda>r. case r of Inl _ \<Rightarrow> None | Inr eps \<Rightarrow> Some eps) sent
        in (case errCh of e # _ \<Rightarrow> Inl e | [] \<Rightarrow> Inr (concat ch)))"

definition continue_limit :: "string \<Rightarrow> i32" where
  "continue_limit q =
     (let v = trim_space q
      in if v = [] then 25
         else (case parse_int v of None \<Rightarrow> 25 | Some n \<Rightarrow> let n = (if n < 1 then 1 else n); n = (if n > 100 then 100 else n) in word_of_int n))"

definition continue_of :: "(string \<rightharpoonup> pb_episode) \<Rightarrow> pb_progress \<Rightarrow> continue_item" where
  "continue_of meta p =
     \<lparr>coEpisode = (case meta (ppEpisodeId p) of
          Some e \<Rightarrow> toEpisodeResponse e
        | None \<Rightarrow> \<lparr>eqID = ppEpisodeId p, eqAnimeID = [], eqNumber = 0, eqTitle = [], eqAiredAt = []\<rparr>),
      coPosition = ppPositionSeconds p, coDuration = ppDurationSeconds p, coCompleted = ppCompleted p, coUpdatedAtMs = ppUpdatedAtMs p,
      coClientTsMs = ppClientTsMs p\<rparr>"

definition ContinueWatching ::
  "(string \<Rightarrow> uuid option) \<Rightarrow> ctx \<Rightarrow> (nat \<Rightarrow> string list \<Rightarrow> grpc_status + pb_episode list) \<Rightarrow> (nat list \<Rightarrow> nat list) \<Rightarrow> auth_ctx \<Rightarrow> string \<Rightarrow> string \<Rightarrow> string \<Rightarrow>
   progress_record list \<Rightarrow> continue_response response" where
  "ContinueWatching parse x call ord c rid limitq cursor rows =
     (if trim_space (user_of c) = [] then Unauthorized ''AUTH_MISSING'' ''Missing auth'' rid
      else
        (case GetContinueWatching parse x (user_of c) (continue_limit limitq) cursor rows of
           Inl e \<Rightarrow> writeGRPCError rid (Some e)
         | Inr (its, limit, nextCursor) \<Rightarrow>
             (case fetchEpisodesConcurrently call ord (map ppEpisodeId its) 20 of
                Inl e \<Rightarrow> writeGRPCError rid (Some e)
              | Inr episodes \<Rightarrow>
                  let meta = fold (\<lambda>e m. m(peId e \<mapsto> e)) episodes Map.empty
                  in WriteJSON 200 \<lparr>crItems = map (continue_of meta) its, crLimit = limit, crNextCursor = nextCursor\<rparr>)))"

section \<open>Continue watching\<close>

text \<open>What the page should show beside each progress record: the catalog's episode, by one look-up per record.\<close>

definition pb_of :: "(time \<Rightarrow> string) \<Rightarrow> episode_row \<Rightarrow> pb_episode" where
  "pb_of fmt r = hd (episodesToProto fmt [select_episode r])"

definition catalog_episode :: "(time \<Rightarrow> string) \<Rightarrow> catalog_db \<Rightarrow> string \<rightharpoonup> pb_episode" where
  "catalog_episode fmt db i = map_option (pb_of fmt) (row_by (\<lambda>r. epID (erEpisode r)) i (cdEpisodes db))"

lemma concat_chunks: "0 < n \<Longrightarrow> concat (chunks n xs) = xs"
proof (induction n xs rule: chunks.induct)
  case (1 n xs)
  then show ?case by (cases "xs = []") (simp_all add: chunks.simps [of n xs] chunks.simps [of n "[]"])
qed

lemma pb_of_id [simp]: "peId (pb_of fmt r) = epID (erEpisode r)"
  by (simp add: pb_of_def episodesToProto_def select_episode_def)

lemma episodesToProto_map: "episodesToProto fmt (map select_episode rs) = map (pb_of fmt) rs"
  by (simp add: pb_of_def episodesToProto_def)

lemma svc_GetEpisodesByIDs_known:
  assumes "\<forall>i \<in> set ids. uuid_of i = Some i" "\<not> fault x 0"
  shows "svc_GetEpisodesByIDs uuid_of fmt x ids db = Inr (map (pb_of fmt) (filter (\<lambda>r. epID (erEpisode r) \<in> set ids) (cdEpisodes db)))"
proof -
  have "map (\<lambda>i. the (uuid_of i)) ids = ids" using assms(1) by (simp add: map_idI)
  then show ?thesis
    using assms by (cases "ids = []") (auto simp: svc_GetEpisodesByIDs_def GetEpisodesByIDs_def uuid_array_def episodesToProto_map episodesToProto_map [of fmt "[]", simplified])
qed

text \<open>The channel order does not matter for the set of episodes that arrive.\<close>

lemma fetch_all_succeed:
  assumes "\<And>j. j < length (chunks 20 ids) \<Longrightarrow> call j (chunks 20 ids ! j) = Inr (ok (chunks 20 ids ! j))"
    and "\<And>n. mset (ord [0..<n]) = mset [0..<n]"
  shows "\<exists>eps. fetchEpisodesConcurrently call ord ids 20 = Inr eps \<and> set eps = (\<Union>c \<in> set (chunks 20 ids). set (ok c))"
proof (cases "ids = []")
  case True
  then show ?thesis by (simp add: fetchEpisodesConcurrently_def chunks.simps)
next
  case False
  let ?cs = "chunks 20 ids"
  have js: "set (ord [0..<length ?cs]) = {0..<length ?cs}" using assms(2) by (metis set_mset_mset set_upt)
  have sent: "map (\<lambda>j. call j (?cs ! j)) (ord [0..<length ?cs]) = map Inr (map (\<lambda>j. ok (?cs ! j)) (ord [0..<length ?cs]))"
    using js assms(1) by simp
  have none: "List.map_filter (\<lambda>r. case r of Inl e \<Rightarrow> Some e | Inr _ \<Rightarrow> None) (map Inr ys) = []"
    and some: "List.map_filter (\<lambda>r. case r of Inl _ \<Rightarrow> None | Inr eps \<Rightarrow> Some eps) (map Inr ys) = ys" for ys
    by (induction ys) (simp_all add: List.map_filter_simps)
  have "(\<Union>j \<in> {0..<length ?cs}. set (ok (?cs ! j))) = (\<Union>c \<in> set ?cs. set (ok c))" by (force simp: in_set_conv_nth)
  moreover have "nat (if (20 :: int) \<le> 0 then 20 else 20) = 20" by simp
  ultimately show ?thesis using False js by (simp only: fetchEpisodesConcurrently_def Let_def sent none some) simp
qed

lemma fold_meta:
  "(\<And>e. e \<in> set es \<Longrightarrow> g (peId e) = Some e) \<Longrightarrow>
   fold (\<lambda>e m. m(peId e \<mapsto> e)) es m i = (if i \<in> peId ` set es then g i else m i)"
  by (induction es arbitrary: m) auto

lemma continue_of_cong: "meta (ppEpisodeId p) = meta' (ppEpisodeId p) \<Longrightarrow> continue_of meta p = continue_of meta' p"
  by (simp add: continue_of_def)

lemma catalog_episode_mem:
  "distinct (map (\<lambda>r. epID (erEpisode r)) (cdEpisodes db)) \<Longrightarrow> r \<in> set (cdEpisodes db) \<Longrightarrow>
   catalog_episode fmt db (epID (erEpisode r)) = Some (pb_of fmt r)"
  using row_by_mem [of "\<lambda>r. epID (erEpisode r)" "cdEpisodes db" r] by (simp add: catalog_episode_def)

lemma catalog_episode_absent:
  "i \<notin> (\<lambda>r. epID (erEpisode r)) ` set (cdEpisodes db) \<Longrightarrow> catalog_episode fmt db i = None"
  unfolding catalog_episode_def by (simp add: row_by_None [THEN iffD2])

text \<open>
  C26. The continue-watching page is the join of the user's progress with the catalog, whatever the order in which the concurrent
  chunk requests finish: for every permutation of the goroutines, when no catalog call fails and the ids are well formed, each
  item shows the catalog's episode of its record, and the bare id where the catalog has none; no record is dropped or shown with
  another record's episode, and the limit and the cursor are the activity service's.
\<close>

theorem continue_watching_join:
  assumes signed: "trim_space (user_of c) \<noteq> []"
    and page: "GetContinueWatching parse x (user_of c) (continue_limit limitq) cursor rows = Inr (its, limit, nextCursor)"
    and perm: "\<And>n. mset (ord [0..<n]) = mset [0..<n]"
    and calls: "\<And>j. \<not> fault (xs j) 0"
    and ids: "\<forall>p \<in> set its. uuid_of (ppEpisodeId p) = Some (ppEpisodeId p)"
    and key: "distinct (map (\<lambda>r. epID (erEpisode r)) (cdEpisodes db))"
  shows "ContinueWatching parse x (\<lambda>j ids. svc_GetEpisodesByIDs uuid_of fmt (xs j) ids db) ord c rid limitq cursor rows =
    WriteJSON 200 \<lparr>crItems = map (continue_of (catalog_episode fmt db)) its, crLimit = limit, crNextCursor = nextCursor\<rparr>"
proof -
  let ?ids = "map ppEpisodeId its" and ?call = "\<lambda>j ids. svc_GetEpisodesByIDs uuid_of fmt (xs j) ids db"
  let ?ok = "\<lambda>ids. map (pb_of fmt) (filter (\<lambda>r. epID (erEpisode r) \<in> set ids) (cdEpisodes db))"
  have whole: "(\<Union>c \<in> set (chunks 20 ?ids). set c) = set ?ids" using concat_chunks [of 20 ?ids] by (metis set_concat zero_less_numeral)
  have ok: "?call j (chunks 20 ?ids ! j) = Inr (?ok (chunks 20 ?ids ! j))" if "j < length (chunks 20 ?ids)" for j
  proof -
    have "set (chunks 20 ?ids ! j) \<subseteq> set ?ids" using whole nth_mem [OF that] by blast
    then show ?thesis using ids calls by (intro svc_GetEpisodesByIDs_known) auto
  qed
  obtain eps where fetched: "fetchEpisodesConcurrently ?call ord ?ids 20 = Inr eps" and eps: "set eps = (\<Union>c \<in> set (chunks 20 ?ids). set (?ok c))"
    using fetch_all_succeed [of ?ids ?call ?ok ord, OF ok perm] by blast
  have eps': "set eps = pb_of fmt ` {r \<in> set (cdEpisodes db). epID (erEpisode r) \<in> set ?ids}"
    unfolding eps whole [symmetric] by auto
  let ?meta = "fold (\<lambda>e m. m(peId e \<mapsto> e)) eps Map.empty"
  have "?meta (ppEpisodeId p) = catalog_episode fmt db (ppEpisodeId p)" if "p \<in> set its" for p
  proof -
    have "?meta i = (if i \<in> peId ` set eps then catalog_episode fmt db i else None)" for i
      by (rule fold_meta) (use catalog_episode_mem [OF key] in \<open>force simp: eps'\<close>)
    moreover have "catalog_episode fmt db i = None" if "i \<in> set ?ids" "i \<notin> peId ` set eps" for i
    proof -
      have "i \<notin> (\<lambda>r. epID (erEpisode r)) ` set (cdEpisodes db)" using that by (force simp: eps' image_iff)
      then show ?thesis by (rule catalog_episode_absent)
    qed
    ultimately show ?thesis using that by simp
  qed
  then have "map (continue_of ?meta) its = map (continue_of (catalog_episode fmt db)) its" by (auto intro: continue_of_cong)
  note eq = this [symmetric]
  show ?thesis unfolding eq using signed by (simp add: ContinueWatching_def page fetched Let_def)
qed

definition cw_episode :: episode_row where
  "cw_episode = \<lparr>erEpisode = \<lparr>epID = ''e1'', epAnimeID = ''a'', epNumber = 3, epTitle = ''t'', epURL = ''x'', epAiredAt = None\<rparr>, erIsFiller = False, erUpdatedAt = 0\<rparr>"

theorem continue_watching_join_witness:
  "let db = \<lparr>cdAnime = [], cdExtAnime = [], cdEpisodes = [cw_episode], cdExtEpisodes = [], cdOutbox = []\<rparr>;
       its = [toProtoProgress (cw_row ''e2'' 5000000), toProtoProgress (cw_row ''e1'' 1000000)]
   in ContinueWatching Some (calm 0 []) (\<lambda>j ids. svc_GetEpisodesByIDs Some (\<lambda>_. []) (calm 0 []) ids db) rev \<lparr>ctxUserID = Some ''u'', ctxRole = None\<rparr>
        ''r'' [] [] [cw_row ''e1'' 1000000, cw_row ''e2'' 5000000] =
      WriteJSON 200 \<lparr>crItems = map (continue_of (catalog_episode (\<lambda>_. []) db)) its, crLimit = 25, crNextCursor = []\<rparr>"
proof -
  let ?c = "\<lparr>ctxUserID = Some ''u'', ctxRole = None\<rparr>" and ?rows = "[cw_row ''e1'' 1000000, cw_row ''e2'' 5000000]"
  let ?db = "\<lparr>cdAnime = [], cdExtAnime = [], cdEpisodes = [cw_episode], cdExtEpisodes = [], cdOutbox = []\<rparr>"
  have u: "trim_space ''u'' = ''u''" by (rule trim_space_all_plain) (simp add: plain_ascii)
  have page: "GetContinueWatching Some (calm 0 []) (user_of ?c) (continue_limit []) [] ?rows =
      Inr ([toProtoProgress (cw_row ''e2'' 5000000), toProtoProgress (cw_row ''e1'' 1000000)], 25, [])"
    by (simp add: GetContinueWatching_def user_of_def u continue_limit_def clampLimit_def decodeCursor_def progress_List_def order_by_desc_def
        cw_row_def list_key_def)
  show ?thesis unfolding Let_def
    by (rule continue_watching_join [where xs = "\<lambda>_. calm 0 []", OF _ page]) (simp_all add: user_of_def u)
qed

end
