(* ===== verification/Bff_Jikan.thy ===== *)
theory Bff_Jikan
  imports Ingestion_Jobs Bff_Reads
begin

text \<open>
  How the gateway feeds the ingestion queue: the search fallback to Jikan (services/bff/internal/handlers/jikan_fallback.go) and the administrator's
  backfill (services/bff/internal/admin/jikan_backfill.go). A queued job is its subject with the number, as in \<open>Ingestion_Jobs\<close>; the HTTP
  exchange and JSON decoding are parameters.
\<close>

section \<open>The search fallback\<close>

definition bff_headers :: headers where
  "bff_headers = header_set ''User-Agent'' ''anime-platform-bff/1.0'' (header_set ''Accept'' ''application/json'' [])"

definition NewJikanFallback :: "string \<Rightarrow> string" where
  "NewJikanFallback baseURL = trim_right_slash (if baseURL = [] then ''https://api.jikan.moe/v4'' else baseURL)"

definition fallback_hit :: "anime_data \<Rightarrow> anime" where
  "fallback_hit a =
     \<lparr>anID = [], anTitle = trim_space (adTitle a), anTitleEnglish = trim_space (adTitleEnglish a), anTitleJapanese = trim_space (adTitleJapanese a),
      anURL = [], anImage = trim_space (adImage a), anDescription = trim_space (adSynopsis a),
      anGenres = filter (\<lambda>g. g \<noteq> []) (map trim_space (adGenres a)), anSubOrDub = [], anType = trim_space (adType a), anStatus = trim_space (adStatus a),
      anOtherName = [], anTotalEpisodes = adEpisodes a, anScore = adScore a\<rparr>"

text \<open>The numbers are published in a goroutine, errors ignored: \<open>pub\<close> says which of them arrive.\<close>

definition fallback_Search ::
  "http_env \<Rightarrow> (string \<Rightarrow> anime_data list option) \<Rightarrow> string \<Rightarrow> bool \<Rightarrow> (i32 \<Rightarrow> bool) \<Rightarrow> string \<Rightarrow> int \<Rightarrow> (string \<times> int) list \<Rightarrow>
   (client_error + anime list) \<times> (string \<times> int) list" where
  "fallback_Search E decode base js pub q limit jobs =
     (let limit = (if limit \<le> 0 then 10 else limit);
          rawURL = base @ ''/anime?q='' @ query_escape q @ ''&limit='' @ format_int limit @ ''&order_by=popularity&sort=asc''
      in if \<not> heRequestOk E rawURL then (Inl BadRequestURL, jobs)
         else
           (case heDo E rawURL bff_headers of
              None \<Rightarrow> (Inl Transport, jobs)
            | Some (status, None) \<Rightarrow> (Inl ReadBody, jobs)
            | Some (status, Some body) \<Rightarrow>
                if status \<noteq> 200 then (Inl (BadStatus status []), jobs)
                else
                  (case decode (take (2 * 2 ^ 20) body) of
                     None \<Rightarrow> (Inl (DecodeError []), jobs)
                   | Some ds \<Rightarrow>
                       let found = filter (\<lambda>d. sint (adMalID d) > 0) ds; malIDs = map adMalID found
                       in (Inr (map fallback_hit found),
                           if js \<and> malIDs \<noteq> [] then jobs @ map (\<lambda>i. (''ingestion.jikan.sync'', sint i)) (filter pub malIDs) else jobs))))"

section \<open>The backfill\<close>

text \<open>
  \<open>leDo\<close> gives the status and what could be read of the body, an error of reading ignored; \<open>leIds\<close> decodes the numbers of a list.
\<close>

record list_env =
  leParse :: "string \<Rightarrow> bool"
  leRequestOk :: "string \<Rightarrow> bool"
  leDo :: "string \<Rightarrow> headers \<Rightarrow> (nat \<times> string) option"
  leIds :: "string \<Rightarrow> int list option"

definition fetchMALIDs :: "list_env \<Rightarrow> string \<Rightarrow> client_error + int list" where
  "fetchMALIDs L rawURL =
     (if \<not> leParse L rawURL then Inl NilURL
      else if \<not> leRequestOk L rawURL then Inl BadRequestURL
      else
        (case leDo L rawURL bff_headers of
           None \<Rightarrow> Inl Transport
         | Some (status, body) \<Rightarrow>
             let b = take (2 * 2 ^ 20) body
             in if status \<noteq> 200 then Inl (BadStatus status (take (min (length b) 200) b))
                else (case leIds L b of None \<Rightarrow> Inl (DecodeError []) | Some ids \<Rightarrow> Inr (filter (\<lambda>i. i > 0) ids))))"

datatype backfill_error = FetchFailed client_error | PublishFailed

record publish_result =
  prRequested :: nat
  prPublished :: nat

text \<open>All pages first: how many numbers were listed, and which.\<close>

fun list_pages :: "(int \<Rightarrow> client_error + int list) \<Rightarrow> int \<Rightarrow> nat \<Rightarrow> nat \<Rightarrow> int list \<Rightarrow> client_error + nat \<times> int list" where
  "list_pages get p 0 requested dedup = Inr (requested, dedup)"
| "list_pages get p (Suc n) requested dedup =
     (case get p of
        Inl e \<Rightarrow> Inl e
      | Inr ids \<Rightarrow> list_pages get (p + 1) n (requested + length ids) (fold List.insert ids dedup))"

text \<open>Then the numbers are published in the map's order, up to the first failure.\<close>

fun publish_ids :: "(int \<Rightarrow> bool) \<Rightarrow> int list \<Rightarrow> nat \<Rightarrow> (string \<times> int) list \<Rightarrow> (backfill_error + nat) \<times> (string \<times> int) list" where
  "publish_ids pub [] published jobs = (Inr published, jobs)"
| "publish_ids pub (i # is) published jobs =
     (if pub i then publish_ids pub is (published + 1) (jobs @ [(''ingestion.jikan.sync'', i)]) else (Inl PublishFailed, jobs))"

definition enqueueJikanList ::
  "list_env \<Rightarrow> (int list \<Rightarrow> int list) \<Rightarrow> (int \<Rightarrow> bool) \<Rightarrow> (int \<Rightarrow> string) \<Rightarrow> int \<Rightarrow> (string \<times> int) list \<Rightarrow>
   (backfill_error + publish_result) \<times> (string \<times> int) list" where
  "enqueueJikanList L ord pub urlForPage pages jobs =
     (case list_pages (\<lambda>p. fetchMALIDs L (urlForPage p)) 1 (nat pages) 0 [] of
        Inl e \<Rightarrow> (Inl (FetchFailed e), jobs)
      | Inr (requested, dedup) \<Rightarrow>
          (case publish_ids pub (ord dedup) 0 jobs of
             (Inl e, jobs) \<Rightarrow> (Inl e, jobs)
           | (Inr published, jobs) \<Rightarrow> (Inr \<lparr>prRequested = requested, prPublished = published\<rparr>, jobs)))"

definition parseIntDefault :: "string \<Rightarrow> int \<Rightarrow> int" where
  "parseIntDefault v def' =
     (let v = trim_space v in if v = [] then def' else (case parse_int v of None \<Rightarrow> def' | Some n \<Rightarrow> n))"

definition page_count :: "int \<Rightarrow> string \<Rightarrow> int" where
  "page_count most q =
     (let pages = parseIntDefault q 1; pages = (if pages < 1 then 1 else pages) in if pages > most then most else pages)"

text \<open>\<open>txt\<close> is the text of an error.\<close>

definition backfill_reply ::
  "(backfill_error \<Rightarrow> string) \<Rightarrow> string \<Rightarrow> (backfill_error + publish_result) \<times> (string \<times> int) list \<Rightarrow> publish_result response \<times> (string \<times> int) list" where
  "backfill_reply txt rid r =
     (case r of (Inl e, jobs) \<Rightarrow> (WriteError 502 ''BACKFILL_FAILED'' (txt e) rid None, jobs) | (Inr res, jobs) \<Rightarrow> (WriteJSON 200 res, jobs))"

definition top_url :: "string \<Rightarrow> int \<Rightarrow> string" where
  "top_url base p = trim_right_slash base @ ''/top/anime?page='' @ format_int p"

definition season_url :: "string \<Rightarrow> int \<Rightarrow> string" where
  "season_url base p = trim_right_slash base @ ''/seasons/now?page='' @ format_int p"

definition handleTop ::
  "list_env \<Rightarrow> (int list \<Rightarrow> int list) \<Rightarrow> (int \<Rightarrow> bool) \<Rightarrow> (backfill_error \<Rightarrow> string) \<Rightarrow> string \<Rightarrow> string \<Rightarrow> string \<Rightarrow> (string \<times> int) list \<Rightarrow>
   publish_result response \<times> (string \<times> int) list" where
  "handleTop L ord pub txt rid base pagesq jobs = backfill_reply txt rid (enqueueJikanList L ord pub (top_url base) (page_count 200 pagesq) jobs)"

definition handleSeasonNow ::
  "list_env \<Rightarrow> (int list \<Rightarrow> int list) \<Rightarrow> (int \<Rightarrow> bool) \<Rightarrow> (backfill_error \<Rightarrow> string) \<Rightarrow> string \<Rightarrow> string \<Rightarrow> string \<Rightarrow> (string \<times> int) list \<Rightarrow>
   publish_result response \<times> (string \<times> int) list" where
  "handleSeasonNow L ord pub txt rid base pagesq jobs = backfill_reply txt rid (enqueueJikanList L ord pub (season_url base) (page_count 100 pagesq) jobs)"

section \<open>What a backfill queues\<close>

lemma list_pages_all:
  assumes "list_pages get p n requested dedup = Inr (r, ids)" "distinct dedup"
  shows "distinct ids \<and> (\<exists>lists. (\<forall>k < n. get (p + int k) = Inr (lists k)) \<and> set ids = set dedup \<union> (\<Union>k < n. set (lists k)) \<and>
    r = requested + (\<Sum>k < n. length (lists k)))"
  using assms
proof (induction n arbitrary: p requested dedup)
  case (Suc n)
  then obtain xs where xs: "get p = Inr xs" "list_pages get (p + 1) n (requested + length xs) (fold List.insert xs dedup) = Inr (r, ids)"
    by (auto split: sum.splits)
  have ins: "distinct (fold List.insert xs dedup)" "set (fold List.insert xs dedup) = set dedup \<union> set xs"
    using Suc.prems(2) by (induction xs arbitrary: dedup) auto
  from Suc.IH [OF xs(2) ins(1)] obtain lists where l: "distinct ids" "\<forall>k < n. get (p + 1 + int k) = Inr (lists k)"
    "set ids = set (fold List.insert xs dedup) \<union> (\<Union>k < n. set (lists k))" "r = requested + length xs + (\<Sum>k < n. length (lists k))" by blast
  let ?l = "\<lambda>k. case k of 0 \<Rightarrow> xs | Suc j \<Rightarrow> lists j"
  have "\<forall>k < Suc n. get (p + int k) = Inr (?l k)" using xs(1) l(2) by (auto simp: less_Suc_eq_0_disj add.assoc)
  moreover have "(\<Union>k < Suc n. set (?l k)) = set xs \<union> (\<Union>k < n. set (lists k))" by (auto simp: less_Suc_eq_0_disj)
  moreover have "(\<Sum>k < Suc n. length (?l k)) = length xs + (\<Sum>k < n. length (lists k))" by (subst sum.lessThan_Suc_shift) simp
  ultimately show ?case using l ins(2) by (intro conjI exI [of _ ?l]) auto
qed simp

lemma publish_ids_prefix:
  "publish_ids pub is k jobs = (r, jobs') \<Longrightarrow>
   \<exists>sent rest. is = sent @ rest \<and> jobs' = jobs @ map (\<lambda>i. (''ingestion.jikan.sync'', i)) sent \<and>
     r = (if rest = [] then Inr (k + length sent) else Inl PublishFailed)"
proof (induction "is" arbitrary: k jobs)
  case (Cons i "is")
  show ?case
  proof (cases "pub i")
    case True
    with Cons.prems have "publish_ids pub is (k + 1) (jobs @ [(''ingestion.jikan.sync'', i)]) = (r, jobs')" by simp
    from Cons.IH [OF this] obtain sent rest where "is = sent @ rest" "jobs' = (jobs @ [(''ingestion.jikan.sync'', i)]) @ map (\<lambda>i. (''ingestion.jikan.sync'', i)) sent"
      "r = (if rest = [] then Inr (k + 1 + length sent) else Inl PublishFailed)" by (elim exE conjE) (rule that)
    then show ?thesis by (intro exI [of _ "i # sent"] exI [of _ rest] conjI) simp_all
  next
    case False
    with Cons.prems show ?thesis by (intro exI [of _ "[]"] exI [of _ "i # is"] conjI) simp_all
  qed
qed simp

lemma fetchMALIDs_positive: "fetchMALIDs L u = Inr ids \<Longrightarrow> \<forall>i \<in> set ids. i > 0"
  by (auto simp: fetchMALIDs_def Let_def split: if_splits option.splits)

lemma page_count_range: "1 \<le> most \<Longrightarrow> 1 \<le> page_count most q \<and> page_count most q \<le> most"
  by (simp add: page_count_def Let_def)

lemma backfill_reply_ok: "backfill_reply txt rid R = (WriteJSON 200 res, jobs') \<Longrightarrow> R = (Inr res, jobs')"
  by (auto simp: backfill_reply_def WriteJSON_def WriteError_def split: prod.splits sum.splits)

lemma enqueue_success:
  assumes "enqueueJikanList L ord pub url pages jobs = (Inr res, jobs')"
    and ord: "\<And>xs. mset (ord xs) = mset xs"
  shows "\<exists>sent lists. jobs' = jobs @ map (\<lambda>i. (''ingestion.jikan.sync'', i)) sent \<and> distinct sent \<and> prPublished res = length sent \<and>
    (\<forall>k < nat pages. fetchMALIDs L (url (1 + int k)) = Inr (lists k)) \<and> set sent = (\<Union>k < nat pages. set (lists k)) \<and>
    prRequested res = (\<Sum>k < nat pages. length (lists k))"
proof -
  obtain requested dedup where p: "list_pages (\<lambda>p. fetchMALIDs L (url p)) 1 (nat pages) 0 [] = Inr (requested, dedup)"
    and q: "publish_ids pub (ord dedup) 0 jobs = (Inr (prPublished res), jobs')" "prRequested res = requested"
    using assms(1) by (auto simp: enqueueJikanList_def split: sum.splits prod.splits)
  obtain sent rest where s: "ord dedup = sent @ rest" "jobs' = jobs @ map (\<lambda>i. (''ingestion.jikan.sync'', i)) sent"
    "Inr (prPublished res) = (if rest = [] then Inr (0 + length sent) else Inl PublishFailed)"
    using publish_ids_prefix [OF q(1)] by (elim exE conjE) (rule that)
  have all: "rest = []" "prPublished res = length sent" using s(3) by (simp_all split: if_splits)
  from list_pages_all [OF p] obtain lists where l: "distinct dedup" "\<forall>k < nat pages. fetchMALIDs L (url (1 + int k)) = Inr (lists k)"
    "set dedup = (\<Union>k < nat pages. set (lists k))" "requested = (\<Sum>k < nat pages. length (lists k))" by auto
  have "mset sent = mset dedup" using ord [of dedup] s(1) all(1) by simp
  then have "set sent = set dedup" "distinct sent" using l(1) by (metis set_mset_mset, metis distinct_count_atmost_1 mset_eq_setD)
  with l s(2) all(2) q(2) show ?thesis by (intro exI [of _ sent] exI [of _ lists] conjI) simp_all
qed

text \<open>
  C36. A backfill that reports success queued every anime of the pages it read exactly once: for the top list up to 200 pages and the
  season up to 100, each positive number of each of these pages is in exactly one new job of the ingestion queue, in whatever order
  the map iterates; every queued number is one the worker accepts, and the two counts of the answer are the numbers listed and the
  jobs added.
\<close>

theorem backfill_queues_all:
  assumes "(if byTop then handleTop L ord pub txt rid base pagesq jobs else handleSeasonNow L ord pub txt rid base pagesq jobs) = (WriteJSON 200 res, jobs')"
    and "\<And>xs. mset (ord xs) = mset xs"
  shows "\<exists>pages sent lists. 1 \<le> pages \<and> pages \<le> (if byTop then 200 else 100) \<and>
    jobs' = jobs @ map (\<lambda>i. (''ingestion.jikan.sync'', i)) sent \<and> distinct sent \<and> (\<forall>i \<in> set sent. i > 0) \<and>
    (\<forall>k < nat pages. fetchMALIDs L ((if byTop then top_url else season_url) base (1 + int k)) = Inr (lists k)) \<and>
    set sent = (\<Union>k < nat pages. set (lists k)) \<and> prRequested res = (\<Sum>k < nat pages. length (lists k)) \<and> prPublished res = length sent"
proof -
  define pages where "pages = page_count (if byTop then 200 else 100) pagesq"
  have r: "1 \<le> pages" "pages \<le> (if byTop then 200 else 100)" using page_count_range [of "if byTop then 200 else 100" pagesq] by (simp_all add: pages_def)
  have "enqueueJikanList L ord pub ((if byTop then top_url else season_url) base) pages jobs = (Inr res, jobs')"
    using assms(1) by (cases byTop) (auto simp: handleTop_def handleSeasonNow_def pages_def dest: backfill_reply_ok)
  from enqueue_success [OF this assms(2)] obtain sent lists where s: "jobs' = jobs @ map (\<lambda>i. (''ingestion.jikan.sync'', i)) sent" "distinct sent"
    "prPublished res = length sent" "\<forall>k < nat pages. fetchMALIDs L ((if byTop then top_url else season_url) base (1 + int k)) = Inr (lists k)"
    "set sent = (\<Union>k < nat pages. set (lists k))" "prRequested res = (\<Sum>k < nat pages. length (lists k))"
    by (elim exE conjE) (rule that)
  have "\<forall>i \<in> set sent. i > 0" using s(4,5) fetchMALIDs_positive by blast
  with r s show ?thesis by (intro exI [of _ pages] exI [of _ sent] exI [of _ lists] conjI)
qed

definition demo_lists :: list_env where
  "demo_lists = \<lparr>leParse = (\<lambda>_. True), leRequestOk = (\<lambda>_. True),
     leDo = (\<lambda>u _. if u = ''j/top/anime?page=1'' then Some (200, ''a'') else if u = ''j/top/anime?page=2'' then Some (200, ''b'') else None),
     leIds = (\<lambda>b. if b = ''a'' then Some [5, 0, 7] else Some [7, 9])\<rparr>"

lemma demo_backfill:
  "handleTop demo_lists rev (\<lambda>_. True) (\<lambda>_. []) [] ''j/'' ''2'' [] =
     (WriteJSON 200 \<lparr>prRequested = 4, prPublished = 3\<rparr>, [(''ingestion.jikan.sync'', 5), (''ingestion.jikan.sync'', 7), (''ingestion.jikan.sync'', 9)])"
proof -
  have "page_count 200 ''2'' = 2" by code_simp
  moreover have "enqueueJikanList demo_lists rev (\<lambda>_. True) (top_url ''j/'') 2 [] =
      (Inr \<lparr>prRequested = 4, prPublished = 3\<rparr>, [(''ingestion.jikan.sync'', 5), (''ingestion.jikan.sync'', 7), (''ingestion.jikan.sync'', 9)])"
  proof -
    have "top_url ''j/'' 1 = ''j/top/anime?page=1''" "top_url ''j/'' 2 = ''j/top/anime?page=2''" by code_simp+
    then have "fetchMALIDs demo_lists (top_url ''j/'' 1) = Inr [5, 7]" "fetchMALIDs demo_lists (top_url ''j/'' 2) = Inr [7, 9]"
      by (simp_all add: fetchMALIDs_def demo_lists_def)
    then show ?thesis by (simp add: enqueueJikanList_def eval_nat_numeral)
  qed
  ultimately show ?thesis by (simp add: handleTop_def backfill_reply_def)
qed

theorem backfill_queues_all_witness:
  "\<exists>pages sent lists. 1 \<le> pages \<and> pages \<le> 200 \<and>
    [(''ingestion.jikan.sync'', 5), (''ingestion.jikan.sync'', 7), (''ingestion.jikan.sync'', 9)] = [] @ map (\<lambda>i. (''ingestion.jikan.sync'', i :: int)) sent \<and>
    distinct sent \<and> (\<forall>i \<in> set sent. i > 0) \<and> (\<forall>k < nat pages. fetchMALIDs demo_lists (top_url ''j/'' (1 + int k)) = Inr (lists k)) \<and>
    set sent = (\<Union>k < nat pages. set (lists k)) \<and> 4 = (\<Sum>k < nat pages. length (lists k)) \<and> 3 = length sent"
  using backfill_queues_all [where byTop = True, simplified if_True, OF demo_backfill] by simp

end
