(* ===== verification/Analytics.thy ===== *)
theory Analytics
  imports Bff_Social "HOL-Library.Monad_Syntax"
begin

text \<open>
  Analytics: the publisher every service uses (internal/platform/analytics), and the analytics service that turns messages into PostHog events
  (services/analytics/internal: handler, consumer, posthog). A JSON text is parsed by the parameter \<open>aeParse\<close>; decoding a value into a Go struct is
  written out as encoding/json does it: members match a field regardless of case, unknown members are skipped, null leaves a field as it is, a member
  of another type is an error. PostHog's queue is a list.
\<close>

section \<open>JSON values and structs\<close>

datatype json = JNull | JBoolean bool | JNumber int | JDecimal string | JString string | JArray "json list" | JObject "(string \<times> json) list"

type_synonym members = "(string \<times> json) list"

definition object_members :: "json \<Rightarrow> members option" where
  "object_members j = (case j of JNull \<Rightarrow> Some [] | JObject ms \<Rightarrow> Some ms | _ \<Rightarrow> None)"

definition read_field :: "(json \<Rightarrow> 'a \<Rightarrow> 'a option) \<Rightarrow> string \<Rightarrow> 'a \<Rightarrow> members \<Rightarrow> 'a option" where
  "read_field dec k z ms = fold (\<lambda>(k', v) acc. case acc of None \<Rightarrow> None | Some a \<Rightarrow> if equal_fold k' k then dec v a else Some a) ms (Some z)"

definition into_string :: "json \<Rightarrow> string \<Rightarrow> string option" where
  "into_string j old = (case j of JNull \<Rightarrow> Some old | JString s \<Rightarrow> Some s | _ \<Rightarrow> None)"

definition into_int :: "nat \<Rightarrow> json \<Rightarrow> int \<Rightarrow> int option" where
  "into_int w j old = (case j of JNull \<Rightarrow> Some old | JNumber n \<Rightarrow> if - (2 ^ (w - 1)) \<le> n \<and> n < 2 ^ (w - 1) then Some n else None | _ \<Rightarrow> None)"

definition into_bool :: "json \<Rightarrow> bool \<Rightarrow> bool option" where
  "into_bool j old = (case j of JNull \<Rightarrow> Some old | JBoolean b \<Rightarrow> Some b | _ \<Rightarrow> None)"

definition into_time :: "(string \<Rightarrow> time option) \<Rightarrow> json \<Rightarrow> time \<Rightarrow> time option" where
  "into_time tm j old = (case j of JNull \<Rightarrow> Some old | JString s \<Rightarrow> tm s | _ \<Rightarrow> None)"

definition into_any :: "json \<Rightarrow> json option \<Rightarrow> json option option" where
  "into_any j old = (case j of JNull \<Rightarrow> Some None | _ \<Rightarrow> Some (Some j))"

definition into_raw :: "json \<Rightarrow> json option \<Rightarrow> json option option" where
  "into_raw j old = Some (Some j)"

definition into_nested :: "(members \<Rightarrow> 'a \<Rightarrow> 'a option) \<Rightarrow> json \<Rightarrow> 'a \<Rightarrow> 'a option" where
  "into_nested dec j old = do { ms \<leftarrow> object_members j; dec ms old }"

abbreviation str_field :: "string \<Rightarrow> members \<Rightarrow> string option" where
  "str_field k ms \<equiv> read_field into_string k [] ms"

section \<open>PostHog\<close>

datatype pval = VStr string | VInt int | VBool bool | VTime time | VAny json

datatype ph_msg = PhCapture string string "(string \<times> pval) list" | PhIdentify string "(string \<times> pval) list"

text \<open>The client: \<open>None\<close> is a nil client; otherwise which messages the SDK's queue takes.\<close>

type_synonym ph_client = "(ph_msg \<Rightarrow> bool) option"

definition enqueue :: "ph_client \<Rightarrow> ph_msg \<Rightarrow> ph_msg list \<Rightarrow> ph_msg list" where
  "enqueue c m q = (case c of None \<Rightarrow> q | Some takes \<Rightarrow> if takes m then q @ [m] else q)"

text \<open>\<open>New\<close> passes the configuration to the SDK, whose client it wraps; \<open>Close\<close> is the SDK's, and nothing for a nil client.\<close>

record ph_config =
  phEndpoint :: string
  phBatchSize :: int
  phInterval :: time

definition ph_New :: "(string \<Rightarrow> ph_config \<Rightarrow> 'err + (ph_msg \<Rightarrow> bool)) \<Rightarrow> string \<Rightarrow> string \<Rightarrow> time \<Rightarrow> int \<Rightarrow> 'err + ph_client" where
  "ph_New NewWithConfig apiKey host flushInterval batchSize =
     (case NewWithConfig apiKey \<lparr>phEndpoint = host, phBatchSize = batchSize, phInterval = flushInterval\<rparr> of
        Inl err \<Rightarrow> Inl err
      | Inr client \<Rightarrow> Inr (Some client))"

definition ph_Close :: "(ph_msg list \<Rightarrow> 'err option) \<Rightarrow> ph_client \<Rightarrow> ph_msg list \<Rightarrow> 'err option" where
  "ph_Close close c q = (case c of None \<Rightarrow> None | Some _ \<Rightarrow> close q)"

lemma ph_New_live: "ph_New NewWithConfig apiKey host flushInterval batchSize = Inr c \<Longrightarrow> c \<noteq> None"
  by (auto simp: ph_New_def split: sum.splits)

definition ph_Capture :: "ph_client \<Rightarrow> string \<Rightarrow> string \<Rightarrow> (string \<times> pval) list \<Rightarrow> ph_msg list \<Rightarrow> ph_msg list" where
  "ph_Capture c distinctID event props q = enqueue c (PhCapture distinctID event props) q"

definition ph_Identify :: "ph_client \<Rightarrow> string \<Rightarrow> (string \<times> pval) list \<Rightarrow> ph_msg list \<Rightarrow> ph_msg list" where
  "ph_Identify c userID traits q = enqueue c (PhIdentify userID traits) q"

section \<open>The dispatcher\<close>

record analytics_env =
  aeParse :: "string \<Rightarrow> json option"
  aeTime :: "string \<Rightarrow> time option"
  aeZero :: time
  aeClient :: ph_client

definition unmarshal :: "analytics_env \<Rightarrow> msg \<Rightarrow> members option" where
  "unmarshal E m = do { j \<leftarrow> aeParse E (mData m); object_members j }"

definition time_field :: "analytics_env \<Rightarrow> string \<Rightarrow> members \<Rightarrow> time option" where
  "time_field E k ms = read_field (into_time (aeTime E)) k (aeZero E) ms"

definition handleAuthRegistered :: "analytics_env \<Rightarrow> msg \<Rightarrow> ph_msg list \<Rightarrow> ph_msg list" where
  "handleAuthRegistered E m q =
     (case do { ms \<leftarrow> unmarshal E m; uid \<leftarrow> str_field ''user_id'' ms; name \<leftarrow> str_field ''username'' ms; t \<leftarrow> time_field E ''occurred_at'' ms;
          Some (uid, name, t) } of
        None \<Rightarrow> q
      | Some (uid, name, t) \<Rightarrow>
          ph_Capture (aeClient E) uid ''user_registered'' [(''username'', VStr name)]
            (ph_Identify (aeClient E) uid [(''username'', VStr name), (''created_at'', VTime t)] q))"

definition handleAuthLoggedIn :: "analytics_env \<Rightarrow> msg \<Rightarrow> ph_msg list \<Rightarrow> ph_msg list" where
  "handleAuthLoggedIn E m q =
     (case do { ms \<leftarrow> unmarshal E m; uid \<leftarrow> str_field ''user_id'' ms; t \<leftarrow> time_field E ''occurred_at'' ms; Some uid } of
        None \<Rightarrow> q
      | Some uid \<Rightarrow> ph_Capture (aeClient E) uid ''user_logged_in'' [] q)"

definition handleStreamingStarted :: "analytics_env \<Rightarrow> msg \<Rightarrow> ph_msg list \<Rightarrow> ph_msg list" where
  "handleStreamingStarted E m q =
     (case do { ms \<leftarrow> unmarshal E m; uid \<leftarrow> str_field ''user_id'' ms; ep \<leftarrow> str_field ''episode_id'' ms; an \<leftarrow> str_field ''anime_id'' ms;
          cat \<leftarrow> str_field ''category'' ms; t \<leftarrow> time_field E ''occurred_at'' ms; Some (uid, ep, an, cat) } of
        None \<Rightarrow> q
      | Some (uid, ep, an, cat) \<Rightarrow>
          ph_Capture (aeClient E) uid ''playback_started'' [(''episode_id'', VStr ep), (''anime_id'', VStr an), (''category'', VStr cat)] q)"

definition or_anonymous :: "string \<Rightarrow> string" where
  "or_anonymous uid = (if uid = [] then ''anonymous'' else uid)"

definition handleAnimeViewed :: "analytics_env \<Rightarrow> msg \<Rightarrow> ph_msg list \<Rightarrow> ph_msg list" where
  "handleAnimeViewed E m q =
     (case do { ms \<leftarrow> unmarshal E m; uid \<leftarrow> str_field ''user_id'' ms; an \<leftarrow> str_field ''anime_id'' ms; title \<leftarrow> str_field ''title'' ms;
          t \<leftarrow> time_field E ''occurred_at'' ms; Some (uid, an, title) } of
        None \<Rightarrow> q
      | Some (uid, an, title) \<Rightarrow> ph_Capture (aeClient E) (or_anonymous uid) ''anime_viewed'' [(''anime_id'', VStr an), (''title'', VStr title)] q)"

definition handleSearchPerformed :: "analytics_env \<Rightarrow> msg \<Rightarrow> ph_msg list \<Rightarrow> ph_msg list" where
  "handleSearchPerformed E m q =
     (case do { ms \<leftarrow> unmarshal E m; uid \<leftarrow> str_field ''user_id'' ms; query \<leftarrow> str_field ''query'' ms; n \<leftarrow> read_field (into_int 64) ''results_count'' 0 ms;
          filters \<leftarrow> read_field into_any ''filters'' None ms; t \<leftarrow> time_field E ''occurred_at'' ms; Some (uid, query, n, filters) } of
        None \<Rightarrow> q
      | Some (uid, query, n, filters) \<Rightarrow>
          ph_Capture (aeClient E) (or_anonymous uid) ''search_performed''
            ([(''query'', VStr query), (''results_count'', VInt n), (''has_results'', VBool (n > 0))] @
             (case filters of None \<Rightarrow> [] | Some f \<Rightarrow> [(''filters'', VAny f)])) q)"

definition handleActivityProgress :: "analytics_env \<Rightarrow> msg \<Rightarrow> ph_msg list \<Rightarrow> ph_msg list" where
  "handleActivityProgress E m q =
     (case do { ms \<leftarrow> unmarshal E m; uid \<leftarrow> str_field ''user_id'' ms; ep \<leftarrow> str_field ''episode_id'' ms; an \<leftarrow> str_field ''anime_id'' ms;
          pos \<leftarrow> read_field (into_int 32) ''position_seconds'' 0 ms; dur \<leftarrow> read_field (into_int 32) ''duration_seconds'' 0 ms;
          completed \<leftarrow> read_field into_bool ''completed'' False ms; Some (uid, ep, an, dur, completed) } of
        None \<Rightarrow> q
      | Some (uid, ep, an, dur, completed) \<Rightarrow>
          if \<not> completed then q
          else ph_Capture (aeClient E) uid ''episode_completed'' [(''episode_id'', VStr ep), (''anime_id'', VStr an), (''duration_seconds'', VInt dur)] q)"

definition handleSocialComment :: "analytics_env \<Rightarrow> msg \<Rightarrow> ph_msg list \<Rightarrow> ph_msg list" where
  "handleSocialComment E m q =
     (let action = trim_prefix (mSubject m) ''social.comments.''
      in (case do { ms \<leftarrow> unmarshal E m; uid \<leftarrow> str_field ''user_id'' ms; an \<leftarrow> str_field ''anime_id'' ms; Some (uid, an) } of
            None \<Rightarrow> q
          | Some (uid, an) \<Rightarrow> if action \<noteq> ''create'' then q else ph_Capture (aeClient E) uid ''comment_created'' [(''anime_id'', VStr an)] q))"

text \<open>An absent \<open>data\<close> is the empty text, which is no JSON.\<close>

definition handleBillingPayment :: "analytics_env \<Rightarrow> msg \<Rightarrow> ph_msg list \<Rightarrow> ph_msg list" where
  "handleBillingPayment E m q =
     (case do { ms \<leftarrow> unmarshal E m; i \<leftarrow> str_field ''event_id'' ms; ty \<leftarrow> str_field ''event_type'' ms; data \<leftarrow> read_field into_raw ''data'' None ms;
          j \<leftarrow> data; os \<leftarrow> object_members j;
          email \<leftarrow> read_field (into_nested (\<lambda>ms old. read_field into_string ''email'' old ms)) ''customer_details'' [] os;
          amount \<leftarrow> read_field (into_int 64) ''amount_total'' 0 os; currency \<leftarrow> str_field ''currency'' os;
          uid \<leftarrow> read_field (into_nested (\<lambda>ms old. read_field into_string ''user_id'' old ms)) ''metadata'' [] os;
          Some (email, amount, currency, uid) } of
        None \<Rightarrow> q
      | Some (email, amount, currency, uid) \<Rightarrow>
          let distinctID = (if uid = [] then email else uid)
          in if distinctID = [] then q
             else ph_Capture (aeClient E) distinctID ''subscription_started'' [(''amount_cents'', VInt amount), (''currency'', VStr currency)] q)"

definition handleBillingSubscription :: "analytics_env \<Rightarrow> msg \<Rightarrow> ph_msg list \<Rightarrow> ph_msg list" where
  "handleBillingSubscription E m q =
     (case do { ms \<leftarrow> unmarshal E m; i \<leftarrow> str_field ''event_id'' ms; data \<leftarrow> read_field into_raw ''data'' None ms; j \<leftarrow> data; os \<leftarrow> object_members j;
          status \<leftarrow> str_field ''status'' os; uid \<leftarrow> read_field (into_nested (\<lambda>ms old. read_field into_string ''user_id'' old ms)) ''metadata'' [] os;
          amount \<leftarrow> read_field (into_nested (\<lambda>ms old. read_field (into_int 64) ''amount'' old ms)) ''plan'' 0 os;
          currency \<leftarrow> read_field (into_nested (\<lambda>ms old. read_field into_string ''currency'' old ms)) ''plan'' [] os;
          interval \<leftarrow> read_field (into_nested (\<lambda>ms old. read_field into_string ''interval'' old ms)) ''plan'' [] os;
          Some (status, uid, amount, currency, interval) } of
        None \<Rightarrow> q
      | Some (status, uid, amount, currency, interval) \<Rightarrow>
          if uid = [] \<or> status \<noteq> ''active'' then q
          else ph_Capture (aeClient E) uid ''subscription_renewed'' [(''amount_cents'', VInt amount), (''currency'', VStr currency), (''interval'', VStr interval)] q)"

definition Dispatch :: "analytics_env \<Rightarrow> msg \<Rightarrow> ph_msg list \<Rightarrow> ph_msg list" where
  "Dispatch E m q =
     (let subj = mSubject m
      in if subj = ''analytics.auth.registered'' then handleAuthRegistered E m q
         else if subj = ''analytics.auth.logged_in'' then handleAuthLoggedIn E m q
         else if subj = ''analytics.streaming.started'' then handleStreamingStarted E m q
         else if subj = ''analytics.catalog.anime_viewed'' then handleAnimeViewed E m q
         else if subj = ''analytics.search.performed'' then handleSearchPerformed E m q
         else if subj = ''activity.progress'' then handleActivityProgress E m q
         else if has_prefix subj ''social.comments.'' then handleSocialComment E m q
         else if subj = ''billing.payment.completed'' then handleBillingPayment E m q
         else if subj = ''billing.subscription.updated'' then handleBillingSubscription E m q
         else q)"

text \<open>One fetched batch: each message is dispatched and then acknowledged, whatever became of it; \<open>ok\<close> says which acknowledgements arrive.\<close>

definition process_batch :: "analytics_env \<Rightarrow> (msg \<Rightarrow> bool) \<Rightarrow> msg list \<Rightarrow> ph_msg list \<Rightarrow> ph_msg list \<times> msg list" where
  "process_batch E ok ms q = (fold (Dispatch E) ms q, filter ok ms)"

section \<open>The publisher\<close>

record event_env =
  eeID :: uuid
  eeNow :: time
  eeFmt :: "time \<Rightarrow> string"
  eeMarshal :: "json \<Rightarrow> string option"
  eeSend :: bool

definition analytics_event :: "event_env \<Rightarrow> string \<Rightarrow> string \<Rightarrow> members \<Rightarrow> json" where
  "analytics_event X eventName userID props =
     JObject ([(''event_id'', JString (eeID X)), (''event_name'', JString eventName)] @
       (if userID = [] then [] else [(''user_id'', JString userID)]) @ [(''occurred_at'', JString (eeFmt X (eeNow X)))] @
       (if props = [] then [] else [(''properties'', JObject props)]))"

text \<open>\<open>js\<close>: whether the publisher is there and has a stream.\<close>

definition analytics_Publish :: "bool \<Rightarrow> event_env \<Rightarrow> string \<Rightarrow> string \<Rightarrow> string \<Rightarrow> members \<Rightarrow> msg list \<Rightarrow> msg list" where
  "analytics_Publish js X subject eventName userID props st =
     (if \<not> js then st
      else
        (case eeMarshal X (analytics_event X eventName userID props) of
           None \<Rightarrow> st
         | Some data \<Rightarrow> if eeSend X then st @ [\<lparr>mSubject = subject, mData = data\<rparr>] else st))"

section \<open>From an event to PostHog\<close>

text \<open>The five places that publish (services/bff/internal/handlers, services/search/internal/grpcapi), with what they put into an event.\<close>

datatype tracked =
    Registered string string
  | LoggedIn string
  | PlaybackStarted string string string
  | AnimeViewed string string string
  | SearchPerformed string int

fun event_parts :: "tracked \<Rightarrow> string \<times> string \<times> string \<times> members" where
  "event_parts (Registered u name) = (''analytics.auth.registered'', ''user_registered'', u, [(''username'', JString name)])"
| "event_parts (LoggedIn u) = (''analytics.auth.logged_in'', ''user_logged_in'', u, [])"
| "event_parts (PlaybackStarted u ep cat) = (''analytics.streaming.started'', ''playback_started'', u, [(''category'', JString cat), (''episode_id'', JString ep)])"
| "event_parts (AnimeViewed u an title) = (''analytics.catalog.anime_viewed'', ''anime_viewed'', u, [(''anime_id'', JString an), (''title'', JString title)])"
| "event_parts (SearchPerformed query n) =
     (''analytics.search.performed'', ''search_performed'', [], [(''has_results'', JBoolean (n > 0)), (''query'', JString query), (''results_count'', JNumber n)])"

definition event_json :: "event_env \<Rightarrow> tracked \<Rightarrow> json" where
  "event_json X e = (case event_parts e of (subject, name, u, props) \<Rightarrow> analytics_event X name u props)"

definition track :: "event_env \<Rightarrow> tracked \<Rightarrow> msg list \<Rightarrow> msg list" where
  "track X e = (case event_parts e of (subject, name, u, props) \<Rightarrow> analytics_Publish True X subject name u props)"

text \<open>What arrives: the event and its user, and of the properties nothing.\<close>

fun captured :: "time \<Rightarrow> tracked \<Rightarrow> ph_msg list" where
  "captured t (Registered u name) =
     [PhIdentify u [(''username'', VStr []), (''created_at'', VTime t)], PhCapture u ''user_registered'' [(''username'', VStr [])]]"
| "captured t (LoggedIn u) = [PhCapture u ''user_logged_in'' []]"
| "captured t (PlaybackStarted u ep cat) = [PhCapture u ''playback_started'' [(''episode_id'', VStr []), (''anime_id'', VStr []), (''category'', VStr [])]]"
| "captured t (AnimeViewed u an title) = [PhCapture (or_anonymous u) ''anime_viewed'' [(''anime_id'', VStr []), (''title'', VStr [])]]"
| "captured t (SearchPerformed query n) =
     [PhCapture ''anonymous'' ''search_performed'' [(''query'', VStr []), (''results_count'', VInt 0), (''has_results'', VBool False)]]"

text \<open>The text of the event reads back as the event, that of its time as the time, and the stream and PostHog's queue take it.\<close>

definition analytics_up :: "analytics_env \<Rightarrow> event_env \<Rightarrow> tracked \<Rightarrow> bool" where
  "analytics_up E X e \<longleftrightarrow>
     eeSend X \<and> (\<exists>d. eeMarshal X (event_json X e) = Some d \<and> aeParse E d = Some (event_json X e)) \<and> aeTime E (eeFmt X (eeNow X)) = Some (eeNow X) \<and>
     aeClient E = Some (\<lambda>_. True)"

lemma event_names:
  "k \<in> {''event_id'', ''event_name'', ''user_id'', ''occurred_at'', ''properties''} \<Longrightarrow>
   f \<in> {''user_id'', ''username'', ''occurred_at'', ''episode_id'', ''anime_id'', ''category'', ''title'', ''query'', ''results_count'', ''filters''} \<Longrightarrow>
   equal_fold k f \<longleftrightarrow> k = f"
proof -
  have "list_all (\<lambda>k. list_all (\<lambda>f. equal_fold k f = (k = f))
      [''user_id'', ''username'', ''occurred_at'', ''episode_id'', ''anime_id'', ''category'', ''title'', ''query'', ''results_count'', ''filters''])
      [''event_id'', ''event_name'', ''user_id'', ''occurred_at'', ''properties'']"
    by code_simp
  then show "k \<in> {''event_id'', ''event_name'', ''user_id'', ''occurred_at'', ''properties''} \<Longrightarrow>
    f \<in> {''user_id'', ''username'', ''occurred_at'', ''episode_id'', ''anime_id'', ''category'', ''title'', ''query'', ''results_count'', ''filters''} \<Longrightarrow>
    equal_fold k f \<longleftrightarrow> k = f"
    unfolding list_all_iff by (metis list.set(1) list.set(2))
qed

lemma read_field_Nil [simp]: "read_field dec k z [] = Some z"
  by (simp add: read_field_def)

lemma read_field_Cons [simp]:
  "read_field dec k z ((k', v) # ms) = (if equal_fold k' k then Option.bind (dec v z) (\<lambda>a. read_field dec k a ms) else read_field dec k z ms)"
proof -
  let ?f = "\<lambda>(k', v) acc. case acc of None \<Rightarrow> None | Some a \<Rightarrow> if equal_fold k' k then dec v a else Some a"
  have "fold ?f ms None = None" by (induction ms) auto
  then show ?thesis by (cases "dec v z") (auto simp: read_field_def)
qed

lemma dispatch_published:
  assumes "analytics_up E X e"
  shows "\<exists>m. track X e st = st @ [m] \<and> (\<forall>q. Dispatch E m q = q @ captured (eeNow X) e)"
proof -
  obtain subj name u props where p: "event_parts e = (subj, name, u, props)" by (cases "event_parts e")
  obtain d where d: "eeMarshal X (analytics_event X name u props) = Some d" "aeParse E d = Some (analytics_event X name u props)"
    using assms by (auto simp: analytics_up_def event_json_def p)
  have up: "eeSend X" "aeTime E (eeFmt X (eeNow X)) = Some (eeNow X)" "aeClient E = Some (\<lambda>_. True)" using assms by (simp_all add: analytics_up_def)
  let ?m = "\<lparr>mSubject = subj, mData = d\<rparr>"
  have sent: "track X e st = st @ [?m]" using d(1) up(1) by (simp add: track_def p analytics_Publish_def)
  have ms: "unmarshal E ?m = Some ([(''event_id'', JString (eeID X)), (''event_name'', JString name)] @ (if u = [] then [] else [(''user_id'', JString u)]) @
      [(''occurred_at'', JString (eeFmt X (eeNow X)))] @ (if props = [] then [] else [(''properties'', JObject props)]))"
    using d(2) by (simp add: unmarshal_def object_members_def analytics_event_def)
  have "Dispatch E ?m q = q @ captured (eeNow X) e" for q
  proof -
    note run = event_names into_string_def into_time_def time_field_def up ph_Capture_def ph_Identify_def enqueue_def or_anonymous_def
    show ?thesis
    proof (cases e)
      case (Registered v n)
      then have "subj = ''analytics.auth.registered''" "u = v" "props \<noteq> []" using p by auto
      then show ?thesis using ms Registered by (cases "v = []") (simp_all add: Dispatch_def handleAuthRegistered_def run)
    next
      case (LoggedIn v)
      then show ?thesis using p ms by (auto simp: Dispatch_def handleAuthLoggedIn_def run)
    next
      case (PlaybackStarted v ep cat)
      then have "subj = ''analytics.streaming.started''" "u = v" "props \<noteq> []" using p by auto
      then show ?thesis using ms PlaybackStarted by (cases "v = []") (simp_all add: Dispatch_def handleStreamingStarted_def run)
    next
      case (AnimeViewed v an title)
      then have "subj = ''analytics.catalog.anime_viewed''" "u = v" "props \<noteq> []" using p by auto
      then show ?thesis using ms AnimeViewed by (cases "v = []") (simp_all add: Dispatch_def handleAnimeViewed_def run)
    next
      case (SearchPerformed query n)
      then have "subj = ''analytics.search.performed''" "u = []" "props \<noteq> []" using p by auto
      then show ?thesis using ms SearchPerformed by (simp add: Dispatch_def handleSearchPerformed_def run)
    qed
  qed
  then show ?thesis using sent by blast
qed

text \<open>A progress event without a \<open>completed\<close> member, such as the gateway publishes, is never counted.\<close>

lemma progress_without_completed:
  assumes "unmarshal E m = Some ms" "\<forall>(k, v) \<in> set ms. \<not> equal_fold k ''completed''"
  shows "handleActivityProgress E m q = q"
proof -
  have "\<forall>(k, v) \<in> set ms. \<not> equal_fold k ''completed'' \<Longrightarrow> read_field into_bool ''completed'' b ms = Some b" for b ms
    by (induction ms) auto
  then show ?thesis using assms by (auto simp: handleActivityProgress_def split: option.splits Option.bind_splits)
qed

text \<open>
  C37. Every event that the platform publishes is captured: a batch of published events reaches PostHog in order, each as one capture
  under its own name for its own user (anonymous where an anonymous event has none), a registration with one identification before
  it, and all messages are acknowledged. The properties do not arrive: the publisher nests them under the key properties, the
  handlers read them at the top level, so every capture carries empty values in their place.
\<close>

theorem published_events_captured:
  assumes "\<forall>(X, e) \<in> set evs. analytics_up E X e"
  shows "process_batch E ok (fold (\<lambda>(X, e). track X e) evs []) q =
    (q @ concat (map (\<lambda>(X, e). captured (eeNow X) e) evs), filter ok (fold (\<lambda>(X, e). track X e) evs []))"
proof -
  have "\<exists>ms. fold (\<lambda>(X, e). track X e) evs st = st @ ms \<and> (\<forall>q. fold (Dispatch E) ms q = q @ concat (map (\<lambda>(X, e). captured (eeNow X) e) evs))" for st
    using assms
  proof (induction evs arbitrary: st)
    case (Cons Xe evs)
    obtain X e where Xe: "Xe = (X, e)" by (cases Xe)
    with Cons.prems have "analytics_up E X e" by auto
    then obtain m where m: "track X e st = st @ [m]" "\<forall>q. Dispatch E m q = q @ captured (eeNow X) e" using dispatch_published by blast
    from Cons obtain ms where "fold (\<lambda>(X, e). track X e) evs (st @ [m]) = (st @ [m]) @ ms"
      "\<forall>q. fold (Dispatch E) ms q = q @ concat (map (\<lambda>(X, e). captured (eeNow X) e) evs)" by fastforce
    with m show ?case by (intro exI [of _ "m # ms"]) (simp add: Xe)
  qed simp
  from this [of "[]"] show ?thesis by (auto simp: process_batch_def)
qed

text \<open>A writer that puts the event's name into the text, and the reader for two events.\<close>

definition demo_event_env :: event_env where
  "demo_event_env = \<lparr>eeID = ''i'', eeNow = 7, eeFmt = (\<lambda>_. ''7''), eeMarshal = (\<lambda>j. case j of JObject (_ # (_, JString n) # _) \<Rightarrow> Some n | _ \<Rightarrow> None), eeSend = True\<rparr>"

definition demo_analytics :: analytics_env where
  "demo_analytics = \<lparr>aeParse = (\<lambda>d. if d = ''user_registered'' then Some (event_json demo_event_env (Registered ''u'' ''ann''))
      else if d = ''search_performed'' then Some (event_json demo_event_env (SearchPerformed ''naruto'' 3)) else None),
    aeTime = (\<lambda>_. Some 7), aeZero = 0, aeClient = Some (\<lambda>_. True)\<rparr>"

theorem published_events_captured_witness:
  "fst (process_batch demo_analytics (\<lambda>_. True)
     (fold (\<lambda>(X, e). track X e) [(demo_event_env, Registered ''u'' ''ann''), (demo_event_env, SearchPerformed ''naruto'' 3)] []) []) =
   [PhIdentify ''u'' [(''username'', VStr []), (''created_at'', VTime 7)], PhCapture ''u'' ''user_registered'' [(''username'', VStr [])],
    PhCapture ''anonymous'' ''search_performed'' [(''query'', VStr []), (''results_count'', VInt 0), (''has_results'', VBool False)]]"
proof -
  let ?evs = "[(demo_event_env, Registered ''u'' ''ann''), (demo_event_env, SearchPerformed ''naruto'' 3)]"
  have t: "eeNow demo_event_env = 7" by (simp add: demo_event_env_def)
  have "analytics_up demo_analytics demo_event_env e" if "e = Registered ''u'' ''ann'' \<or> e = SearchPerformed ''naruto'' 3" for e
  proof -
    have m: "eeMarshal demo_event_env (event_json demo_event_env e) = Some (fst (snd (event_parts e)))"
      using that by (auto simp: event_json_def analytics_event_def demo_event_env_def)
    have "aeParse demo_analytics (fst (snd (event_parts e))) = Some (event_json demo_event_env e)"
      using that by (auto simp: demo_analytics_def)
    with m show ?thesis unfolding analytics_up_def by (simp add: demo_analytics_def demo_event_env_def)
  qed
  then have "\<forall>(X, e) \<in> set ?evs. analytics_up demo_analytics X e" by simp
  from published_events_captured [OF this, of "\<lambda>_. True" "[]"] show ?thesis by (simp add: t)
qed

end
