(* ===== verification/Config.thy ===== *)
theory Config
  imports Auth_Service
begin

text \<open>
  Configuration from the environment: the loaders of every service (services/*/internal/config) and of the platform (internal/platform/config), with
  \<open>time.ParseDuration\<close>. The environment is the function of \<open>os.Getenv\<close>: a variable that is not set is the empty text. A duration is its number of
  nanoseconds. \<open>fl f k u\<close> is what Go's float64 arithmetic makes of a fraction of \<open>k\<close> digits with value \<open>f\<close> of the unit \<open>u\<close>.
\<close>

section \<open>Durations\<close>

type_synonym fraction_arith = "nat \<Rightarrow> nat \<Rightarrow> nat \<Rightarrow> nat"

definition digit_val :: "char \<Rightarrow> nat" where
  "digit_val c = of_char c - 48"

text \<open>Leading digits: their value with the rest; \<open>None\<close> above two to the 63.\<close>

definition leadingInt :: "string \<Rightarrow> (nat \<times> string) option" where
  "leadingInt s =
     (let ds = takeWhile is_digit s; v = foldl (\<lambda>x c. x * 10 + digit_val c) 0 ds
      in if v > 2 ^ 63 then None else Some (v, dropWhile is_digit s))"

text \<open>A fraction: value and number of the digits that fit, further digits are skipped.\<close>

fun fraction_digits :: "string \<Rightarrow> nat \<Rightarrow> nat \<Rightarrow> nat \<times> nat" where
  "fraction_digits [] x k = (x, k)"
| "fraction_digits (c # ds) x k =
     (if x > (2 ^ 63 - 1) div 10 \<or> x * 10 + digit_val c > 2 ^ 63 then (x, k) else fraction_digits ds (x * 10 + digit_val c) (k + 1))"

definition leadingFraction :: "string \<Rightarrow> nat \<times> nat \<times> string" where
  "leadingFraction s = (case fraction_digits (takeWhile is_digit s) 0 0 of (f, k) \<Rightarrow> (f, k, dropWhile is_digit s))"

definition duration_units :: "(string \<times> nat) list" where
  "duration_units =
     [(''ns'', 1), (''us'', 1000), ([CHR 0xC2, CHR 0xB5, CHR ''s''], 1000), ([CHR 0xCE, CHR 0xBC, CHR ''s''], 1000), (''ms'', 1000000),
      (''s'', 1000000000), (''m'', 60000000000), (''h'', 3600000000000)]"

definition in_unit :: "char \<Rightarrow> bool" where
  "in_unit c \<longleftrightarrow> c \<noteq> CHR ''.'' \<and> \<not> is_digit c"

text \<open>One number with its unit: nanoseconds and the rest of the text.\<close>

definition duration_term :: "fraction_arith \<Rightarrow> string \<Rightarrow> (nat \<times> string) option" where
  "duration_term fl s =
     (case leadingInt s of
        None \<Rightarrow> None
      | Some (v, s1) \<Rightarrow>
          let pre = (s1 \<noteq> s);
              dot = (s1 \<noteq> [] \<and> hd s1 = CHR ''.'');
              (f, k, s2) = (if dot then leadingFraction (tl s1) else (0, 0, s1));
              post = (dot \<and> s2 \<noteq> tl s1)
          in if \<not> pre \<and> \<not> post then None
             else
               let u = takeWhile in_unit s2; s3 = dropWhile in_unit s2
               in if u = [] then None
                  else
                    (case map_of duration_units u of
                       None \<Rightarrow> None
                     | Some unit \<Rightarrow>
                         if v > 2 ^ 63 div unit then None
                         else
                           let w = v * unit + (if f > 0 then fl f k unit else 0)
                           in if f > 0 \<and> w > 2 ^ 63 then None else Some (w, s3)))"

lemma duration_term_shorter: "duration_term fl s = Some (w, r) \<Longrightarrow> length r < length s"
proof -
  assume t: "duration_term fl s = Some (w, r)"
  then obtain v s1 where 1: "leadingInt s = Some (v, s1)" by (auto simp: duration_term_def split: option.splits)
  then have s1: "length s1 \<le> length s" by (auto simp: leadingInt_def Let_def length_dropWhile_le split: if_splits)
  have f: "length (snd (snd (leadingFraction x))) \<le> length x" for x by (simp add: leadingFraction_def length_dropWhile_le split: prod.split)
  let ?s2 = "snd (snd (if s1 \<noteq> [] \<and> hd s1 = CHR ''.'' then leadingFraction (tl s1) else (0, 0, s1)))"
  have s2: "length ?s2 \<le> length s1" using f [of "tl s1"] by (auto simp: le_diff_conv intro: order_trans)
  have r: "r = dropWhile in_unit ?s2" "takeWhile in_unit ?s2 \<noteq> []"
    using t 1 by (auto simp: duration_term_def Let_def case_prod_beta split: if_splits option.splits)
  have "length r < length ?s2" using r takeWhile_dropWhile_id [of in_unit ?s2] by (metis length_append length_greater_0_conv less_add_same_cancel2)
  with s1 s2 show ?thesis by simp
qed

function duration_terms :: "fraction_arith \<Rightarrow> string \<Rightarrow> nat \<Rightarrow> nat option" where
  "duration_terms fl s d =
     (if s = [] then Some d
      else
        (case duration_term fl s of
           None \<Rightarrow> None
         | Some (w, r) \<Rightarrow> if d + w > 2 ^ 63 then None else duration_terms fl r (d + w)))"
  by pat_completeness auto
termination by (relation "measure (\<lambda>(fl, s, d). length s)") (auto dest: duration_term_shorter)

declare duration_terms.simps [simp del]

definition parse_duration :: "fraction_arith \<Rightarrow> string \<Rightarrow> int option" where
  "parse_duration fl s =
     (let neg = (s \<noteq> [] \<and> hd s = CHR ''-''); s = (if s \<noteq> [] \<and> hd s \<in> {CHR ''-'', CHR ''+''} then tl s else s)
      in if s = ''0'' then Some 0
         else if s = [] then None
         else
           (case duration_terms fl s 0 of
              None \<Rightarrow> None
            | Some d \<Rightarrow> if neg then Some (- int d) else if d > 2 ^ 63 - 1 then None else Some (int d)))"

lemma parse_duration_range: "parse_duration fl s = Some d \<Longrightarrow> - (2 ^ 63) \<le> d \<and> d < 2 ^ 63"
proof -
  have "d0 \<le> 2 ^ 63 \<Longrightarrow> duration_terms fl s d0 = Some n \<Longrightarrow> n \<le> 2 ^ 63" for s n d0
  proof (induction fl s d0 rule: duration_terms.induct)
    case (1 fl s d)
    from 1(3) show ?case using 1(1,2) by (subst (asm) duration_terms.simps) (auto split: if_splits option.splits)
  qed
  from this [of 0] show "parse_duration fl s = Some d \<Longrightarrow> - (2 ^ 63) \<le> d \<and> d < 2 ^ 63"
    by (fastforce simp: parse_duration_def Let_def split: if_splits option.splits)
qed

section \<open>Reading variables\<close>

type_synonym environ = "string \<Rightarrow> string"

datatype config_error = Required string

definition env_text :: "environ \<Rightarrow> string \<Rightarrow> string" where
  "env_text e k = trim_space (e k)"

definition env_or :: "environ \<Rightarrow> string \<Rightarrow> string \<Rightarrow> string" where
  "env_or e k dflt = (let v = env_text e k in if v = [] then dflt else v)"

definition require :: "environ \<Rightarrow> string \<Rightarrow> config_error + string" where
  "require e k = (let v = env_text e k in if v = [] then Inl (Required k) else Inr v)"

definition and_then :: "'e + 'a \<Rightarrow> ('a \<Rightarrow> 'e + 'b) \<Rightarrow> 'e + 'b" where
  "and_then r f = (case r of Inl x \<Rightarrow> Inl x | Inr a \<Rightarrow> f a)"

text \<open>An integer that passes a test, the default otherwise.\<close>

definition env_int_if :: "(int \<Rightarrow> bool) \<Rightarrow> environ \<Rightarrow> string \<Rightarrow> int \<Rightarrow> int" where
  "env_int_if ok e k dflt =
     (let v = env_text e k in if v = [] then dflt else (case parse_int v of None \<Rightarrow> dflt | Some n \<Rightarrow> if ok n then n else dflt))"

definition duration_or :: "fraction_arith \<Rightarrow> (int \<Rightarrow> bool) \<Rightarrow> string \<Rightarrow> int \<Rightarrow> int" where
  "duration_or fl ok v dflt =
     (let v = trim_space v in if v = [] then dflt else (case parse_duration fl v of None \<Rightarrow> dflt | Some d \<Rightarrow> if ok d then d else dflt))"

text \<open>The product of two durations wraps around at 64 bits.\<close>

definition duration_mul :: "int \<Rightarrow> int \<Rightarrow> int" where
  "duration_mul a b = sint (word_of_int (a * b) :: i64)"

lemma env_text_trimmed [simp]: "trim_space (env_text e k) = env_text e k"
  by (simp add: env_text_def trim_space_idem)

lemma require_cases: "require e k = (if env_text e k = [] then Inl (Required k) else Inr (env_text e k))"
  by (simp add: require_def Let_def)

lemma and_then_Inr: "and_then r f = Inr b \<longleftrightarrow> (\<exists>a. r = Inr a \<and> f a = Inr b)"
  by (cases r) (simp_all add: and_then_def)

lemma env_int_if_ok: "ok dflt \<Longrightarrow> ok (env_int_if ok e k dflt)"
  by (simp add: env_int_if_def Let_def split: option.split)

lemma env_or_nonempty: "dflt \<noteq> [] \<Longrightarrow> env_or e k dflt \<noteq> []"
  by (simp add: env_or_def Let_def)

section \<open>The platform and the small loaders\<close>

record app_config =
  apServiceName :: string
  apLogLevel :: string
  apHTTPAddr :: string

definition config_Load :: "environ \<Rightarrow> config_error + app_config" where
  "config_Load e =
     (let name = env_text e ''SERVICE_NAME''; level = env_text e ''LOG_LEVEL''; addr = env_text e ''HTTP_ADDR''
      in if name = [] then Inl (Required ''SERVICE_NAME'')
         else Inr \<lparr>apServiceName = name, apLogLevel = (if level = [] then ''info'' else level), apHTTPAddr = (if addr = [] then '':8080'' else addr)\<rparr>)"

definition auth_LoadGRPC :: "environ \<Rightarrow> string" where
  "auth_LoadGRPC e = env_or e ''GRPC_ADDR'' '':9091''"

definition catalog_LoadGRPC :: "environ \<Rightarrow> string" where
  "catalog_LoadGRPC e = env_or e ''GRPC_ADDR'' '':9092''"

definition activity_LoadGRPC :: "environ \<Rightarrow> string" where
  "activity_LoadGRPC e = env_or e ''GRPC_ADDR'' '':9093''"

definition LoadOutbox :: "environ \<Rightarrow> string" where
  "LoadOutbox e = env_or e ''NATS_URL'' ''nats://nats:4222''"

definition streaming_Load :: "environ \<Rightarrow> string" where
  "streaming_Load e = env_or e ''STREAMING_RESOLVER_GRPC_ADDR'' ''streaming-resolver:9095''"

text \<open>The options of a NATS connection: zero values come from the environment.\<close>

record nats_options =
  noURL :: string
  noMaxReconnects :: int
  noReconnectWait :: int

definition nats_envInt :: "environ \<Rightarrow> string \<Rightarrow> int \<Rightarrow> int" where
  "nats_envInt e k fallback = env_int_if (\<lambda>n. \<not> n < 0) e k fallback"

definition nats_envDuration :: "fraction_arith \<Rightarrow> environ \<Rightarrow> string \<Rightarrow> int \<Rightarrow> int" where
  "nats_envDuration fl e k fallback = duration_or fl (\<lambda>d. \<not> d \<le> 0) (e k) fallback"

text \<open>\<open>dial\<close> is the client library's connecting: \<open>None\<close> is an error.\<close>

definition nats_Connect :: "fraction_arith \<Rightarrow> environ \<Rightarrow> (nats_options \<Rightarrow> 'c option) \<Rightarrow> nats_options \<Rightarrow> nats_options + 'c" where
  "nats_Connect fl e dial o1 =
     (let url = (if noURL o1 = [] then env_or e ''NATS_URL'' ''nats://nats:4222'' else noURL o1);
          mx = (if noMaxReconnects o1 = 0 then nats_envInt e ''NATS_MAX_RECONNECTS'' 5 else noMaxReconnects o1);
          wait = (if noReconnectWait o1 = 0 then nats_envDuration fl e ''NATS_RECONNECT_WAIT'' 2000000000 else noReconnectWait o1);
          opts = \<lparr>noURL = url, noMaxReconnects = mx, noReconnectWait = wait\<rparr>
      in (case dial opts of None \<Rightarrow> Inl opts | Some c \<Rightarrow> Inr c))"

section \<open>The services\<close>

record bff_config =
  bcJWTSecret :: string
  bcAuth :: string
  bcCatalog :: string
  bcActivity :: string
  bcSearch :: string
  bcStreaming :: string
  bcSocial :: string
  bcHLSBase :: string
  bcHLSSecret :: string
  bcNATSURL :: string
  bcJikanURL :: string
  bcCacheTTL :: int
  bcCacheSubj :: string

definition LoadBFF :: "environ \<Rightarrow> config_error + bff_config" where
  "LoadBFF e =
     and_then (require e ''JWT_SECRET'') (\<lambda>secret.
     and_then (require e ''AUTH_GRPC_ADDR'') (\<lambda>auth.
     and_then (require e ''CATALOG_GRPC_ADDR'') (\<lambda>catalog.
     and_then (require e ''ACTIVITY_GRPC_ADDR'') (\<lambda>activity.
     and_then (require e ''SEARCH_GRPC_ADDR'') (\<lambda>search.
     and_then (require e ''STREAMING_GRPC_ADDR'') (\<lambda>streaming.
     and_then (require e ''SOCIAL_GRPC_ADDR'') (\<lambda>social.
     and_then (require e ''HLS_PROXY_BASE_URL'') (\<lambda>base.
     and_then (require e ''HLS_SIGNING_SECRET'') (\<lambda>hls.
       Inr \<lparr>bcJWTSecret = secret, bcAuth = auth, bcCatalog = catalog, bcActivity = activity, bcSearch = search, bcStreaming = streaming,
         bcSocial = social, bcHLSBase = base, bcHLSSecret = hls, bcNATSURL = env_or e ''NATS_URL'' ''nats://nats:4222'',
         bcJikanURL = env_or e ''JIKAN_BASE_URL'' ''https://api.jikan.moe/v4'', bcCacheTTL = env_int_if (\<lambda>n. n \<ge> 0) e ''BFF_CACHE_TTL_SEC'' 60,
         bcCacheSubj = env_or e ''BFF_CACHE_INVALIDATION_SUBJ'' ''bff.cache.invalidate''\<rparr>)))))))))"

definition parseDurationWithDefault :: "fraction_arith \<Rightarrow> string \<Rightarrow> int \<Rightarrow> int" where
  "parseDurationWithDefault fl v dflt = duration_or fl (\<lambda>_. True) v dflt"

definition LoadAuth :: "fraction_arith \<Rightarrow> environ \<Rightarrow> config_error + auth_config" where
  "LoadAuth fl e =
     and_then (require e ''JWT_SECRET'') (\<lambda>secret.
       Inr \<lparr>cfgSecret = secret, cfgAccessTTL = parseDurationWithDefault fl (e ''ACCESS_TOKEN_TTL'') 900000000000,
         cfgRefreshTTL = parseDurationWithDefault fl (e ''REFRESH_TOKEN_TTL'') 2592000000000000,
         cfgBootstrapAdmin = env_text e ''BOOTSTRAP_ADMIN_USERNAME''\<rparr>)"

record hls_config =
  hcServiceName :: string
  hcLogLevel :: string
  hcHTTPAddr :: string
  hcSecret :: string

definition hls_Load :: "environ \<Rightarrow> config_error + hls_config" where
  "hls_Load e =
     and_then (require e ''SERVICE_NAME'') (\<lambda>name.
     and_then (require e ''HLS_SIGNING_SECRET'') (\<lambda>secret.
       Inr \<lparr>hcServiceName = name, hcLogLevel = env_or e ''LOG_LEVEL'' ''info'', hcHTTPAddr = env_or e ''HTTP_ADDR'' '':8084'', hcSecret = secret\<rparr>))"

record billing_config =
  bgSecret :: string
  bgNATSURL :: string
  bgDatabaseURL :: string
  bgRedisDSN :: string
  bgTTL :: int

definition billing_Load :: "environ \<Rightarrow> config_error + billing_config" where
  "billing_Load e =
     and_then (require e ''STRIPE_WEBHOOK_SECRET'') (\<lambda>secret.
       Inr \<lparr>bgSecret = secret, bgNATSURL = env_or e ''NATS_URL'' ''nats://nats:4222'', bgDatabaseURL = env_text e ''DATABASE_URL'',
         bgRedisDSN = env_text e ''REDIS_DSN'',
         bgTTL = duration_mul (env_int_if (\<lambda>h. h > 0) e ''IDEMPOTENCY_TTL_HOURS'' 24) 3600000000000\<rparr>)"

record ingestion_config =
  icCatalog :: string
  icHiAnimeURL :: string
  icJikanURL :: string
  icNATSURL :: string
  icJikanRPS :: int
  icHiAnimeRPS :: int

definition ingestion_Load :: "environ \<Rightarrow> config_error + ingestion_config" where
  "ingestion_Load e =
     and_then (require e ''CATALOG_GRPC_ADDR'') (\<lambda>addr.
       Inr \<lparr>icCatalog = addr, icHiAnimeURL = env_or e ''HIANIME_BASE_URL'' ''https://void-roan-six.vercel.app/api/v2'',
         icJikanURL = env_or e ''JIKAN_BASE_URL'' ''https://api.jikan.moe/v4'', icNATSURL = env_or e ''NATS_URL'' ''nats://nats:4222'',
         icJikanRPS = env_int_if (\<lambda>n. n > 0) e ''JIKAN_RPS'' 1, icHiAnimeRPS = env_int_if (\<lambda>n. n > 0) e ''HIANIME_RPS'' 1\<rparr>)"

record search_config =
  scServiceName :: string
  scLogLevel :: string
  scGRPCAddr :: string
  scCatalog :: string
  scNATSURL :: string
  scMeiliURL :: string
  scMeiliKey :: string
  scInterval :: int
  scOnce :: bool

definition search_Load :: "fraction_arith \<Rightarrow> environ \<Rightarrow> config_error + search_config" where
  "search_Load fl e =
     and_then (require e ''SERVICE_NAME'') (\<lambda>name.
     and_then (require e ''CATALOG_GRPC_ADDR'') (\<lambda>addr.
       Inr \<lparr>scServiceName = name, scLogLevel = env_or e ''LOG_LEVEL'' ''info'', scGRPCAddr = env_or e ''GRPC_ADDR'' '':9094'', scCatalog = addr,
         scNATSURL = env_or e ''NATS_URL'' ''nats://nats:4222'', scMeiliURL = env_or e ''MEILI_URL'' ''http://meilisearch:7700'',
         scMeiliKey = env_text e ''MEILI_API_KEY'', scInterval = duration_or fl (\<lambda>_. True) (e ''REINDEX_INTERVAL'') 86400000000000,
         scOnce = (env_text e ''REINDEX_ONCE'' \<in> {''true'', ''1''})\<rparr>))"

record analytics_config =
  ncLogLevel :: string
  ncNATSURL :: string
  ncKey :: string
  ncHost :: string
  ncFlush :: int
  ncPostHogBatch :: int
  ncNATSBatch :: int
  ncIntervalMs :: int

definition analytics_Load :: "environ \<Rightarrow> config_error + analytics_config" where
  "analytics_Load e =
     and_then (require e ''POSTHOG_API_KEY'') (\<lambda>key.
       Inr \<lparr>ncLogLevel = env_or e ''LOG_LEVEL'' ''info'', ncNATSURL = env_or e ''NATS_URL'' ''nats://nats:4222'', ncKey = key,
         ncHost = env_or e ''POSTHOG_HOST'' ''https://app.posthog.com'',
         ncFlush = duration_mul (env_int_if (\<lambda>n. n > 0) e ''POSTHOG_FLUSH_INTERVAL_SEC'' 5) 1000000000,
         ncPostHogBatch = env_int_if (\<lambda>n. n > 0) e ''POSTHOG_BATCH_SIZE'' 100, ncNATSBatch = env_int_if (\<lambda>n. n > 0) e ''WORKER_BATCH_SIZE'' 200,
         ncIntervalMs = env_int_if (\<lambda>n. n > 0) e ''WORKER_BATCH_INTERVAL_MS'' 2000\<rparr>)"

text \<open>The resolver reads two numbers as 32 bits.\<close>

definition resolver_envInt :: "environ \<Rightarrow> string \<Rightarrow> int \<Rightarrow> int" where
  "resolver_envInt e k dflt = env_int_if (\<lambda>_. True) e k dflt"

definition resolver_envDuration :: "fraction_arith \<Rightarrow> environ \<Rightarrow> string \<Rightarrow> int \<Rightarrow> int" where
  "resolver_envDuration fl e k dflt = duration_or fl (\<lambda>_. True) (e k) dflt"

record resolver_config =
  rcServiceName :: string
  rcLogLevel :: string
  rcGRPCAddr :: string
  rcCatalog :: string
  rcRedisURL :: string
  rcHiAnimeURL :: string
  rcCacheTTL :: int
  rcUserAgent :: string
  rcMaxRetries :: int
  rcRetryBaseDelay :: int
  rcCBMaxRequests :: i32
  rcCBInterval :: int
  rcCBTimeout :: int
  rcCBFailureThreshold :: i32

definition resolver_Load :: "fraction_arith \<Rightarrow> environ \<Rightarrow> config_error + resolver_config" where
  "resolver_Load fl e =
     and_then (require e ''SERVICE_NAME'') (\<lambda>name.
     and_then (require e ''CATALOG_GRPC_ADDR'') (\<lambda>addr.
       Inr \<lparr>rcServiceName = name, rcLogLevel = env_or e ''LOG_LEVEL'' ''info'', rcGRPCAddr = env_or e ''GRPC_ADDR'' '':9095'', rcCatalog = addr,
         rcRedisURL = env_or e ''REDIS_URL'' ''redis://redis:6379/0'', rcHiAnimeURL = env_text e ''HIANIME_BASE_URL'',
         rcCacheTTL = duration_or fl (\<lambda>_. True) (e ''CACHE_TTL'') 1200000000000,
         rcUserAgent = env_or e ''HIANIME_USER_AGENT'' ''Mozilla/5.0 (Windows NT 10.0; Win64; x64; rv:146.0) Gecko/20100101 Firefox/146.0'',
         rcMaxRetries = resolver_envInt e ''HIANIME_MAX_RETRIES'' 3, rcRetryBaseDelay = resolver_envDuration fl e ''HIANIME_RETRY_BASE_DELAY'' 500000000,
         rcCBMaxRequests = word_of_int (resolver_envInt e ''CB_MAX_REQUESTS'' 5), rcCBInterval = resolver_envDuration fl e ''CB_INTERVAL'' 60000000000,
         rcCBTimeout = resolver_envDuration fl e ''CB_TIMEOUT'' 30000000000,
         rcCBFailureThreshold = word_of_int (resolver_envInt e ''CB_FAILURE_THRESHOLD'' 5)\<rparr>))"

section \<open>What a loaded configuration guarantees\<close>

definition missing :: "environ \<Rightarrow> string list \<Rightarrow> string option" where
  "missing e ks = List.find (\<lambda>k. env_text e k = []) ks"

definition text_ok :: "string \<Rightarrow> bool" where
  "text_ok v \<longleftrightarrow> v \<noteq> [] \<and> trim_space v = v"

definition bff_required :: "string list" where
  "bff_required = [''JWT_SECRET'', ''AUTH_GRPC_ADDR'', ''CATALOG_GRPC_ADDR'', ''ACTIVITY_GRPC_ADDR'', ''SEARCH_GRPC_ADDR'', ''STREAMING_GRPC_ADDR'',
     ''SOCIAL_GRPC_ADDR'', ''HLS_PROXY_BASE_URL'', ''HLS_SIGNING_SECRET'']"

definition bff_config_ok :: "bff_config \<Rightarrow> bool" where
  "bff_config_ok c \<longleftrightarrow>
     list_all text_ok [bcJWTSecret c, bcAuth c, bcCatalog c, bcActivity c, bcSearch c, bcStreaming c, bcSocial c, bcHLSBase c, bcHLSSecret c, bcNATSURL c,
       bcJikanURL c, bcCacheSubj c] \<and> bcCacheTTL c \<ge> 0"

definition ingestion_config_ok :: "ingestion_config \<Rightarrow> bool" where
  "ingestion_config_ok c \<longleftrightarrow> list_all text_ok [icCatalog c, icHiAnimeURL c, icJikanURL c, icNATSURL c] \<and> icJikanRPS c > 0 \<and> icHiAnimeRPS c > 0"

definition analytics_config_ok :: "analytics_config \<Rightarrow> bool" where
  "analytics_config_ok c \<longleftrightarrow>
     list_all text_ok [ncLogLevel c, ncNATSURL c, ncKey c, ncHost c] \<and> ncPostHogBatch c > 0 \<and> ncNATSBatch c > 0 \<and> ncIntervalMs c > 0"

definition auth_config_ok :: "auth_config \<Rightarrow> bool" where
  "auth_config_ok c \<longleftrightarrow> text_ok (cfgSecret c) \<and> in_int64 (cfgAccessTTL c) \<and> in_int64 (cfgRefreshTTL c)"

definition hls_config_ok :: "hls_config \<Rightarrow> bool" where
  "hls_config_ok c \<longleftrightarrow> list_all text_ok [hcServiceName c, hcLogLevel c, hcHTTPAddr c, hcSecret c]"

definition billing_config_ok :: "billing_config \<Rightarrow> bool" where
  "billing_config_ok c \<longleftrightarrow> list_all text_ok [bgSecret c, bgNATSURL c] \<and> in_int64 (bgTTL c)"

definition search_config_ok :: "search_config \<Rightarrow> bool" where
  "search_config_ok c \<longleftrightarrow> list_all text_ok [scServiceName c, scLogLevel c, scGRPCAddr c, scCatalog c, scNATSURL c, scMeiliURL c] \<and> in_int64 (scInterval c)"

definition resolver_config_ok :: "resolver_config \<Rightarrow> bool" where
  "resolver_config_ok c \<longleftrightarrow>
     list_all text_ok [rcServiceName c, rcLogLevel c, rcGRPCAddr c, rcCatalog c, rcRedisURL c, rcUserAgent c] \<and>
     list_all in_int64 [rcCacheTTL c, rcRetryBaseDelay c, rcCBInterval c, rcCBTimeout c]"

named_theorems loader

lemma text_ok_env [loader]: "text_ok (env_text e k) \<longleftrightarrow> env_text e k \<noteq> []"
  by (simp add: text_ok_def)

lemma text_ok_or: "text_ok dflt \<Longrightarrow> text_ok (env_or e k dflt)"
  by (simp add: env_or_def Let_def text_ok_def)

lemma text_ok_defaults:
  "text_ok ''nats://nats:4222''" "text_ok ''https://api.jikan.moe/v4''" "text_ok ''bff.cache.invalidate''" "text_ok ''info''" "text_ok '':8084''"
  "text_ok ''https://void-roan-six.vercel.app/api/v2''" "text_ok '':9094''" "text_ok ''http://meilisearch:7700''" "text_ok ''https://app.posthog.com''"
  "text_ok '':9095''" "text_ok ''redis://redis:6379/0''" "text_ok ''Mozilla/5.0 (Windows NT 10.0; Win64; x64; rv:146.0) Gecko/20100101 Firefox/146.0''"
  by code_simp+

lemmas defaulted [loader] = text_ok_defaults [THEN text_ok_or]

lemma positive_if [loader]: "env_int_if (\<lambda>n. 0 < n) e k n > 0 \<longleftrightarrow> (n > 0 \<or> (\<exists>i. parse_int (env_text e k) = Some i \<and> env_text e k \<noteq> [] \<and> i > 0))"
  by (auto simp: env_int_if_def Let_def split: option.split)

lemma nonneg_if [loader]: "env_int_if (\<lambda>n. 0 \<le> n) e k n \<ge> 0 \<longleftrightarrow> (n \<ge> 0 \<or> (\<exists>i. parse_int (env_text e k) = Some i \<and> env_text e k \<noteq> [] \<and> i \<ge> 0))"
  by (auto simp: env_int_if_def Let_def split: option.split)

lemma duration_or_range [loader]: "in_int64 dflt \<Longrightarrow> in_int64 (duration_or fl ok v dflt)"
  using parse_duration_range by (fastforce simp: duration_or_def Let_def in_int64_def split: option.split)

lemma duration_mul_range [loader]: "in_int64 (duration_mul a b)"
  using sint_greater_eq [of "word_of_int (a * b) :: i64"] sint_less [of "word_of_int (a * b) :: i64"] by (simp add: duration_mul_def in_int64_def)

text \<open>A loader fails on the first required variable that is blank, and otherwise gives a configuration that is in order.\<close>

definition loads :: "environ \<Rightarrow> string list \<Rightarrow> ('c \<Rightarrow> bool) \<Rightarrow> config_error + 'c \<Rightarrow> bool" where
  "loads e ks ok r \<longleftrightarrow> (case missing e ks of Some k \<Rightarrow> r = Inl (Required k) | None \<Rightarrow> (\<exists>c. r = Inr c \<and> ok c))"

lemma loads_Nil: "loads e [] ok (Inr c) \<longleftrightarrow> ok c"
  by (simp add: loads_def missing_def)

lemma loads_require:
  "(env_text e k \<noteq> [] \<Longrightarrow> loads e ks ok (f (env_text e k))) \<Longrightarrow> loads e (k # ks) ok (and_then (require e k) f)"
  by (cases "env_text e k = []") (simp_all add: loads_def missing_def and_then_def require_cases)

lemmas load_steps = loads_require loads_Nil [THEN iffD2]


text \<open>
  The retention of processed events is a product that wraps around: from 2562048 hours on it is negative, which the store of the events
  takes for no expiry.
\<close>

lemma idempotency_ttl_wraps: "e ''STRIPE_WEBHOOK_SECRET'' = ''s'' \<Longrightarrow> e ''IDEMPOTENCY_TTL_HOURS'' = ''2562048'' \<Longrightarrow> \<exists>c. billing_Load e = Inr c \<and> bgTTL c < 0"
proof -
  assume e: "e ''STRIPE_WEBHOOK_SECRET'' = ''s''" "e ''IDEMPOTENCY_TTL_HOURS'' = ''2562048''"
  have t: "trim_space ''s'' = ''s''" "trim_space ''2562048'' = ''2562048''" 
    by code_simp+
  have n: "parse_int ''2562048'' = Some 2562048" by (simp add: parse_int_def is_digit_def in_int64_def)
  have w: "duration_mul 2562048 3600000000000 < 0" by (simp add: duration_mul_def)
  from t n have "env_int_if (\<lambda>h. h > 0) e ''IDEMPOTENCY_TTL_HOURS'' 24 = 2562048" by (simp add: env_int_if_def env_text_def e)
  then show ?thesis using t w by (simp add: billing_Load_def require_def and_then_def env_text_def e)
qed

end
