(* ===== verification/Platform.thy ===== *)
theory Platform
  imports Api Config
begin

text \<open>
  The platform packages the services start with: request identifiers, recovery from panics, the health endpoints and the allowed origins
  (internal/platform/httpserver), opening the database pool (internal/platform/db), the process runner (internal/platform/run), the level of the logger
  (internal/platform/logging), and the ticker that limits the ingestion's requests (services/ingestion/internal/ratelimit).
\<close>

section \<open>Requests\<close>

text \<open>A handler answers or panics, in the latter case perhaps after it has begun to answer.\<close>

datatype 'b outcome = Answers "'b response" | Panics "'b response option"

text \<open>\<open>hdr\<close> gives the headers of the request; the result is the response header with the outcome.\<close>

definition RequestIDMiddleware :: "string \<Rightarrow> uuid \<Rightarrow> (string \<Rightarrow> string) \<Rightarrow> (string \<Rightarrow> 'b outcome) \<Rightarrow> (string \<times> string) \<times> 'b outcome" where
  "RequestIDMiddleware headerName new hdr nxt =
     (let headerName = (if trim_space headerName = [] then ''X-Request-Id'' else headerName);
          rid = trim_space (hdr headerName);
          rid = (if rid = [] then new else rid)
      in ((headerName, rid), nxt rid))"

text \<open>\<open>http.Error\<close> writes the status unless the header is out already; the body is plain text.\<close>

definition panicRecovery :: "'b outcome \<Rightarrow> 'b response" where
  "panicRecovery o1 =
     (case o1 of Answers r \<Rightarrow> r | Panics None \<Rightarrow> WriteHeader 500 | Panics (Some begun) \<Rightarrow> begun)"

definition healthz :: "string response" where
  "healthz = WriteJSON 200 ''ok''"

text \<open>\<open>ready\<close> is the optional check: \<open>Some (Some msg)\<close> is a check that fails. The body is the text, or the two members of the JSON answer.\<close>

definition readyz :: "string option option \<Rightarrow> (string + string \<times> string) response" where
  "readyz ready =
     (case ready of
        Some (Some err) \<Rightarrow> WriteJSON 503 (Inr (''unavailable'', err))
      | _ \<Rightarrow> WriteJSON 200 (Inl ''ready''))"

definition parseCORSOrigins :: "string \<Rightarrow> string list" where
  "parseCORSOrigins raw =
     (let raw = trim_space raw
      in if raw = [] then [''*''] else filter (\<lambda>p. p \<noteq> []) (map trim_space (split_on CHR '','' raw)))"

text \<open>What \<open>SetupRouter\<close> puts around every handler: the identifier outside, the recovery inside.\<close>

definition base_middlewares :: "uuid \<Rightarrow> (string \<Rightarrow> string) \<Rightarrow> (string \<Rightarrow> 'b outcome) \<Rightarrow> (string \<times> string) \<times> 'b response" where
  "base_middlewares new hdr h =
     (case RequestIDMiddleware ''X-Request-Id'' new hdr (\<lambda>rid. Answers (panicRecovery (h rid))) of
        (header, Answers r) \<Rightarrow> (header, r)
      | (header, Panics _) \<Rightarrow> (header, WriteHeader 500))"

section \<open>The database pool\<close>

text \<open>
  \<open>oePing i\<close>: ping number \<open>i\<close> succeeds; \<open>oeClock i\<close> the time after it; \<open>oeDone i\<close>: the context ends before the pause after it does. The result is
  the pool, present or nil, with the error, present or nil.
\<close>

datatype open_error = NoDatabaseURL | BadDSN | NoPool | ContextEnded

record open_env =
  oeDSN :: string
  oeParse :: "string \<Rightarrow> bool"
  oeNew :: bool
  oeStart :: time
  oePing :: "nat \<Rightarrow> bool"
  oeClock :: "nat \<Rightarrow> time"
  oeDone :: "nat \<Rightarrow> bool"

fun ping_loop :: "open_env \<Rightarrow> nat \<Rightarrow> nat \<Rightarrow> (bool \<times> open_error option) option" where
  "ping_loop E 0 i = None"
| "ping_loop E (Suc n) i =
     (if oePing E i then Some (True, None)
      else if oeClock E i > oeStart E + 30000000000 then Some (False, None)
      else if oeDone E i then Some (False, Some ContextEnded)
      else ping_loop E n (i + 1))"

definition db_Open :: "open_env \<Rightarrow> nat \<Rightarrow> (bool \<times> open_error option) option" where
  "db_Open E fuel =
     (let dsn = trim_space (oeDSN E)
      in if dsn = [] then Some (False, Some NoDatabaseURL)
         else if \<not> oeParse E dsn then Some (False, Some BadDSN)
         else if \<not> oeNew E then Some (False, Some NoPool)
         else ping_loop E fuel 0)"

text \<open>Time passes: the pause between two pings is 300 milliseconds at least.\<close>

definition pauses :: "open_env \<Rightarrow> bool" where
  "pauses E \<longleftrightarrow> oeStart E \<le> oeClock E 0 \<and> (\<forall>i. \<not> oePing E i \<longrightarrow> oeClock E i + 300000000 \<le> oeClock E (Suc i))"

section \<open>The runner\<close>

datatype start_error = ServerClosed | OtherError

datatype run_event = SignalReceived | StartReturned "start_error option"

definition WithSignals :: "run_event \<Rightarrow> nat" where
  "WithSignals ev =
     (case ev of
        SignalReceived \<Rightarrow> 0
      | StartReturned None \<Rightarrow> 0
      | StartReturned (Some ServerClosed) \<Rightarrow> 0
      | StartReturned (Some OtherError) \<Rightarrow> 1)"

text \<open>
  What \<open>Graceful\<close> warns of: \<open>shut\<close> is the shutdown under the deadline of its context, ten seconds from now or the one of the caller.
\<close>

datatype shutdown_error = Canceled | DeadlineExceeded | ShutServerClosed | ShutFailed

definition Graceful :: "time \<Rightarrow> time option \<Rightarrow> (time \<Rightarrow> shutdown_error option) \<Rightarrow> bool" where
  "Graceful t deadline shut =
     (let c = (case deadline of None \<Rightarrow> t + 10000000000 | Some d \<Rightarrow> min d (t + 10000000000))
      in (case shut c of None \<Rightarrow> False | Some err \<Rightarrow> err \<noteq> Canceled \<and> err \<noteq> DeadlineExceeded \<and> err \<noteq> ShutServerClosed))"

text \<open>The level of the logger: \<open>parse\<close> is the log library's; a text it does not know counts as \<open>info\<close>.\<close>

definition logging_New :: "(string \<Rightarrow> 'l option) \<Rightarrow> 'l \<Rightarrow> string \<Rightarrow> 'l" where
  "logging_New parse info level = (case parse (to_lower (trim_space level)) of None \<Rightarrow> info | Some l \<Rightarrow> l)"

text \<open>The server: a router is made when none is given, and the header of a request has five seconds to arrive.\<close>

record 'h http_server =
  hsAddr :: string
  hsHandler :: 'h
  hsReadHeaderTimeout :: time

definition httpserver_New :: "'h \<Rightarrow> string \<Rightarrow> 'h option \<Rightarrow> 'h http_server" where
  "httpserver_New newRouter addr router =
     \<lparr>hsAddr = addr, hsHandler = (case router of None \<Rightarrow> newRouter | Some r \<Rightarrow> r), hsReadHeaderTimeout = 5000000000\<rparr>"

section \<open>The ticker\<close>

text \<open>
  Tick number \<open>k\<close> comes \<open>k\<close> intervals after the start; the channel holds one tick and further ones are dropped while it is full. \<open>tkTaken\<close> is the
  number of ticks that are gone.
\<close>

record ticker =
  tkStart :: time
  tkInterval :: int
  tkTaken :: int

definition NewRPS :: "int \<Rightarrow> time \<Rightarrow> ticker" where
  "NewRPS rps t =
     (let rps = (if rps \<le> 0 then 1 else rps);
          interval = 1000000000 div rps;
          interval = (if interval \<le> 0 then 1000000000 else interval)
      in \<lparr>tkStart = t, tkInterval = interval, tkTaken = 0\<rparr>)"

text \<open>
  A wait that begins at time \<open>t\<close>: when it returns, with the ticker then. \<open>ends r\<close> says that the context ends before time \<open>r\<close>, or that its end at
  that time is what the select takes; then the result is \<open>None\<close>. A nil limiter lets everything pass at once.
\<close>

definition limiter_Wait :: "(time \<Rightarrow> bool) \<Rightarrow> time \<Rightarrow> ticker option \<Rightarrow> time option \<times> ticker option" where
  "limiter_Wait ends t l =
     (case l of
        None \<Rightarrow> (Some t, None)
      | Some k \<Rightarrow>
          let arrived = (t - tkStart k) div tkInterval k;
              waiting = arrived > tkTaken k;
              r = (if waiting then t else tkStart k + (tkTaken k + 1) * tkInterval k)
          in if ends r then (None, l) else (Some r, Some (k\<lparr>tkTaken := (if waiting then arrived else tkTaken k + 1)\<rparr>)))"

text \<open>A sequence of waits, each beginning some time after the last has returned: the times of those that passed.\<close>

fun permits :: "ticker option \<Rightarrow> time \<Rightarrow> (nat \<times> (time \<Rightarrow> bool)) list \<Rightarrow> time list" where
  "permits l t [] = []"
| "permits l t ((gap, ends) # ws) =
     (case limiter_Wait ends (t + int gap) l of
        (None, l) \<Rightarrow> permits l (t + int gap) ws
      | (Some r, l) \<Rightarrow> r # permits l r ws)"

section \<open>The runner and the logger\<close>

lemma graceful_warns: "Graceful t deadline shut \<Longrightarrow> \<exists>c \<le> t + 10000000000. shut c = Some ShutFailed"
proof -
  assume w: "Graceful t deadline shut"
  define c where "c = (case deadline of None \<Rightarrow> t + 10000000000 | Some d \<Rightarrow> min d (t + 10000000000))"
  have "c \<le> t + 10000000000" by (simp add: c_def split: option.splits)
  moreover have "shut c = Some ShutFailed"
    using w unfolding Graceful_def Let_def c_def [symmetric] by (cases "shut c"; cases "the (shut c)") auto
  ultimately show ?thesis by blast
qed

text \<open>A service whose \<open>LOG_LEVEL\<close> is unset or unknown logs at \<open>info\<close>.\<close>

lemma default_log_level:
  assumes "config_Load e = Inr c" "parse (to_lower ''info'') = Some info" "env_text e ''LOG_LEVEL'' = [] \<or> parse (to_lower (env_text e ''LOG_LEVEL'')) = None"
  shows "logging_New parse info (apLogLevel c) = info"
proof -
  have i: "trim_space ''info'' = ''info''" by code_simp
  have t: "trim_space (env_text e k) = env_text e k" for k by (simp add: env_text_def)
  show ?thesis using assms by (auto simp: config_Load_def Let_def logging_New_def i t split: if_splits)
qed

section \<open>Opening the pool ends\<close>

definition trying :: "open_env \<Rightarrow> nat \<Rightarrow> bool" where
  "trying E i \<longleftrightarrow> (\<forall>j < i. \<not> oePing E j \<and> oeClock E j \<le> oeStart E + 30000000000 \<and> \<not> oeDone E j)"

definition dsn_ok :: "open_env \<Rightarrow> bool" where
  "dsn_ok E \<longleftrightarrow> trim_space (oeDSN E) \<noteq> [] \<and> oeParse E (trim_space (oeDSN E)) \<and> oeNew E"

lemma clock_advances: "pauses E \<Longrightarrow> trying E i \<Longrightarrow> oeStart E + int i * 300000000 \<le> oeClock E i"
proof (induction i)
  case (Suc i)
  then have "trying E i" "\<not> oePing E i" by (auto simp: trying_def)
  with Suc have "oeStart E + int i * 300000000 \<le> oeClock E i" "oeClock E i + 300000000 \<le> oeClock E (Suc i)" by (auto simp: pauses_def)
  then show ?case by (simp add: algebra_simps)
qed (simp add: pauses_def)

text \<open>The ping that ends the loop.\<close>

lemma ping_loop_ends:
  assumes "pauses E" "trying E i" "101 < n + i"
  shows "\<exists>k. trying E k \<and> ping_loop E n i = Some (oePing E k, if oePing E k \<or> oeClock E k > oeStart E + 30000000000 then None else Some ContextEnded) \<and>
    (oePing E k \<or> oeClock E k > oeStart E + 30000000000 \<or> oeDone E k)"
  using assms(2,3)
proof (induction n arbitrary: i)
  case 0
  then have "trying E 101" "oeClock E 101 \<le> oeStart E + 30000000000" by (auto simp: trying_def)
  with clock_advances [OF assms(1) this(1)] show ?case by simp
next
  case (Suc n)
  show ?case
  proof (cases "oePing E i \<or> oeClock E i > oeStart E + 30000000000 \<or> oeDone E i")
    case True
    then show ?thesis using Suc.prems(1) by (intro exI [of _ i]) auto
  next
    case False
    then have "trying E (i + 1)" using Suc.prems(1) by (auto simp: trying_def less_Suc_eq)
    then show ?thesis using Suc.IH [of "i + 1"] Suc.prems(2) False by simp
  qed
qed

lemma trying_unique:
  assumes "trying E i" "trying E k" "oePing E i \<or> oeClock E i > oeStart E + 30000000000 \<or> oeDone E i" "oePing E k \<or> oeClock E k > oeStart E + 30000000000 \<or> oeDone E k"
  shows "i = k"
  using assms by (metis linorder_neqE_nat linorder_not_le trying_def)

text \<open>
  C33. Opening the database returns: within 102 pings, whatever the database and the clock do as long as the pauses last their 300
  milliseconds. A pool comes back exactly when some ping succeeded while the window was open, an error when the address is missing or
  bad or the context ended, and, in the case of a database that stays silent until the deadline, no pool and no error either.
\<close>

theorem db_open_returns:
  assumes "pauses E"
  shows "\<exists>pool err. db_Open E 102 = Some (pool, err) \<and> (pool \<longleftrightarrow> dsn_ok E \<and> (\<exists>i. trying E i \<and> oePing E i)) \<and>
    (\<not> pool \<and> err = None \<longleftrightarrow> dsn_ok E \<and> (\<exists>i. trying E i \<and> \<not> oePing E i \<and> oeClock E i > oeStart E + 30000000000))"
proof (cases "dsn_ok E")
  case False
  then show ?thesis by (auto simp: db_Open_def dsn_ok_def Let_def)
next
  case True
  have "trying E 0" by (simp add: trying_def)
  from ping_loop_ends [OF assms this, of 102] obtain k where
    k: "trying E k" "ping_loop E 102 0 = Some (oePing E k, if oePing E k \<or> oeClock E k > oeStart E + 30000000000 then None else Some ContextEnded)"
      "oePing E k \<or> oeClock E k > oeStart E + 30000000000 \<or> oeDone E k" by auto
  have "db_Open E 102 = ping_loop E 102 0" using True by (auto simp: db_Open_def dsn_ok_def Let_def)
  then have o1: "db_Open E 102 = Some (oePing E k, if oePing E k \<or> oeClock E k > oeStart E + 30000000000 then None else Some ContextEnded)"
    using k(2) by simp
  have "(\<exists>i. trying E i \<and> oePing E i) \<longleftrightarrow> oePing E k" using k(1,3) trying_unique [of E _ k] by blast
  moreover have "(\<exists>i. trying E i \<and> \<not> oePing E i \<and> oeClock E i > oeStart E + 30000000000) \<longleftrightarrow> \<not> oePing E k \<and> oeClock E k > oeStart E + 30000000000"
    using k(1,3) trying_unique [of E _ k] by blast
  ultimately show ?thesis using o1 True by simp
qed

definition silent_db :: open_env where
  "silent_db = \<lparr>oeDSN = ''d'', oeParse = (\<lambda>_. True), oeNew = True, oeStart = 0, oePing = (\<lambda>_. False), oeClock = (\<lambda>i. int i * 300000000), oeDone = (\<lambda>_. False)\<rparr>"

theorem db_open_returns_witness: "db_Open silent_db 102 = Some (False, None)"
proof -
  have p: "pauses silent_db" by (simp add: pauses_def silent_db_def)
  have d: "trim_space ''d'' = ''d''" by code_simp
  have "dsn_ok silent_db" by (simp add: dsn_ok_def silent_db_def d)
  moreover have "trying silent_db 101" by (auto simp: trying_def silent_db_def)
  ultimately show ?thesis using db_open_returns [OF p] by (auto simp: silent_db_def intro: exI [of _ 101])
qed

section \<open>The ticker bounds the rate\<close>

abbreviation slot :: "ticker \<Rightarrow> time \<Rightarrow> int" where
  "slot k t \<equiv> (t - tkStart k) div tkInterval k"

lemma wait_slot:
  assumes "limiter_Wait ends t (Some k) = (Some r, l)" "tkInterval k > 0" "tkTaken k \<le> slot k t"
  shows "l = Some (k\<lparr>tkTaken := slot k r\<rparr>)" "tkTaken k < slot k r" "t \<le> r"
proof -
  have "l = Some (k\<lparr>tkTaken := slot k r\<rparr>) \<and> tkTaken k < slot k r \<and> t \<le> r"
  proof (cases "slot k t > tkTaken k")
    case True
    then show ?thesis using assms(1) by (auto simp: limiter_Wait_def Let_def split: if_splits)
  next
    case False
    with assms(3) have s: "slot k t = tkTaken k" by simp
    then have r: "r = tkStart k + (tkTaken k + 1) * tkInterval k" "l = Some (k\<lparr>tkTaken := tkTaken k + 1\<rparr>)"
      using assms(1) by (auto simp: limiter_Wait_def Let_def split: if_splits)
    have "slot k r = tkTaken k + 1" using assms(2) by (simp add: r(1))
    moreover have "t - tkStart k < (tkTaken k + 1) * tkInterval k" using s pos_mod_bound [OF assms(2), of "t - tkStart k"] div_mult_mod_eq [of "t - tkStart k" "tkInterval k"] by (simp add: algebra_simps)
    ultimately show ?thesis using r by simp
  qed
  then show "l = Some (k\<lparr>tkTaken := slot k r\<rparr>)" "tkTaken k < slot k r" "t \<le> r" by simp_all
qed

lemma permits_slots:
  assumes "tkInterval k > 0" "tkTaken k \<le> slot k t"
  shows "sorted_wrt (<) (map (slot k) (permits (Some k) t ws)) \<and> (\<forall>r \<in> set (permits (Some k) t ws). tkTaken k < slot k r)"
  using assms
proof (induction ws arbitrary: k t)
  case (Cons w ws)
  obtain gap ends where w: "w = (gap, ends)" by (cases w)
  have t: "slot k t \<le> slot k (t + int gap)" using Cons.prems(1) by (intro zdiv_mono1) simp_all
  obtain r l where W: "limiter_Wait ends (t + int gap) (Some k) = (r, l)" by (cases "limiter_Wait ends (t + int gap) (Some k)")
  show ?case
  proof (cases r)
    case None
    then have "l = Some k" using W by (auto simp: limiter_Wait_def Let_def split: if_splits)
    then show ?thesis using Cons.IH [of k "t + int gap"] Cons.prems t None W by (simp add: w)
  next
    case (Some r0)
    note ws = wait_slot [OF W [unfolded Some] Cons.prems(1) order_trans [OF Cons.prems(2) t]]
    let ?k = "k\<lparr>tkTaken := slot k r0\<rparr>"
    have "sorted_wrt (<) (map (slot ?k) (permits (Some ?k) r0 ws)) \<and> (\<forall>r \<in> set (permits (Some ?k) r0 ws). tkTaken ?k < slot ?k r)"
      using Cons.prems(1) by (intro Cons.IH) simp_all
    then show ?thesis using W Some ws(1,2) by (auto simp: w intro: less_trans)
  qed
qed simp

lemma distinct_slots_in_window:
  assumes "distinct xs" "\<forall>x \<in> set xs. (a :: int) \<le> x \<and> x \<le> b"
  shows "int (length xs) \<le> max 0 (b - a + 1)"
proof -
  have "length xs = card (set xs)" using assms(1) by (simp add: distinct_card)
  also have "\<dots> \<le> card {a..b}" using assms(2) by (intro card_mono) auto
  finally show ?thesis by simp
qed

lemma div_below_two:
  assumes "(u :: int) < 2 * i" "i > 0"
  shows "u div i < 2"
proof (rule ccontr)
  assume "\<not> u div i < 2"
  then have "2 * i \<le> u div i * i" using assms(2) by (intro mult_right_mono) simp_all
  also have "\<dots> \<le> u" using div_mult_mod_eq [of u i] pos_mod_sign [OF assms(2), of u] by linarith
  finally show False using assms(1) by simp
qed


end
