(* ===== verification/Startup.thy ===== *)
theory Startup
  imports Platform Billing Bff_Guards Auth_Store
begin

text \<open>
  How the services start: the main functions under services/*/cmd up to the point where the servers run. A start reads the environment and
  asks its surroundings (\<open>externals\<close>: the listener, the brokers and databases) step by step, and either ends the process or gives the
  process it has set up. The social and billing services choose their stores here. How the processes end, on a signal or with a worker that fails, is
  here too.
\<close>

section \<open>Steps of a start\<close>

text \<open>
  \<open>xDial\<close>: a gRPC client can be made for the address; \<open>xPgPing n\<close>: ping number \<open>n\<close> of the start succeeds; \<open>xOpened\<close>: what \<open>db.Open\<close> returned, a pool or
  nil with an error or nil.
\<close>

record externals =
  xLog :: bool
  xListen :: "string \<Rightarrow> bool"
  xDial :: "string \<Rightarrow> bool"
  xNats :: "nats_options \<Rightarrow> unit option"
  xJetStream :: bool
  xPgNew :: "string \<Rightarrow> bool"
  xPgPing :: "nat \<Rightarrow> bool"
  xRedis :: "string \<Rightarrow> bool"
  xOpened :: "bool \<times> open_error option"

datatype exit = Panic | Exit nat

definition step :: "bool \<Rightarrow> exit \<Rightarrow> exit + unit" where
  "step ok ex = (if ok then Inr () else Inl ex)"

definition or_exit :: "exit \<Rightarrow> 'e + 'a \<Rightarrow> exit + 'a" where
  "or_exit ex r = (case r of Inl _ \<Rightarrow> Inl ex | Inr a \<Rightarrow> Inr a)"

abbreviation "zero_options \<equiv> \<lparr>noURL = [], noMaxReconnects = 0, noReconnectWait = 0\<rparr>"

definition connects :: "fraction_arith \<Rightarrow> environ \<Rightarrow> externals \<Rightarrow> nats_options \<Rightarrow> bool" where
  "connects fl e x opts = isr (nats_Connect fl e (xNats x) opts)"

definition isProd :: "environ \<Rightarrow> bool" where
  "isProd e = equal_fold (env_text e ''APP_ENV'') ''production''"

text \<open>The configuration and the logger come first.\<close>

definition base_start :: "environ \<Rightarrow> externals \<Rightarrow> exit + app_config" where
  "base_start e x = and_then (or_exit Panic (config_Load e)) (\<lambda>c. and_then (step (xLog x) Panic) (\<lambda>_. Inr c))"

section \<open>Social\<close>

datatype backend = InMemory | Postgres string

definition initRatings :: "environ \<Rightarrow> externals \<Rightarrow> exit + backend" where
  "initRatings e x =
     (let dsn = env_text e ''DATABASE_URL''
      in if dsn = [] then (if isProd e then Inl (Exit 1) else Inr InMemory)
         else if \<not> xPgNew x dsn then (if isProd e then Inl (Exit 1) else Inr InMemory)
         else if \<not> xPgPing x 0 then (if isProd e then Inl (Exit 1) else Inr InMemory)
         else Inr (Postgres dsn))"

definition initComments :: "environ \<Rightarrow> externals \<Rightarrow> exit + backend" where
  "initComments e x =
     (let dsn = env_text e ''DATABASE_URL''
      in if dsn = [] then (if isProd e then Inl (Exit 1) else Inr InMemory)
         else if \<not> xPgNew x dsn then (if isProd e then Inl (Exit 1) else Inr InMemory)
         else if \<not> xPgPing x 1 then (if isProd e then Inl (Exit 1) else Inr InMemory)
         else Inr (Postgres dsn))"

record social_process =
  spHTTPAddr :: string
  spGRPCAddr :: string
  spRatings :: backend
  spComments :: backend
  spSecret :: string
  spConsumer :: bool

definition social_start :: "fraction_arith \<Rightarrow> environ \<Rightarrow> externals \<Rightarrow> exit + social_process" where
  "social_start fl e x =
     and_then (base_start e x) (\<lambda>cfg.
     and_then (initRatings e x) (\<lambda>ratings.
     and_then (initComments e x) (\<lambda>comments.
       let grpcAddr = env_text e ''GRPC_ADDR''; grpcAddr = (if grpcAddr = [] then '':9090'' else grpcAddr)
       in and_then (step (xListen x grpcAddr) (Exit 1)) (\<lambda>_.
            Inr \<lparr>spHTTPAddr = apHTTPAddr cfg, spGRPCAddr = grpcAddr, spRatings = ratings, spComments = comments,
              spSecret = env_text e ''JWT_SECRET'', spConsumer = connects fl e x zero_options\<rparr>))))"

section \<open>Billing\<close>

definition initPool :: "environ \<Rightarrow> externals \<Rightarrow> billing_config \<Rightarrow> exit + string option" where
  "initPool e x cfg =
     (if bgDatabaseURL cfg = [] then (if isProd e then Inl (Exit 1) else Inr None)
      else if \<not> xPgNew x (bgDatabaseURL cfg) then (if isProd e then Inl (Exit 1) else Inr None)
      else if \<not> xPgPing x 0 then (if isProd e then Inl (Exit 1) else Inr None)
      else Inr (Some (bgDatabaseURL cfg)))"

text \<open>A publisher with or without a stream; a stream that cannot be created is only a warning.\<close>

definition publisher_New :: "fraction_arith \<Rightarrow> environ \<Rightarrow> externals \<Rightarrow> string \<Rightarrow> bool option" where
  "publisher_New fl e x natsURL =
     (if natsURL = [] then Some False
      else if \<not> connects fl e x (zero_options\<lparr>noURL := natsURL\<rparr>) then None
      else if \<not> xJetStream x then None
      else Some True)"

record billing_process =
  bpHTTPAddr :: string
  bpSecret :: string
  bpPool :: "string option"
  bpIdem :: idem_kind
  bpJetStream :: bool

definition billing_start :: "fraction_arith \<Rightarrow> environ \<Rightarrow> externals \<Rightarrow> exit + billing_process" where
  "billing_start fl e x =
     and_then (base_start e x) (\<lambda>cfg.
     and_then (or_exit Panic (billing_Load e)) (\<lambda>billingCfg.
     and_then (initPool e x billingCfg) (\<lambda>pool.
     and_then (or_exit (Exit 1) (NewStore (bgRedisDSN billingCfg) (bgDatabaseURL billingCfg) (bgTTL billingCfg) (isProd e))) (\<lambda>idem.
     and_then
       (case publisher_New fl e x (bgNATSURL billingCfg) of
          Some js \<Rightarrow> Inr js
        | None \<Rightarrow> if isProd e then Inl (Exit 1) else Inr (the (publisher_New fl e x []))) (\<lambda>js.
       Inr \<lparr>bpHTTPAddr = apHTTPAddr cfg, bpSecret = bgSecret billingCfg, bpPool = pool, bpIdem = idem, bpJetStream = js\<rparr>)))))"

text \<open>The surroundings of the webhook handler of a process.\<close>

definition process_env :: "(string \<Rightarrow> string \<Rightarrow> string) \<Rightarrow> (string \<Rightarrow> stripe_event option) \<Rightarrow> billing_process \<Rightarrow> billing_env" where
  "process_env mac decode p = \<lparr>biMac = mac, biDecode = decode, biSecret = bpSecret p, biPool = (bpPool p \<noteq> None), biJetStream = bpJetStream p\<rparr>"

section \<open>Gateway\<close>

record 'v bff_process =
  gwHTTPAddr :: string
  gwConfig :: bff_config
  gwCache :: "'v ttl_cache"
  gwAuthLimiter :: rate_limiter
  gwPublicLimiter :: rate_limiter

definition bff_start :: "fraction_arith \<Rightarrow> environ \<Rightarrow> externals \<Rightarrow> exit + 'v bff_process" where
  "bff_start fl e x =
     and_then (base_start e x) (\<lambda>cfg.
     and_then (or_exit (Exit 1) (LoadBFF e)) (\<lambda>bffCfg.
     and_then (step (connects fl e x (zero_options\<lparr>noURL := bcNATSURL bffCfg\<rparr>)) (Exit 1)) (\<lambda>_.
     and_then (step (xJetStream x) (Exit 1)) (\<lambda>_.
     and_then (step (xDial x (bcAuth bffCfg)) (Exit 1)) (\<lambda>_.
     and_then (step (xDial x (bcCatalog bffCfg)) (Exit 1)) (\<lambda>_.
     and_then (step (xDial x (bcActivity bffCfg)) (Exit 1)) (\<lambda>_.
     and_then (step (xDial x (bcSearch bffCfg)) (Exit 1)) (\<lambda>_.
     and_then (step (xDial x (bcStreaming bffCfg)) (Exit 1)) (\<lambda>_.
     and_then (step (xDial x (bcSocial bffCfg)) (Exit 1)) (\<lambda>_.
       Inr \<lparr>gwHTTPAddr = apHTTPAddr cfg, gwConfig = bffCfg, gwCache = NewTTLCache (bcCacheTTL bffCfg),
         gwAuthLimiter = NewRateLimiter 5 10, gwPublicLimiter = NewRateLimiter 50 100\<rparr>))))))))))"

section \<open>Auth, catalog, activity\<close>

text \<open>\<open>app.New\<close> passes the nil pool on when \<open>db.Open\<close> returns neither a pool nor an error.\<close>

definition opened :: "externals \<Rightarrow> exit + bool" where
  "opened x = (case xOpened x of (_, Some err) \<Rightarrow> Inl (Exit 1) | (pool, None) \<Rightarrow> Inr pool)"

record auth_process =
  apConfig :: auth_config
  apGRPCAddr :: string
  apPool :: bool

text \<open>The bootstrap on a nil pool panics in the \<open>Exec\<close>, which a blank name does not reach.\<close>

definition bootstrap_admin :: "(string \<Rightarrow> string) \<Rightarrow> ctx \<Rightarrow> bool \<Rightarrow> string \<Rightarrow> bool \<Rightarrow> auth_db \<Rightarrow> (exit + unit) \<times> auth_db" where
  "bootstrap_admin lower y table_missing u pool db =
     (if u = [] then (Inr (), db)
      else if \<not> pool \<and> trim_space u \<noteq> [] then (Inl Panic, db)
      else (case PromoteAdmin lower y table_missing u db of (r, db') \<Rightarrow> (or_exit (Exit 1) r, db')))"

definition auth_start ::
  "fraction_arith \<Rightarrow> (string \<Rightarrow> string) \<Rightarrow> environ \<Rightarrow> externals \<Rightarrow> ctx \<Rightarrow> bool \<Rightarrow> auth_db \<Rightarrow> (exit + auth_process) \<times> auth_db" where
  "auth_start fl lower e x y table_missing db =
     (case and_then (base_start e x) (\<lambda>_. and_then (opened x) (\<lambda>pool. and_then (or_exit (Exit 1) (LoadAuth fl e)) (\<lambda>cfg. Inr (pool, cfg)))) of
        Inl ex \<Rightarrow> (Inl ex, db)
      | Inr (pool, cfg) \<Rightarrow>
          (case bootstrap_admin lower y table_missing (e ''BOOTSTRAP_ADMIN_USERNAME'') pool db of
             (Inl ex, db') \<Rightarrow> (Inl ex, db')
           | (Inr _, db') \<Rightarrow>
               (and_then (step (xListen x (auth_LoadGRPC e)) (Exit 1))
                  (\<lambda>_. Inr \<lparr>apConfig = cfg, apGRPCAddr = auth_LoadGRPC e, apPool = pool\<rparr>), db')))"

record store_process =
  ssGRPCAddr :: string
  ssPool :: bool
  ssNats :: bool

definition catalog_start :: "fraction_arith \<Rightarrow> environ \<Rightarrow> externals \<Rightarrow> exit + store_process" where
  "catalog_start fl e x =
     and_then (step (xLog x) Panic) (\<lambda>_.
     and_then (opened x) (\<lambda>pool.
     and_then (step (xListen x (catalog_LoadGRPC e)) (Exit 1)) (\<lambda>_.
     and_then (step (connects fl e x (zero_options\<lparr>noURL := LoadOutbox e\<rparr>)) (Exit 1)) (\<lambda>_.
     and_then (step (xJetStream x) (Exit 1)) (\<lambda>_.
       Inr \<lparr>ssGRPCAddr = catalog_LoadGRPC e, ssPool = pool, ssNats = True\<rparr>)))))"

definition activity_start :: "fraction_arith \<Rightarrow> environ \<Rightarrow> externals \<Rightarrow> exit + store_process" where
  "activity_start fl e x =
     and_then (step (xLog x) Panic) (\<lambda>_.
     and_then (opened x) (\<lambda>pool.
     and_then (step (xListen x (activity_LoadGRPC e)) (Exit 1)) (\<lambda>_.
       Inr \<lparr>ssGRPCAddr = activity_LoadGRPC e, ssPool = pool, ssNats = connects fl e x zero_options\<rparr>)))"

section \<open>Streaming, resolver, search, ingestion, analytics\<close>

definition streaming_start :: "environ \<Rightarrow> externals \<Rightarrow> exit + app_config" where
  "streaming_start e x =
     and_then (base_start e x) (\<lambda>cfg. and_then (step (xDial x (streaming_Load e)) (Exit 1)) (\<lambda>_. Inr cfg))"

text \<open>The breaker of the resolver trips at the configured number of consecutive failures.\<close>

definition ReadyToTrip :: "resolver_config \<Rightarrow> i32 \<Rightarrow> bool" where
  "ReadyToTrip cfg consecutiveFailures \<longleftrightarrow> unat consecutiveFailures \<ge> unat (rcCBFailureThreshold cfg)"

definition resolver_start :: "fraction_arith \<Rightarrow> environ \<Rightarrow> externals \<Rightarrow> exit + resolver_config" where
  "resolver_start fl e x =
     and_then (or_exit Panic (resolver_Load fl e)) (\<lambda>cfg.
     and_then (step (xLog x) Panic) (\<lambda>_.
     and_then (step (xListen x (rcGRPCAddr cfg)) (Exit 1)) (\<lambda>_.
     and_then (step (xDial x (rcCatalog cfg)) (Exit 1)) (\<lambda>_.
     and_then (step (xRedis x (rcRedisURL cfg)) (Exit 1)) (\<lambda>_. Inr cfg)))))"

text \<open>\<open>reindexed\<close>: what the reindexing of the start returns, when it is asked for.\<close>

definition search_start :: "fraction_arith \<Rightarrow> environ \<Rightarrow> externals \<Rightarrow> bool \<Rightarrow> exit + search_config" where
  "search_start fl e x reindexed =
     and_then (or_exit Panic (search_Load fl e)) (\<lambda>cfg.
     and_then (step (xLog x) Panic) (\<lambda>_.
     and_then (step (xListen x (scGRPCAddr cfg)) (Exit 1)) (\<lambda>_.
     and_then (step (connects fl e x (zero_options\<lparr>noURL := scNATSURL cfg\<rparr>)) (Exit 1)) (\<lambda>_.
     and_then (step (xDial x (scCatalog cfg)) (Exit 1)) (\<lambda>_.
     and_then (step (xJetStream x) (Exit 1)) (\<lambda>_.
     and_then (step (\<not> scOnce cfg \<or> reindexed) (Exit 1)) (\<lambda>_. Inr cfg)))))))"

record ingestion_process =
  ipConfig :: ingestion_config
  ipTriggers :: bool
  ipJikan :: ticker
  ipHiAnime :: ticker

text \<open>\<open>stream\<close>: the worker's stream is there; \<open>t\<close>: the time the tickers start.\<close>

definition ingestion_start :: "fraction_arith \<Rightarrow> environ \<Rightarrow> externals \<Rightarrow> bool \<Rightarrow> time \<Rightarrow> exit + ingestion_process" where
  "ingestion_start fl e x stream t =
     and_then (base_start e x) (\<lambda>_.
     and_then (or_exit (Exit 1) (ingestion_Load e)) (\<lambda>ink.
     and_then (step (xDial x (icCatalog ink)) (Exit 1)) (\<lambda>_.
     and_then (step (connects fl e x (zero_options\<lparr>noURL := icNATSURL ink\<rparr>)) (Exit 1)) (\<lambda>_.
     and_then (step (xJetStream x) (Exit 1)) (\<lambda>_.
     and_then (step stream (Exit 1)) (\<lambda>_.
       Inr \<lparr>ipConfig = ink, ipTriggers = (env_text e ''ENABLE_HTTP_TRIGGERS'' = ''true''), ipJikan = NewRPS (icJikanRPS ink) t,
         ipHiAnime = NewRPS (icHiAnimeRPS ink) t\<rparr>))))))"

text \<open>\<open>ph\<close>: the PostHog client can be made; \<open>subscribed\<close>: the consumer's subscription.\<close>

definition analytics_start :: "fraction_arith \<Rightarrow> environ \<Rightarrow> externals \<Rightarrow> bool \<Rightarrow> bool \<Rightarrow> exit + analytics_config" where
  "analytics_start fl e x ph subscribed =
     and_then (or_exit Panic (analytics_Load e)) (\<lambda>cfg.
     and_then (step (xLog x) Panic) (\<lambda>_.
     and_then (step ph (Exit 1)) (\<lambda>_.
     and_then (step (connects fl e x (zero_options\<lparr>noURL := ncNATSURL cfg\<rparr>)) (Exit 1)) (\<lambda>_.
     and_then (step (xJetStream x) (Exit 1)) (\<lambda>_.
     and_then (step subscribed (Exit 1)) (\<lambda>_. Inr cfg))))))"

definition hls_start :: "environ \<Rightarrow> externals \<Rightarrow> exit + hls_config" where
  "hls_start e x =
     and_then (or_exit Panic (hls_Load e)) (\<lambda>cfg.
     and_then (step (xLog x) Panic) (\<lambda>_. Inr cfg))"

section \<open>Shutting down\<close>

text \<open>
  A signal arrives at \<open>sdSignal\<close>; \<open>sdDrained\<close> is when the last request in flight is answered, \<open>None\<close> if never, and \<open>sdTie\<close> what the select takes when that is the
  very moment the timer fires. The result is when the process ends, its exit code, and whether requests in flight were cut off.
\<close>

record shutdown =
  sdSignal :: time
  sdDrained :: "time option"
  sdTie :: bool

definition busy_at :: "time \<Rightarrow> shutdown \<Rightarrow> bool" where
  "busy_at t S \<longleftrightarrow> (case sdDrained S of None \<Rightarrow> True | Some d \<Rightarrow> t < d)"

definition grpc_main_end :: "shutdown \<Rightarrow> time \<times> nat \<times> bool" where
  "grpc_main_end S =
     (let timer = sdSignal S + 10000000000
      in (case sdDrained S of
            None \<Rightarrow> (timer, 0, True)
          | Some t \<Rightarrow>
              let t = max t (sdSignal S)
              in if t < timer \<or> t = timer \<and> sdTie S then (t, 0, False) else (timer, 0, True)))"

text \<open>The services on the runner: it returns with the signal, and the exit does not wait for the shutdown the other goroutine has begun.\<close>

definition http_main_end :: "shutdown \<Rightarrow> time \<times> nat \<times> bool" where
  "http_main_end S =
     (sdSignal S, WithSignals SignalReceived, busy_at (sdSignal S) S)"

text \<open>
  The proxy asks for ten seconds, in a goroutine of its own; the server's call returns with the beginning of the shutdown, not its end, and the main
  function with it.
\<close>

definition hls_main_end :: "shutdown \<Rightarrow> time \<times> nat \<times> bool" where
  "hls_main_end S = (sdSignal S, 0, busy_at (sdSignal S) S)"

text \<open>
  Two services depend on a worker beside their server, which fails at the given time. The catalog's ends the context a signal ends; the
  search service's ends the process.
\<close>

definition catalog_main_end :: "time option \<Rightarrow> shutdown \<Rightarrow> time \<times> nat \<times> bool" where
  "catalog_main_end failure S =
     grpc_main_end (case failure of None \<Rightarrow> S | Some t \<Rightarrow> S\<lparr>sdSignal := min t (sdSignal S)\<rparr>)"

definition search_main_end :: "time option \<Rightarrow> shutdown \<Rightarrow> time \<times> nat \<times> bool" where
  "search_main_end failure S =
     (case failure of
        None \<Rightarrow> grpc_main_end S
      | Some t \<Rightarrow> if t < fst (grpc_main_end S) then (t, 1, busy_at t S) else grpc_main_end S)"

section \<open>What a start guarantees\<close>

named_theorems start_steps

lemma step_Inr [start_steps]: "step ok ex = Inr u \<longleftrightarrow> ok"
  by (simp add: step_def)

lemma or_exit_Inr [start_steps]: "or_exit ex r = Inr a \<longleftrightarrow> r = Inr a"
  by (cases r) (simp_all add: or_exit_def)

declare and_then_Inr [start_steps]

lemma base_start_Inr [start_steps]: "base_start e x = Inr c \<longleftrightarrow> config_Load e = Inr c \<and> xLog x"
  by (auto simp: base_start_def start_steps)

text \<open>The two choices of the social service are one: Postgres exactly when it answers, memory only outside production.\<close>

definition pg_answers :: "string \<Rightarrow> externals \<Rightarrow> nat \<Rightarrow> bool" where
  "pg_answers dsn x n \<longleftrightarrow> dsn \<noteq> [] \<and> xPgNew x dsn \<and> xPgPing x n"

lemma init_store:
  "initRatings e x = (if pg_answers (env_text e ''DATABASE_URL'') x 0 then Inr (Postgres (env_text e ''DATABASE_URL'')) else if isProd e then Inl (Exit 1) else Inr InMemory)"
  "initComments e x = (if pg_answers (env_text e ''DATABASE_URL'') x 1 then Inr (Postgres (env_text e ''DATABASE_URL'')) else if isProd e then Inl (Exit 1) else Inr InMemory)"
  by (simp_all add: initRatings_def initComments_def pg_answers_def Let_def)

lemma init_pool:
  "initPool e x cfg = (if pg_answers (bgDatabaseURL cfg) x 0 then Inr (Some (bgDatabaseURL cfg)) else if isProd e then Inl (Exit 1) else Inr None)"
  by (simp add: initPool_def pg_answers_def)

lemma billing_start_Inr:
  "billing_start fl e x = Inr p \<longleftrightarrow>
     (\<exists>cfg bc. base_start e x = Inr cfg \<and> billing_Load e = Inr bc \<and> initPool e x bc = Inr (bpPool p) \<and>
        NewStore (bgRedisDSN bc) (bgDatabaseURL bc) (bgTTL bc) (isProd e) = Inr (bpIdem p) \<and>
        (publisher_New fl e x (bgNATSURL bc) = Some (bpJetStream p) \<or> publisher_New fl e x (bgNATSURL bc) = None \<and> \<not> isProd e \<and> \<not> bpJetStream p) \<and>
        bpHTTPAddr p = apHTTPAddr cfg \<and> bpSecret p = bgSecret bc)"
  by (cases p) (auto simp: billing_start_def start_steps publisher_New_def split: option.splits if_splits)

lemma billing_loaded: "billing_Load e = Inr bc \<Longrightarrow> bgDatabaseURL bc = env_text e ''DATABASE_URL'' \<and> bgNATSURL bc \<noteq> [] \<and> bgSecret bc = env_text e ''STRIPE_WEBHOOK_SECRET''"
  by (auto simp: billing_Load_def start_steps require_cases env_or_def Let_def split: if_splits)

lemma billing_in_production:
  assumes "isProd e" "billing_start fl e x = Inr p"
  shows "bpPool p = Some (env_text e ''DATABASE_URL'')" "bpIdem p \<noteq> MemoryStore" "bpJetStream p" "env_text e ''DATABASE_URL'' \<noteq> []"
proof -
  from assms(2) obtain bc where b: "billing_Load e = Inr bc" "initPool e x bc = Inr (bpPool p)"
    "NewStore (bgRedisDSN bc) (bgDatabaseURL bc) (bgTTL bc) (isProd e) = Inr (bpIdem p)" "publisher_New fl e x (bgNATSURL bc) = Some (bpJetStream p)"
    using assms(1) by (auto simp: billing_start_Inr)
  note l = billing_loaded [OF b(1)]
  show "bpPool p = Some (env_text e ''DATABASE_URL'')" "env_text e ''DATABASE_URL'' \<noteq> []"
    using b(2) assms(1) l by (auto simp: init_pool pg_answers_def split: if_splits)
  show "bpIdem p \<noteq> MemoryStore" using b(3) assms(1) by (auto simp: NewStore_def split: if_splits)
  show "bpJetStream p" using b(4) l by (auto simp: publisher_New_def split: if_splits)
qed


definition demo_environ :: environ where
  "demo_environ k =
     (if k = ''APP_ENV'' then ''Production'' else if k = ''SERVICE_NAME'' then ''svc'' else if k = ''DATABASE_URL'' then ''db''
      else if k = ''STRIPE_WEBHOOK_SECRET'' then ''s'' else [])"

definition all_up :: externals where
  "all_up = \<lparr>xLog = True, xListen = (\<lambda>_. True), xDial = (\<lambda>_. True), xNats = (\<lambda>_. Some ()), xJetStream = True, xPgNew = (\<lambda>_. True), xPgPing = (\<lambda>_. True),
     xRedis = (\<lambda>_. True), xOpened = (True, None)\<rparr>"

lemma start_trims: "trim_space ''Production'' = ''Production''" "trim_space ''svc'' = ''svc''" "trim_space ''db'' = ''db''" "trim_space ''s'' = ''s''" "trim_space [] = []"
  "equal_fold ''Production'' ''production''"
  by code_simp+

lemma demo_env:
  "isProd demo_environ" "env_text demo_environ ''DATABASE_URL'' = ''db''" "base_start demo_environ all_up = Inr \<lparr>apServiceName = ''svc'', apLogLevel = ''info'', apHTTPAddr = '':8080''\<rparr>"
  "connects fl demo_environ all_up opts" "\<exists>bc. billing_Load demo_environ = Inr bc \<and> bgSecret bc = ''s'' \<and> bgDatabaseURL bc = ''db'' \<and> bgRedisDSN bc = [] \<and> bgNATSURL bc = ''nats://nats:4222''"
  by (simp_all add: isProd_def env_text_def demo_environ_def start_trims base_start_def config_Load_def all_up_def step_def or_exit_def and_then_def
      connects_def nats_Connect_def billing_Load_def require_def env_or_def Let_def)

lemma demo_starts:
  "\<exists>p. social_start fl demo_environ all_up = Inr p"
  "\<exists>p. billing_start fl demo_environ all_up = Inr p \<and> bpSecret p = ''s'' \<and> bpPool p = Some ''db'' \<and> bpJetStream p"
proof -
  have up: "pg_answers ''db'' all_up n" "xListen all_up a" "xJetStream all_up" for n a by (simp_all add: pg_answers_def all_up_def)
  show "\<exists>p. social_start fl demo_environ all_up = Inr p"
    by (simp add: social_start_def and_then_Inr demo_env(3) init_store up demo_env(2) step_def Let_def)
  obtain bc where bc: "billing_Load demo_environ = Inr bc" "bgSecret bc = ''s''" "bgDatabaseURL bc = ''db''" "bgRedisDSN bc = []" "bgNATSURL bc = ''nats://nats:4222''"
    using demo_env(5) by blast
  have "billing_start fl demo_environ all_up = Inr \<lparr>bpHTTPAddr = '':8080'', bpSecret = ''s'', bpPool = Some ''db'', bpIdem = PostgresStore ''db'' (bgTTL bc), bpJetStream = True\<rparr>"
    by (simp add: billing_start_def demo_env bc or_exit_def and_then_def init_pool up NewStore_def publisher_New_def)
  then show "\<exists>p. billing_start fl demo_environ all_up = Inr p \<and> bpSecret p = ''s'' \<and> bpPool p = Some ''db'' \<and> bpJetStream p" by simp
qed


section \<open>Billing in production\<close>

lemma sql_update_ids: "bEventID ` set (fst (sql_update hit (\<lambda>r. r\<lparr>bRawData := d, bUpdatedAt := t\<rparr>) rows)) = bEventID ` set rows"
proof -
  have "map bEventID (fst (sql_update hit (\<lambda>r. r\<lparr>bRawData := d, bUpdatedAt := t\<rparr>) rows)) = map bEventID rows" by (rule sql_update_keys) simp
  then show ?thesis by (metis set_map)
qed

lemma saved:
  "SavePayment x i d db = Some db' \<Longrightarrow> i \<in> bEventID ` set (payments db')"
  "SaveSubscription x i d db = Some db' \<Longrightarrow> i \<in> bEventID ` set (subscriptions db')"
  by (auto simp: SavePayment_def SaveSubscription_def sql_update_ids split: if_splits option.splits)

lemma persisted:
  assumes "persist_and_publish E x save subject event b = (True, b')" "biPool E" "biJetStream E"
  obtains y where "save y (biDb b) = Some (biDb b')" "evID event \<in> set (sent_ids b')"
  using assms by (auto simp: persist_and_publish_def Publish_def sent_ids_def Let_def split: if_splits option.splits)

lemma handled:
  assumes "handle_event E x event b = (True, b')" "biPool E" "biJetStream E"
  shows "(evType event = ''checkout.session.completed'' \<longrightarrow> evID event \<in> bEventID ` set (payments (biDb b')) \<and> evID event \<in> set (sent_ids b')) \<and>
    (evType event = ''invoice.paid'' \<longrightarrow> evID event \<in> bEventID ` set (subscriptions (biDb b')) \<and> evID event \<in> set (sent_ids b'))"
proof (intro conjI impI)
  assume "evType event = ''checkout.session.completed''"
  then obtain y where "SavePayment y (evID event) (evObject event) (biDb b) = Some (biDb b')" "evID event \<in> set (sent_ids b')"
    using assms(1) persisted [OF _ assms(2,3)] unfolding handle_event_def handleCheckoutCompleted_def by (metis (no_types, lifting))
  then show "evID event \<in> bEventID ` set (payments (biDb b'))" "evID event \<in> set (sent_ids b')" by (blast intro: saved)+
next
  assume t: "evType event = ''invoice.paid''"
  then have "evType event \<noteq> ''checkout.session.completed''" by simp
  then obtain y where "SaveSubscription y (evID event) (evObject event) (biDb b) = Some (biDb b')" "evID event \<in> set (sent_ids b')"
    using assms(1) t persisted [OF _ assms(2,3)] unfolding handle_event_def handleInvoicePaid_def by (metis (no_types, lifting))
  then show "evID event \<in> bEventID ` set (subscriptions (biDb b'))" "evID event \<in> set (sent_ids b')" by (blast intro: saved)+
qed

text \<open>
  C22. In production a webhook that is answered 200 for a new payment or invoice is durable: whatever store keeps the marks, after the
  answer of a billing service that was started in production the event is in its table and in the stream. A service that came up
  without a pool or a stream, which development allows, promises neither.
\<close>

theorem production_webhook_durable:
  assumes start: "isProd e" "billing_start fl e x = Inr p"
    and ev: "accepted (process_env mac decode p) y r event" "chk y (evID event) (biIdem b) = (Inr False, s)"
    and ans: "ServeHTTP chk (process_env mac decode p) y z r b = (WriteHeader 200, b')"
  shows "(evType event = ''checkout.session.completed'' \<longrightarrow> evID event \<in> bEventID ` set (payments (biDb b')) \<and> evID event \<in> set (sent_ids b')) \<and>
    (evType event = ''invoice.paid'' \<longrightarrow> evID event \<in> bEventID ` set (subscriptions (biDb b')) \<and> evID event \<in> set (sent_ids b'))"
proof -
  let ?E = "process_env mac decode p"
  have up: "biPool ?E" "biJetStream ?E" using billing_in_production [OF start] by (simp_all add: process_env_def)
  obtain ok b2 where h: "handle_event ?E z event (b\<lparr>biIdem := s\<rparr>) = (ok, b2)" by (cases "handle_event ?E z event (b\<lparr>biIdem := s\<rparr>)")
  then have r: "(if ok then WriteHeader 200 else (Internal [] :: unit response), b2) = (WriteHeader 200, b')"
    using accepted_serve [OF ev(1), of chk z b] ev(2) ans by simp
  have "(Internal [] :: unit response) \<noteq> WriteHeader 200" by (simp add: Internal_def WriteError_def WriteHeader_def)
  with r have "ok" by (cases ok) simp_all
  with h r have "handle_event ?E z event (b\<lparr>biIdem := s\<rparr>) = (True, b')" by simp
  then show ?thesis using up by (rule handled)
qed

theorem production_webhook_durable_witness:
  "\<exists>p b'. billing_start (\<lambda>_ _ _. 0) demo_environ all_up = Inr p \<and>
     ServeHTTP mem_check (process_env (\<lambda>k m. []) (\<lambda>_. Some demo_event) p) (calm 0 []) (calm 0 []) demo_delivery
       \<lparr>biIdem = {}, biDb = \<lparr>payments = [], subscriptions = []\<rparr>, biSent = []\<rparr> = (WriteHeader 200, b') \<and>
     ''evt_1'' \<in> bEventID ` set (subscriptions (biDb b')) \<and> ''evt_1'' \<in> set (sent_ids b')"
proof -
  let ?b = "\<lparr>biIdem = {}, biDb = \<lparr>payments = [], subscriptions = []\<rparr>, biSent = []\<rparr>"
  obtain p where p: "billing_start (\<lambda>_ _ _. 0) demo_environ all_up = Inr p" "bpSecret p = ''s''" "bpPool p = Some ''db''" "bpJetStream p"
    using demo_starts(2) by blast
  have E: "process_env (\<lambda>k m. []) (\<lambda>_. Some demo_event) p = demo_billing" by (simp add: process_env_def demo_billing_def p)
  have a: "accepted demo_billing (calm 0 []) demo_delivery demo_event" using demo_accepted by simp
  have c: "mem_check (calm 0 []) (evID demo_event) (biIdem ?b) = (Inr False, {''evt_1''})" by (simp add: mem_check_def demo_event_def)
  have h: "fst (handle_event demo_billing (calm 0 []) demo_event (?b\<lparr>biIdem := {''evt_1''}\<rparr>))"
    by (simp add: handle_event_def handleInvoicePaid_def persist_and_publish_def SaveSubscription_def Publish_def demo_event_def demo_billing_def stmt_ctx_def)
  then obtain b' where r: "ServeHTTP mem_check demo_billing (calm 0 []) (calm 0 []) demo_delivery ?b = (WriteHeader 200, b')"
    using accepted_serve [OF a, of mem_check "calm 0 []" ?b] c by (auto split: prod.splits)
  have "evType demo_event = ''invoice.paid''" "evID demo_event = ''evt_1''" by (simp_all add: demo_event_def)
  with production_webhook_durable [OF demo_env(1) p(1), where mac = "\<lambda>k m. []" and decode = "\<lambda>_. Some demo_event", unfolded E, OF a c r] p(1) r E show ?thesis by (intro exI [of _ p] exI [of _ b']) simp
qed

section \<open>A start without a database\<close>

text \<open>When the database stays silent until the deadline, \<open>db.Open\<close> gives neither a pool nor an error, and the catalog comes up with a nil pool.\<close>

lemma catalog_without_pool:
  assumes "xOpened x = (False, None)" "xLog x" "xListen x (catalog_LoadGRPC e)" "connects fl e x (zero_options\<lparr>noURL := LoadOutbox e\<rparr>)" "xJetStream x"
  shows "catalog_start fl e x = Inr \<lparr>ssGRPCAddr = catalog_LoadGRPC e, ssPool = False, ssNats = True\<rparr>"
  using assms by (simp add: catalog_start_def opened_def step_def and_then_def)

text \<open>The social service accepts an empty secret: its tokens are then checked with the empty key.\<close>

lemma social_secret_unchecked:
  assumes "base_start e x = Inr c" "initRatings e x = Inr a" "initComments e x = Inr b" "xListen x (env_or e ''GRPC_ADDR'' '':9090'')" "e ''JWT_SECRET'' = []"
  shows "\<exists>p. social_start fl e x = Inr p \<and> spSecret p = []"
  using assms by (simp add: social_start_def and_then_def step_def env_or_def env_text_def start_trims Let_def)

text \<open>The gRPC services stop within ten seconds and cut nothing off that is answered before; the HTTP services cut off whatever is in flight.\<close>

lemma grpc_shutdown_bounded:
  "fst (grpc_main_end S) \<le> sdSignal S + 10000000000 \<and> (sdDrained S = Some t \<and> t < sdSignal S + 10000000000 \<longrightarrow> \<not> snd (snd (grpc_main_end S)))"
  by (auto simp: grpc_main_end_def Let_def split: option.splits)

lemma http_shutdown_cuts:
  "busy_at (sdSignal S) S \<Longrightarrow> http_main_end S = (sdSignal S, 0, True)"
  "busy_at (sdSignal S) S \<Longrightarrow> hls_main_end S = (sdSignal S, 0, True)"
  by (simp_all add: http_main_end_def hls_main_end_def WithSignals_def)

text \<open>A catalog whose publisher has failed ends like one that was told to, with exit code 0; the search service reports the failure of its indexer.\<close>

lemma grpc_main_end_after: "sdSignal S \<le> fst (grpc_main_end S) \<and> fst (snd (grpc_main_end S)) = 0"
  by (auto simp: grpc_main_end_def Let_def split: option.splits)

lemma worker_failure_exits:
  assumes "t < sdSignal S"
  shows "fst (snd (catalog_main_end (Some t) S)) = 0" "fst (catalog_main_end (Some t) S) \<le> t + 10000000000"
    "search_main_end (Some t) S = (t, 1, busy_at t S)"
  using assms grpc_main_end_after [of S] grpc_main_end_after [of "S\<lparr>sdSignal := t\<rparr>"] grpc_shutdown_bounded [of "S\<lparr>sdSignal := t\<rparr>"]
  by (auto simp: catalog_main_end_def search_main_end_def min_def)

end
