(* ===== verification/Gateway.thy ===== *)
theory Gateway
  imports Startup Bff_Auth Bff_Jikan
begin

text \<open>
  The gateway as services/bff/cmd/bff/main.go puts it together: the routes with the middleware of their groups, and a request on its way
  through them. Which route a request takes is the router's (chi) choice, so a request comes with its route here; what a handler answers is
  the parameter \<open>H\<close>, the handlers themselves are in the theories before this one.
\<close>

section \<open>Routes\<close>

datatype endpoint =
    EpRoot | EpRegister | EpLogin | EpRefresh | EpLogout
  | EpSearch | EpListAnime | EpGetAnime | EpGetEpisodesByAnime | EpGetRating | EpGetEpisode | EpListComments
  | EpWatch | EpBackfillTop | EpBackfillSeasonNow
  | EpMe | EpUpsertProgress | EpContinueWatching | EpCreateComment | EpVoteComment | EpUpdateComment | EpDeleteComment | EpRateAnime

datatype limiter_name = AuthLimiter | PublicLimiter

datatype access = Open | User | Admin

record route =
  rtMethod :: string
  rtPattern :: string
  rtLimiter :: "limiter_name option"
  rtAccess :: access
  rtEndpoint :: endpoint

definition group :: "limiter_name option \<Rightarrow> access \<Rightarrow> (string \<times> string \<times> endpoint) list \<Rightarrow> route list" where
  "group l a rs = map (\<lambda>(m, pat, ep). \<lparr>rtMethod = m, rtPattern = pat, rtLimiter = l, rtAccess = a, rtEndpoint = ep\<rparr>) rs"

definition bff_routes :: "route list" where
  "bff_routes =
     group None Open [(''GET'', ''/'', EpRoot)] @
     group (Some AuthLimiter) Open
       [(''POST'', ''/v1/auth/register'', EpRegister), (''POST'', ''/v1/auth/login'', EpLogin), (''POST'', ''/v1/auth/refresh'', EpRefresh),
        (''POST'', ''/v1/auth/logout'', EpLogout)] @
     group (Some PublicLimiter) Open
       [(''GET'', ''/v1/search'', EpSearch), (''GET'', ''/v1/anime'', EpListAnime), (''GET'', ''/v1/anime/{anime_id}'', EpGetAnime),
        (''GET'', ''/v1/anime/{anime_id}/episodes'', EpGetEpisodesByAnime), (''GET'', ''/v1/anime/{anime_id}/rating'', EpGetRating),
        (''GET'', ''/v1/episodes/{episode_id}'', EpGetEpisode), (''GET'', ''/v1/comments/{anime_id}'', EpListComments)] @
     group None User [(''GET'', ''/v1/watch/{episode_id}'', EpWatch)] @
     group None Admin
       [(''POST'', ''/v1/admin/backfill/jikan/top'', EpBackfillTop), (''POST'', ''/v1/admin/backfill/jikan/season/now'', EpBackfillSeasonNow)] @
     group None User
       [(''GET'', ''/v1/me'', EpMe),
        (''POST'', ''/v1/activity/progress'', EpUpsertProgress), (''GET'', ''/v1/activity/continue'', EpContinueWatching),
        (''POST'', ''/v1/comments/{anime_id}'', EpCreateComment), (''POST'', ''/v1/comments/{comment_id}/vote'', EpVoteComment),
        (''PUT'', ''/v1/comments/{comment_id}'', EpUpdateComment), (''DELETE'', ''/v1/comments/{comment_id}'', EpDeleteComment),
        (''POST'', ''/v1/anime/{anime_id}/rating'', EpRateAnime)]"

text \<open>The routes of the social service's own HTTP server (services/social/cmd/social/main.go).\<close>

datatype social_endpoint = SGetRatings | SPostRating | SGetThread | SCreateComment | SVoteComment | SUpdateComment | SDeleteComment

definition social_routes :: "(string \<times> string \<times> access \<times> social_endpoint) list" where
  "social_routes =
     [(''GET'', ''/v1/ratings/{anime_id}'', Open, SGetRatings), (''POST'', ''/v1/ratings/{anime_id}'', Open, SPostRating),
      (''GET'', ''/v1/comments/{anime_id}'', Open, SGetThread),
      (''POST'', ''/v1/comments/{anime_id}'', User, SCreateComment), (''POST'', ''/v1/comments/{comment_id}/vote'', User, SVoteComment),
      (''PUT'', ''/v1/comments/{comment_id}'', User, SUpdateComment), (''DELETE'', ''/v1/comments/{comment_id}'', User, SDeleteComment)]"

section \<open>A request\<close>

record gate_request =
  grTime :: time
  grAddr :: string
  grForwarded :: string
  grRid :: string
  grAuthorization :: string

record limiters =
  lmAuth :: rate_limiter
  lmPublic :: rate_limiter

definition guarded :: "jwt_lib \<Rightarrow> string \<Rightarrow> string \<Rightarrow> access \<Rightarrow> (auth_ctx \<Rightarrow> 'b response) \<Rightarrow> 'b response" where
  "guarded lib secret authorization a h =
     (case a of
        Open \<Rightarrow> h empty_ctx
      | User \<Rightarrow> RequireUser lib secret authorization h empty_ctx
      | Admin \<Rightarrow> RequireUser lib secret authorization (RequireAdmin h) empty_ctx)"

definition limited :: "gate_request \<Rightarrow> 'b response \<Rightarrow> rate_limiter \<Rightarrow> 'b response \<times> rate_limiter" where
  "limited q r rl = rate_middleware (\<lambda>_. r) (grTime q) (grAddr q) (grForwarded q) (grRid q) rl"

definition serve_route :: "jwt_lib \<Rightarrow> string \<Rightarrow> (endpoint \<Rightarrow> auth_ctx \<Rightarrow> 'b response) \<Rightarrow> route \<Rightarrow> gate_request \<Rightarrow> limiters \<Rightarrow> 'b response \<times> limiters" where
  "serve_route lib secret H rt q l =
     (let r = guarded lib secret (grAuthorization q) (rtAccess rt) (H (rtEndpoint rt))
      in (case rtLimiter rt of
            None \<Rightarrow> (r, l)
          | Some AuthLimiter \<Rightarrow> (case limited q r (lmAuth l) of (r, rl) \<Rightarrow> (r, l\<lparr>lmAuth := rl\<rparr>))
          | Some PublicLimiter \<Rightarrow> (case limited q r (lmPublic l) of (r, rl) \<Rightarrow> (r, l\<lparr>lmPublic := rl\<rparr>))))"

definition start_limiters :: "'v bff_process \<Rightarrow> limiters" where
  "start_limiters p = \<lparr>lmAuth = gwAuthLimiter p, lmPublic = gwPublicLimiter p\<rparr>"

text \<open>The handlers a sequence of requests reaches, seen with handlers that answer with their name.\<close>

fun reached :: "jwt_lib \<Rightarrow> string \<Rightarrow> (route \<times> gate_request) list \<Rightarrow> limiters \<Rightarrow> (endpoint \<times> gate_request) list" where
  "reached lib secret [] l = []"
| "reached lib secret ((rt, q) # qs) l =
     (case serve_route lib secret (\<lambda>ep _. WriteJSON 200 ep) rt q l of
        (r, l') \<Rightarrow> (case rBody r of JsonBody ep \<Rightarrow> [(ep, q)] | _ \<Rightarrow> []) @ reached lib secret qs l')"

definition client :: "gate_request \<Rightarrow> string" where
  "client q = (if grForwarded q \<noteq> [] then grForwarded q else grAddr q)"

section \<open>Who reaches a handler\<close>

definition credentials :: "endpoint set" where
  "credentials = {EpRegister, EpLogin, EpRefresh, EpLogout}"

definition admins_only :: "endpoint set" where
  "admins_only = {EpBackfillTop, EpBackfillSeasonNow}"

definition personal :: "endpoint set" where
  "personal = {EpWatch, EpMe, EpUpsertProgress, EpContinueWatching, EpCreateComment, EpVoteComment, EpUpdateComment, EpDeleteComment, EpRateAnime}"

lemma route_cases:
  assumes "rt \<in> set bff_routes"
  shows "rtEndpoint rt \<in> personal \<longleftrightarrow> rtAccess rt = User" "rtEndpoint rt \<in> admins_only \<longleftrightarrow> rtAccess rt = Admin"
    "rtLimiter rt = Some AuthLimiter \<longleftrightarrow> rtEndpoint rt \<in> credentials" "rtLimiter rt \<noteq> None \<Longrightarrow> rtAccess rt = Open"
    "rtMethod rt \<noteq> ''GET'' \<Longrightarrow> rtEndpoint rt \<in> credentials \<union> personal \<union> admins_only"
  using assms unfolding bff_routes_def group_def by (auto simp: personal_def admins_only_def credentials_def)

text \<open>The subject and role a token was accepted with.\<close>

definition accepted_as :: "jwt_lib \<Rightarrow> string \<Rightarrow> claims \<Rightarrow> bool" where
  "accepted_as lib secret c \<longleftrightarrow> (\<exists>token. JWT_Parse lib secret token = Some c) \<and> trim_space (clSubject c) \<noteq> []"

definition ctx_of :: "claims \<Rightarrow> auth_ctx" where
  "ctx_of c = \<lparr>ctxUserID = Some (clSubject c), ctxRole = (if trim_space (clRole c) \<noteq> [] then Some (clRole c) else None)\<rparr>"

lemma guarded_user:
  "guarded lib secret az User h = WriteHeader 401 \<or> (\<exists>c. accepted_as lib secret c \<and> guarded lib secret az User h = h (ctx_of c))"
proof (rule RequireUser_cases [of lib secret az h empty_ctx], goal_cases)
  case (2 scheme rest c)
  then have "guarded lib secret az User h = h (ctx_of c)" by (simp add: guarded_def ctx_of_def empty_ctx_def)
  with 2(3,4) show ?case by (auto simp: accepted_as_def)
qed (simp add: guarded_def)

lemma guarded_admin:
  "guarded lib secret az Admin h \<in> {WriteHeader 401, WriteHeader 403} \<or>
   (\<exists>c. accepted_as lib secret c \<and> to_lower (trim_space (clRole c)) = ''admin'' \<and> guarded lib secret az Admin h = h (ctx_of c))"
proof -
  have "guarded lib secret az Admin h = guarded lib secret az User (RequireAdmin h)" by (simp add: guarded_def)
  moreover have "RequireAdmin h (ctx_of c) = (if to_lower (trim_space (clRole c)) = ''admin'' then h (ctx_of c) else WriteHeader 403)" for c
  proof (cases "trim_space (clRole c) = []")
    case True
    moreover have "to_lower (trim_space []) \<noteq> ''admin''" by code_simp
    ultimately show ?thesis by (simp add: RequireAdmin_def ctx_of_def Let_def)
  next
    case False
    then show ?thesis by (simp add: RequireAdmin_def ctx_of_def Let_def)
  qed
  ultimately show ?thesis using guarded_user [of lib secret az "RequireAdmin h"] by (metis (no_types, lifting) insertCI)
qed

lemma bff_secret: "bff_start fl e x = Inr p \<Longrightarrow> bcJWTSecret (gwConfig p) = env_text e ''JWT_SECRET'' \<and> env_text e ''JWT_SECRET'' \<noteq> []"
  by (auto simp: bff_start_def start_steps LoadBFF_def require_cases split: if_splits)

text \<open>
  C13. Every write of the gateway is signed for: a route that acts for a user answers 401 or runs its handler for the subject of a token that was
  accepted under the configured secret, which is not empty; the administrators' routes answer 401 or 403 unless that token carries the
  admin role; and these two kinds, with the four routes of signing in and out, are all the routes that are not reads.
\<close>

theorem gateway_guarded:
  assumes "bff_start fl e x = Inr p" "rt \<in> set bff_routes" "serve_route lib (bcJWTSecret (gwConfig p)) H rt q l = (r, l')"
  shows "bcJWTSecret (gwConfig p) \<noteq> [] \<and>
    (rtEndpoint rt \<in> personal \<longrightarrow> r = WriteHeader 401 \<or> (\<exists>c. accepted_as lib (bcJWTSecret (gwConfig p)) c \<and> r = H (rtEndpoint rt) (ctx_of c))) \<and>
    (rtEndpoint rt \<in> admins_only \<longrightarrow> r \<in> {WriteHeader 401, WriteHeader 403} \<or>
       (\<exists>c. accepted_as lib (bcJWTSecret (gwConfig p)) c \<and> to_lower (trim_space (clRole c)) = ''admin'' \<and> r = H (rtEndpoint rt) (ctx_of c))) \<and>
    (rtMethod rt \<noteq> ''GET'' \<longrightarrow> rtEndpoint rt \<in> credentials \<union> personal \<union> admins_only)"
proof (intro conjI impI)
  show "bcJWTSecret (gwConfig p) \<noteq> []" using bff_secret [OF assms(1)] by simp
  have g: "rtAccess rt \<noteq> Open \<Longrightarrow> r = guarded lib (bcJWTSecret (gwConfig p)) (grAuthorization q) (rtAccess rt) (H (rtEndpoint rt))"
    using assms(3) route_cases(4) [OF assms(2)] by (cases "rtLimiter rt") (auto simp: serve_route_def)
  show "r = WriteHeader 401 \<or> (\<exists>c. accepted_as lib (bcJWTSecret (gwConfig p)) c \<and> r = H (rtEndpoint rt) (ctx_of c))" if "rtEndpoint rt \<in> personal"
    using that g guarded_user [of lib] by (simp add: route_cases [OF assms(2)])
  show "r \<in> {WriteHeader 401, WriteHeader 403} \<or>
       (\<exists>c. accepted_as lib (bcJWTSecret (gwConfig p)) c \<and> to_lower (trim_space (clRole c)) = ''admin'' \<and> r = H (rtEndpoint rt) (ctx_of c))" if "rtEndpoint rt \<in> admins_only"
    using that g guarded_admin [of lib] by (simp add: route_cases [OF assms(2)])
  show "rtEndpoint rt \<in> credentials \<union> personal \<union> admins_only" if "rtMethod rt \<noteq> ''GET''"
    using that by (rule route_cases [OF assms(2)])
qed

text \<open>The levels of access are ordered: who passes a stricter one passes the laxer ones.\<close>

fun level :: "access \<Rightarrow> nat" where
  "level Open = 0"
| "level User = 1"
| "level Admin = 2"

lemma level_inj: "level a = level b \<Longrightarrow> a = b"
  by (cases a; cases b) simp_all

instantiation access :: linorder
begin

definition less_eq_access :: "access \<Rightarrow> access \<Rightarrow> bool" where
  "less_eq_access a b \<longleftrightarrow> level a \<le> level b"

definition less_access :: "access \<Rightarrow> access \<Rightarrow> bool" where
  "less_access a b \<longleftrightarrow> level a < level b"

instance
  by standard (auto simp: less_eq_access_def less_access_def intro: level_inj)

end

definition passes :: "jwt_lib \<Rightarrow> string \<Rightarrow> string \<Rightarrow> access \<Rightarrow> bool" where
  "passes lib secret az a \<longleftrightarrow> rStatus (guarded lib secret az a (\<lambda>_. WriteHeader 200 :: unit response)) = 200"

lemma open_passes: "passes lib secret az Open"
  by (simp add: passes_def guarded_def WriteHeader_def)

lemma admin_is_user:
  assumes "passes lib secret az Admin"
  shows "passes lib secret az User"
proof (rule RequireUser_cases [of lib secret az "RequireAdmin (\<lambda>_. WriteHeader 200 :: unit response)" empty_ctx], goal_cases)
  case 1
  then show ?case using assms by (simp add: passes_def guarded_def WriteHeader_def)
next
  case (2 scheme rest c)
  then have "trim_space az \<noteq> []" by (auto simp: split_n_two_iff)
  with 2 show ?case by (simp add: passes_def guarded_def RequireUser_def WriteHeader_def Let_def)
qed

lemma passes_antimono: "a \<le> b \<Longrightarrow> passes lib secret az b \<Longrightarrow> passes lib secret az a"
  using admin_is_user [of lib secret az] by (cases a; cases b) (simp_all add: less_eq_access_def open_passes)

text \<open>
  On the social service's own server every write of a comment is guarded in the same way, but the write of a rating is not: its handler, which takes the
  user from the body of the request, runs whatever the authorization header is.
\<close>

lemma social_comments_guarded:
  assumes "(m, pat, a, ep) \<in> set social_routes" "m \<noteq> ''GET''" "ep \<noteq> SPostRating"
  shows "guarded lib secret az a h = WriteHeader 401 \<or> (\<exists>c. accepted_as lib secret c \<and> guarded lib secret az a h = h (ctx_of c))"
proof -
  have "a = User" using assms by (auto simp: social_routes_def)
  then show ?thesis using guarded_user by metis
qed

lemma social_rating_open: "(m, pat, a, SPostRating) \<in> set social_routes \<Longrightarrow> guarded lib secret az a h = h empty_ctx"
  by (auto simp: social_routes_def guarded_def)

section \<open>How often\<close>

fun limiter_of :: "limiter_name \<Rightarrow> limiters \<Rightarrow> rate_limiter" where
  "limiter_of AuthLimiter l = lmAuth l"
| "limiter_of PublicLimiter l = lmPublic l"

text \<open>A request takes from the bucket of its group and from no other, and reaches its handler exactly when the bucket lets it.\<close>

lemma limited_allow:
  "limited q r rl = (if fst (allow (grTime q) (client q) rl) then r else RateLimited ''RATE_LIMITED'' ''Too many requests'' (grRid q) None, snd (allow (grTime q) (client q) rl))"
  by (simp add: limited_def rate_middleware_def client_def Let_def split: prod.split)

lemma guarded_name: "rBody (guarded lib secret az a (\<lambda>_. WriteJSON 200 ep)) = JsonBody ep' \<Longrightarrow> ep' = ep"
proof (cases a)
  case Open
  then show "rBody (guarded lib secret az a (\<lambda>_. WriteJSON 200 ep)) = JsonBody ep' \<Longrightarrow> ep' = ep" by (simp add: guarded_def WriteJSON_def)
next
  case User
  then show "rBody (guarded lib secret az a (\<lambda>_. WriteJSON 200 ep)) = JsonBody ep' \<Longrightarrow> ep' = ep"
    using guarded_user [of lib secret az "\<lambda>_. WriteJSON 200 ep"] by (auto simp: WriteJSON_def WriteHeader_def)
next
  case Admin
  then show "rBody (guarded lib secret az a (\<lambda>_. WriteJSON 200 ep)) = JsonBody ep' \<Longrightarrow> ep' = ep"
    using guarded_admin [of lib secret az "\<lambda>_. WriteJSON 200 ep"] by (auto simp: WriteJSON_def WriteHeader_def)
qed

lemma serve_limited:
  assumes "serve_route lib secret (\<lambda>ep _. WriteJSON 200 ep) rt q l = (r, l')"
  shows "rtLimiter rt \<noteq> Some n \<Longrightarrow> limiter_of n l' = limiter_of n l"
    and "rtLimiter rt = Some n \<Longrightarrow> limiter_of n l' = snd (allow (grTime q) (client q) (limiter_of n l))"
    and "rtLimiter rt = Some n \<Longrightarrow> rtAccess rt = Open \<Longrightarrow>
      rBody r = (if fst (allow (grTime q) (client q) (limiter_of n l)) then JsonBody (rtEndpoint rt) else rBody (RateLimited ''RATE_LIMITED'' ''Too many requests'' (grRid q) None))"
    and "rBody r = JsonBody ep \<Longrightarrow> ep = rtEndpoint rt"
proof -
  show "rtLimiter rt \<noteq> Some n \<Longrightarrow> limiter_of n l' = limiter_of n l"
    "rtLimiter rt = Some n \<Longrightarrow> limiter_of n l' = snd (allow (grTime q) (client q) (limiter_of n l))"
    using assms by (cases n; auto simp: serve_route_def limited_allow Let_def split: option.splits limiter_name.splits)+
  show "rBody r = (if fst (allow (grTime q) (client q) (limiter_of n l)) then JsonBody (rtEndpoint rt) else rBody (RateLimited ''RATE_LIMITED'' ''Too many requests'' (grRid q) None))"
    if "rtLimiter rt = Some n" "rtAccess rt = Open"
    using assms that by (cases n) (auto simp: serve_route_def limited_allow guarded_def WriteJSON_def Let_def)
  have "r = guarded lib secret (grAuthorization q) (rtAccess rt) (\<lambda>_. WriteJSON 200 (rtEndpoint rt)) \<or> r = RateLimited ''RATE_LIMITED'' ''Too many requests'' (grRid q) None"
    using assms by (auto simp: serve_route_def limited_allow Let_def split: option.splits limiter_name.splits if_splits)
  then show "ep = rtEndpoint rt" if "rBody r = JsonBody ep"
    using that by (elim disjE) (auto simp: RateLimited_def WriteError_def dest: guarded_name)
qed

definition public_reads :: "endpoint set" where
  "public_reads = {EpSearch, EpListAnime, EpGetAnime, EpGetEpisodesByAnime, EpGetRating, EpGetEpisode, EpListComments}"

definition of_group :: "limiter_name \<Rightarrow> endpoint set" where
  "of_group n = (case n of AuthLimiter \<Rightarrow> credentials | PublicLimiter \<Rightarrow> public_reads)"

lemma route_group: "rt \<in> set bff_routes \<Longrightarrow> rtLimiter rt = Some n \<longleftrightarrow> rtEndpoint rt \<in> of_group n"
  unfolding bff_routes_def group_def by (cases n) (auto simp: of_group_def public_reads_def credentials_def)

abbreviation "arrivals n qs \<equiv> map (\<lambda>(rt, q). (grTime q, client q)) (filter (\<lambda>(rt, q). rtLimiter rt = Some n) qs)"

lemma reached_allowed:
  assumes "fst ` set qs \<subseteq> set bff_routes"
  shows "length (filter (\<lambda>(ep, q). ep \<in> of_group n \<and> client q = k) (reached lib secret qs l)) = allowed k (arrivals n qs) (limiter_of n l)"
  using assms
proof (induction qs arbitrary: l)
  case (Cons a qs)
  obtain rt q where a: "a = (rt, q)" by (cases a)
  obtain r l' where s: "serve_route lib secret (\<lambda>ep _. WriteJSON 200 ep) rt q l = (r, l')" by (cases "serve_route lib secret (\<lambda>ep _. WriteJSON 200 ep) rt q l")
  have rt: "rt \<in> set bff_routes" "fst ` set qs \<subseteq> set bff_routes" using Cons.prems a by auto
  note ih = Cons.IH [OF rt(2), of l']
  show ?case
  proof (cases "rtLimiter rt = Some n")
    case True
    then have "rtAccess rt = Open" using route_cases(4) [OF rt(1)] by simp
    note b = serve_limited(3) [OF s True this]
    have "rtEndpoint rt \<in> of_group n" using True route_group [OF rt(1)] by simp
    then show ?thesis using ih b serve_limited(2) [OF s True] True a s
      by (auto simp: RateLimited_def WriteError_def split: prod.splits)
  next
    case False
    then have "rtEndpoint rt \<notin> of_group n" using route_group [OF rt(1)] by simp
    then have "filter (\<lambda>(ep, q). ep \<in> of_group n \<and> client q = k) (case rBody r of JsonBody ep \<Rightarrow> [(ep, q)] | _ \<Rightarrow> []) = []"
      using serve_limited(4) [OF s] by (auto split: body.splits)
    then show ?thesis using ih serve_limited(1) [OF s False] False a s by simp
  qed
qed simp

lemma filtered_window:
  assumes "sorted (map f xs)" "filter P xs \<noteq> []"
  shows "f (last (filter P xs)) - f (hd (filter P xs)) \<le> f (last xs) - (f (hd xs) :: int)"
proof -
  have "last (filter P xs) \<in> set xs" "hd (filter P xs) \<in> set xs" using assms(2) last_in_set hd_in_set by (metis filter_is_subset subsetD)+
  then obtain i j where "last (filter P xs) = xs ! i" "i < length xs" "hd (filter P xs) = xs ! j" "j < length xs" by (metis in_set_conv_nth)
  moreover from this have "i \<le> length xs - 1" "xs \<noteq> []" by auto
  ultimately show ?thesis
    using sorted_nth_mono [OF assms(1), of i "length xs - 1"] sorted_nth_mono [OF assms(1), of 0 j] by (simp add: last_conv_nth hd_conv_nth)
qed


section \<open>Examples\<close>

definition gate_environ :: environ where
  "gate_environ k = ''v''"

lemma gate_started: "\<exists>p :: 'v bff_process. bff_start (\<lambda>_ _ _. 0) gate_environ all_up = Inr p \<and> bcJWTSecret (gwConfig p) = ''v''"
proof -
  have v: "trim_space ''v'' = ''v''" by code_simp
  show ?thesis
    by (simp add: bff_start_def and_then_Inr base_start_def config_Load_def LoadBFF_def require_def env_text_def env_or_def gate_environ_def v or_exit_def step_def
        connects_def nats_Connect_def all_up_def Let_def) (simp add: and_then_def)
qed

definition vote_route :: route where
  "vote_route = \<lparr>rtMethod = ''POST'', rtPattern = ''/v1/comments/{comment_id}/vote'', rtLimiter = None, rtAccess = User, rtEndpoint = EpVoteComment\<rparr>"

definition login_route :: route where
  "login_route = \<lparr>rtMethod = ''POST'', rtPattern = ''/v1/auth/login'', rtLimiter = Some AuthLimiter, rtAccess = Open, rtEndpoint = EpLogin\<rparr>"

definition plain_request :: gate_request where
  "plain_request = \<lparr>grTime = 0, grAddr = ''a'', grForwarded = [], grRid = [], grAuthorization = []\<rparr>"

lemma demo_routes: "vote_route \<in> set bff_routes" "login_route \<in> set bff_routes"
  by (simp_all add: bff_routes_def group_def vote_route_def login_route_def)

theorem gateway_guarded_witness:
  "\<exists>p r :: endpoint response. bff_start (\<lambda>_ _ _. 0) gate_environ all_up = Inr (p :: unit bff_process) \<and>
     fst (serve_route (\<lambda>_ _. None) (bcJWTSecret (gwConfig p)) (\<lambda>ep _. WriteJSON 200 ep) vote_route plain_request (start_limiters p)) = r \<and> r = WriteHeader 401"
proof -
  obtain p :: "unit bff_process" where p: "bff_start (\<lambda>_ _ _. 0) gate_environ all_up = Inr p" using gate_started by blast
  obtain r l' where s: "serve_route (\<lambda>_ _. None) (bcJWTSecret (gwConfig p)) (\<lambda>ep _. WriteJSON 200 ep) vote_route plain_request (start_limiters p) = (r, l')"
    by (cases "serve_route (\<lambda>_ _. None) (bcJWTSecret (gwConfig p)) (\<lambda>ep _. WriteJSON 200 ep) vote_route plain_request (start_limiters p)")
  have "\<not> accepted_as (\<lambda>_ _. None) secret c" for secret c by (simp add: accepted_as_def JWT_Parse_def)
  moreover have "rtEndpoint vote_route \<in> personal" by (simp add: vote_route_def personal_def)
  ultimately have "r = WriteHeader 401" using gateway_guarded [OF p demo_routes(1) s] by blast
  with p s show ?thesis by auto
qed


section \<open>The deployment\<close>

text \<open>
  C7. Signing in works across the deployment: with one JWT_SECRET in the environments of the auth service and of the gateway, whoever signs in
  at the gateway, by registering, by logging in or by a refresh, is recognised there with the access token of the response until it
  expires. The route of the profile lets the request through and answers with the identifier, e-mail and user name of that account,
  whatever requests the auth service handled in between, logouts and further refreshes included.
\<close>

theorem deployed_sign_in_recognised:
  assumes gw: "bff_start fl eB xB = Inr p" and au: "auth_start fl lower eA xA y tm db0 = (Inr a, db1)" and same: "env_text eA ''JWT_SECRET'' = env_text eB ''JWT_SECRET''"
    and signed: "gateway_sign_in cr (apConfig a) E op db = (WriteJSON st v, db')" and inv: "accounts_inv cr db" and new: "canonical cr (fresh (geXs E 0))"
    and jwt: "jwt_law cr lib (bcJWTSecret (gwConfig p)) t" and clock: "issued_at E op \<noteq> zero_time"
    and live: "t < (issued_at E op + cfgAccessTTL (apConfig a)) div 1000000000 * 1000000000"
    and wire: "\<forall>m. wire m ''authorization'' = m ''authorization''" and calm: "\<not> fault x 0"
    and route: "rt \<in> set bff_routes" "rtEndpoint rt = EpMe" and q: "grAuthorization q = ''Bearer '' @ avAccessToken v"
    and H: "H EpMe = bff_Me cr (apConfig a) x wire (grAuthorization q) (exec_auths cr (apConfig a) ops db')"
  shows "fst (serve_route lib (bcJWTSecret (gwConfig p)) H rt q l) =
    WriteJSON 200 \<lparr>mvUserID = uvID (avUser v), mvEmail = unless_empty (uvEmail (avUser v)), mvUsername = unless_empty (uvUsername (avUser v))\<rparr>"
proof -
  have "cfgSecret (apConfig a) = env_text eA ''JWT_SECRET''"
    using au by (auto simp: auth_start_def start_steps LoadAuth_def require_cases split: sum.splits prod.splits if_splits)
  then have sec: "cfgSecret (apConfig a) = bcJWTSecret (gwConfig p)" using bff_secret [OF gw] same by simp
  have "rtAccess rt = User" using route route_cases(1) [OF route(1)] by (simp add: personal_def)
  moreover from this have "rtLimiter rt = None" using route_cases(4) [OF route(1)] by (cases "rtLimiter rt") simp_all
  ultimately have "fst (serve_route lib (bcJWTSecret (gwConfig p)) H rt q l) = RequireUser lib (cfgSecret (apConfig a)) (''Bearer '' @ avAccessToken v)
      (bff_Me cr (apConfig a) x wire (''Bearer '' @ avAccessToken v) (exec_auths cr (apConfig a) ops db')) empty_ctx"
    by (simp add: serve_route_def guarded_def route q H sec)
  also have "\<dots> = WriteJSON 200 \<lparr>mvUserID = uvID (avUser v), mvEmail = unless_empty (uvEmail (avUser v)), mvUsername = unless_empty (uvUsername (avUser v))\<rparr>"
    by (rule signed_in_user_recognised [where wire = wire, OF signed inv new jwt [folded sec] clock live wire calm])
  finally show ?thesis .
qed

definition deployed_environ :: environ where
  "deployed_environ k = (if k \<in> {''ACCESS_TOKEN_TTL'', ''REFRESH_TOKEN_TTL'', ''BOOTSTRAP_ADMIN_USERNAME''} then [] else ''k'')"

definition deployed_cfg :: auth_config where
  "deployed_cfg = \<lparr>cfgSecret = ''k'', cfgAccessTTL = 900000000000, cfgRefreshTTL = 2592000000000000, cfgBootstrapAdmin = []\<rparr>"

definition me_route :: route where
  "me_route = \<lparr>rtMethod = ''GET'', rtPattern = ''/v1/me'', rtLimiter = None, rtAccess = User, rtEndpoint = EpMe\<rparr>"

lemma deployed_started:
  "\<exists>p :: 'v bff_process. bff_start (\<lambda>_ _ _. 0) deployed_environ all_up = Inr p \<and> bcJWTSecret (gwConfig p) = ''k''"
  "\<exists>a. auth_start (\<lambda>_ _ _. 0) lower deployed_environ all_up y tm db = (Inr a, db) \<and> apConfig a = deployed_cfg"
proof -
  have k: "trim_space ''k'' = ''k''" "trim_space [] = []" by code_simp+
  show "\<exists>p :: 'v bff_process. bff_start (\<lambda>_ _ _. 0) deployed_environ all_up = Inr p \<and> bcJWTSecret (gwConfig p) = ''k''"
    by (simp add: bff_start_def and_then_Inr base_start_def config_Load_def LoadBFF_def require_def env_text_def env_or_def deployed_environ_def k or_exit_def step_def
        connects_def nats_Connect_def all_up_def Let_def) (simp add: and_then_def)
  have "base_start deployed_environ all_up = Inr \<lparr>apServiceName = ''k'', apLogLevel = ''k'', apHTTPAddr = ''k''\<rparr>"
    by (simp add: base_start_def config_Load_def env_text_def deployed_environ_def k or_exit_def step_def and_then_def all_up_def Let_def)
  moreover have "LoadAuth (\<lambda>_ _ _. 0) deployed_environ = Inr deployed_cfg"
    by (simp add: LoadAuth_def require_def env_text_def deployed_environ_def k and_then_def parseDurationWithDefault_def duration_or_def deployed_cfg_def)
  moreover have "deployed_environ ''BOOTSTRAP_ADMIN_USERNAME'' = []" "xListen all_up i" "opened all_up = Inr True" for i
    by (simp_all add: deployed_environ_def all_up_def opened_def)
  ultimately show "\<exists>a. auth_start (\<lambda>_ _ _. 0) lower deployed_environ all_up y tm db = (Inr a, db) \<and> apConfig a = deployed_cfg"
    by (simp add: auth_start_def and_then_def or_exit_def bootstrap_admin_def step_def)
qed

theorem deployed_sign_in_recognised_witness:
  "\<exists>p v db'. bff_start (\<lambda>_ _ _. 0) deployed_environ all_up = Inr (p :: unit bff_process) \<and>
     gateway_sign_in gate_crypto deployed_cfg demo_gate (SignLogin ''ann'' ''pw'') demo_auth_db = (WriteJSON 200 v, db') \<and>
     fst (serve_route gate_lib (bcJWTSecret (gwConfig p))
       (\<lambda>_. bff_Me gate_crypto deployed_cfg (calm 5 []) (\<lambda>m. m) (''Bearer '' @ avAccessToken v) (exec_auths gate_crypto deployed_cfg [ALogout (\<lambda>_. calm 3 []) ''tok''] db'))
       me_route (plain_request\<lparr>grAuthorization := ''Bearer '' @ avAccessToken v\<rparr>) (start_limiters p)) =
     WriteJSON 200 \<lparr>mvUserID = ''u1'', mvEmail = Some ''a@b.cd'', mvUsername = Some ''ann''\<rparr>"
proof -
  let ?a = "\<lparr>uvID = ''u1'', uvEmail = ''a@b.cd'', uvUsername = ''ann'', uvCreatedAt = []\<rparr>" and ?op = "SignLogin ''ann'' ''pw''"
  obtain p :: "unit bff_process" where p: "bff_start (\<lambda>_ _ _. 0) deployed_environ all_up = Inr p" "bcJWTSecret (gwConfig p) = ''k''" using deployed_started(1) by blast
  obtain a where a: "auth_start (\<lambda>_ _ _. 0) (\<lambda>s. s) deployed_environ all_up (calm 0 []) False demo_auth_db = (Inr a, demo_auth_db)" "apConfig a = deployed_cfg"
    using deployed_started(2) by blast
  obtain v db' where s: "gateway_sign_in gate_crypto deployed_cfg demo_gate ?op demo_auth_db = (WriteJSON 200 v, db')" "avUser v = ?a"
    by (simp add: bff_Login_def auth_reply_def Login_def demo_gate_def gate_names FindUserByLogin_def gate_crypto_def deployed_cfg_def demo_simps issueTokens_def
        NewAccessToken_def NewRefreshToken_def CreateRefreshSession_def zero_time_def toAuthResponse_def plain_ascii Let_def)
  have inv: "accounts_inv gate_crypto demo_auth_db" "canonical gate_crypto (fresh (geXs demo_gate 0))"
    by (simp_all add: accounts_inv_def canonical_def demo_auth_db_def gate_crypto_def demo_crypto_def demo_gate_def gate_names)
  have clock: "issued_at demo_gate ?op \<noteq> zero_time" "5 < (issued_at demo_gate ?op + cfgAccessTTL deployed_cfg) div 1000000000 * 1000000000"
    by (simp_all add: demo_gate_def zero_time_def deployed_cfg_def)
  have law: "jwt_law gate_crypto gate_lib (bcJWTSecret (gwConfig p)) 5" unfolding p(2) by (rule gate_law)
  have rt: "me_route \<in> set bff_routes" "rtEndpoint me_route = EpMe" by (simp_all add: bff_routes_def group_def me_route_def)
  let ?q = "plain_request\<lparr>grAuthorization := ''Bearer '' @ avAccessToken v\<rparr>"
  have q: "grAuthorization ?q = ''Bearer '' @ avAccessToken v" by simp
  have wire: "\<forall>m. (\<lambda>m. m) m ''authorization'' = (m :: string \<Rightarrow> string list) ''authorization''" by simp
  have calm: "\<not> fault (calm 5 []) 0" by simp
  from deployed_sign_in_recognised [where wire = "\<lambda>m. m" and x = "calm 5 []" and rt = me_route and q = ?q and lib = gate_lib and t = 5, OF p(1) a(1) refl, unfolded a(2), OF s(1) inv law clock wire calm rt q,
      of "\<lambda>_. bff_Me gate_crypto deployed_cfg (calm 5 []) (\<lambda>m. m) (grAuthorization ?q) (exec_auths gate_crypto deployed_cfg [ALogout (\<lambda>_. calm 3 []) ''tok''] db')"
      "[ALogout (\<lambda>_. calm 3 []) ''tok'']" "start_limiters p", OF refl]
  have r: "fst (serve_route gate_lib (bcJWTSecret (gwConfig p))
       (\<lambda>_. bff_Me gate_crypto deployed_cfg (calm 5 []) (\<lambda>m. m) (''Bearer '' @ avAccessToken v) (exec_auths gate_crypto deployed_cfg [ALogout (\<lambda>_. calm 3 []) ''tok''] db'))
       me_route ?q (start_limiters p)) = WriteJSON 200 \<lparr>mvUserID = ''u1'', mvEmail = Some ''a@b.cd'', mvUsername = Some ''ann''\<rparr>"
    unfolding s(2) unless_empty_def q by simp
  show ?thesis by (rule exI [of _ p], rule exI [of _ v], rule exI [of _ db'], intro conjI) (rule p(1), rule s(1), rule r)
qed

end
