(* ===== verification/Playback.thy ===== *)
theory Playback
  imports Gateway Streaming
begin

text \<open>
  Playing an episode across the deployment: the gateway's watch route behind its token check, the resolver it calls, and the proxy that is asked for the
  link of the answer, each process as its own environment has set it up.
\<close>

section \<open>The processes\<close>

text \<open>What the gateway's main function hands to \<open>Watch\<close>, and the secret the proxy signs and checks with; the rest comes from the libraries.\<close>

definition watch_of :: "'v bff_process \<Rightarrow> mac \<Rightarrow> url_lib \<Rightarrow> (headers \<Rightarrow> string) \<Rightarrow> time \<Rightarrow> watch_env" where
  "watch_of p m urls json t =
     \<lparr>weMac = m, weUrl = urls, weJson = json, weBase = bcHLSBase (gwConfig p), weSecret = bcHLSSecret (gwConfig p), weNow = t\<rparr>"

definition proxy_of :: "hls_config \<Rightarrow> proxy_env \<Rightarrow> proxy_env" where
  "proxy_of h P = P\<lparr>peSecret := hcSecret h\<rparr>"

lemma hls_secrets:
  "bff_start fl e x = Inr p \<Longrightarrow> bcHLSSecret (gwConfig p) = env_text e ''HLS_SIGNING_SECRET'' \<and> bcHLSBase (gwConfig p) = env_text e ''HLS_PROXY_BASE_URL''"
  "hls_start e x = Inr h \<Longrightarrow> hcSecret h = env_text e ''HLS_SIGNING_SECRET'' \<and> hcSecret h \<noteq> []"
  by (auto simp: bff_start_def hls_start_def start_steps LoadBFF_def hls_Load_def require_cases split: if_splits)

text \<open>A request that the watch route answers with 200 has passed the token check.\<close>

lemma watch_served:
  assumes "rt \<in> set bff_routes" "rtEndpoint rt = EpWatch" "fst (serve_route lib secret H rt q l) = WriteJSON 200 w"
  obtains c where "accepted_as lib secret c" "H EpWatch (ctx_of c) = WriteJSON 200 w"
proof -
  have a: "rtAccess rt = User" using assms(2) route_cases(1) [OF assms(1)] by (simp add: personal_def)
  then have "rtLimiter rt = None" using route_cases(4) [OF assms(1)] by (cases "rtLimiter rt") simp_all
  then have g: "guarded lib secret (grAuthorization q) User (H EpWatch) = WriteJSON 200 w" using assms(2,3) a by (simp add: serve_route_def)
  have "WriteHeader 401 \<noteq> WriteJSON 200 w" by (simp add: WriteHeader_def WriteJSON_def)
  with g guarded_user [of lib secret "grAuthorization q" "H EpWatch"] show thesis by (metis that)
qed

text \<open>
  C15. An episode plays across the deployment: with one HLS_SIGNING_SECRET in the environments of the gateway and of the proxy, a request that the watch
  route answers with 200 carried a token that was accepted under the gateway's JWT secret, the resolver gave the playback of the
  answer, and the proxy, asked with the query of the link, contacts exactly the URL of the first source with the headers the
  provider asked for, until fifteen minutes after the answer, and contacts nobody later.
\<close>

theorem deployed_watch_plays:
  assumes gw: "bff_start fl eB xB = Inr p" and pr: "hls_start eP xP = Inr h" and same: "env_text eP ''HLS_SIGNING_SECRET'' = env_text eB ''HLS_SIGNING_SECRET''"
    and route: "rt \<in> set bff_routes" "rtEndpoint rt = EpWatch"
    and H: "H EpWatch = (\<lambda>c. Watch (watch_of p m urls json t) (\<lambda>e c s. fst (GetPlayback R e c s db redis)) c rid param cat srv)"
    and ans: "fst (serve_route lib (bcJWTSecret (gwConfig p)) H rt q l) = WriteJSON 200 w"
    and subjects: "\<forall>c. accepted_as lib (bcJWTSecret (gwConfig p)) c \<longrightarrow> trim_space (clSubject c) = clSubject c"
    and src: "cpSources (waPlayback w) = s # ss" "trim_space (psUrl s) = psUrl s" "psUrl s \<noteq> []"
    and base: "ulParse urls (env_text eB ''HLS_PROXY_BASE_URL'' @ ''/hls'') = Some u" "unRawQuery u = []"
    and expiry: "e = unix (t + 15 * 60 * 1000000000)" "in_int64 e"
    and libs: "\<forall>k b. m k b \<noteq> []" "\<forall>hs. peJson P (json hs) = Some hs" "\<forall>hs. json hs \<noteq> []" "peMac P = m" "peRequestOk P (psUrl s)"
  shows "(\<exists>c. accepted_as lib (bcJWTSecret (gwConfig p)) c) \<and>
    fst (GetPlayback R (trim_space param) (trim_space cat) (trim_space srv) db redis) = Inr (waPlayback w) \<and>
    (\<exists>link. waSignedPlaybackURL w = ulString urls (u\<lparr>unRawQuery := link\<rparr>) \<and>
      (\<forall>r t'. pqMethod r = ''GET'' \<and> pqQuery r = link \<longrightarrow>
         snd (hls_handler ((proxy_of h P)\<lparr>peNow := t'\<rparr>) r) =
           (if unix t' \<le> e
            then Some (psUrl s, if cpHeaders (waPlayback w) = [] then applyHiAnimeHeaders []
                   else fold (\<lambda>(k, v). header_set k v) (cpHeaders (waPlayback w)) [])
            else None)))"
proof -
  obtain c where c: "accepted_as lib (bcJWTSecret (gwConfig p)) c" "H EpWatch (ctx_of c) = WriteJSON 200 w"
    using route ans by (rule watch_served)
  let ?E = "watch_of p m urls json t"
  have "hcSecret h = weSecret ?E" "weBase ?E = env_text eB ''HLS_PROXY_BASE_URL''"
    using hls_secrets(1) [OF gw] hls_secrets(2) [OF pr] same by (simp_all add: watch_of_def)
  note E = this
  have W: "Watch ?E (\<lambda>e c s. fst (GetPlayback R e c s db redis)) (ctx_of c) rid param cat srv = WriteJSON 200 w" using c(2) by (simp add: H)
  have "ctxUserID (ctx_of c) = Some (clSubject c)" "trim_space (clSubject c) = clSubject c" using c(1) subjects by (simp_all add: ctx_of_def)
  note play = watch_link_plays [OF W this src, of u e "proxy_of h P"]
  have "weUrl ?E = urls" "weMac ?E = m" "weJson ?E = json" "weNow ?E = t" by (simp_all add: watch_of_def)
  with play E base expiry libs c(1) show ?thesis by (auto simp: proxy_of_def)
qed

section \<open>A deployment\<close>

definition watch_route :: route where
  "watch_route = \<lparr>rtMethod = ''GET'', rtPattern = ''/v1/watch/{episode_id}'', rtLimiter = None, rtAccess = User, rtEndpoint = EpWatch\<rparr>"

definition one_subject :: jwt_lib where
  "one_subject key token = (if token = ''tok'' \<and> key ''HS256'' = Some ''k'' then Some (\<lparr>clSubject = ''u1'', clRole = []\<rparr>, True) else None)"

lemma hls_deployed: "\<exists>h. hls_start deployed_environ all_up = Inr h"
proof -
  have k: "trim_space ''k'' = ''k''" by code_simp
  show ?thesis
    by (simp add: hls_start_def and_then_Inr hls_Load_def require_def env_text_def deployed_environ_def k or_exit_def step_def all_up_def) (simp add: and_then_def)
qed

lemma one_subject_only: "accepted_as one_subject secret c \<Longrightarrow> clSubject c = ''u1''"
  by (auto simp: accepted_as_def JWT_Parse_def one_subject_def split: if_splits)

lemma one_subject_served:
  assumes "secret = ''k''"
  shows "fst (serve_route one_subject secret H watch_route (plain_request\<lparr>grAuthorization := ''Bearer tok''\<rparr>) l) = H EpWatch \<lparr>ctxUserID = Some ''u1'', ctxRole = None\<rparr>"
proof -
  have s: "split_n 2 CHR '' '' (trim_space ''Bearer tok'') = [''Bearer'', ''tok'']" "to_lower ''Bearer'' = ''bearer''" "trim_space ''tok'' = ''tok''"
    "trim_space ''Bearer tok'' = ''Bearer tok''" "trim_space ''u1'' = ''u1''" "trim_space [] = []"
    by code_simp+
  have "JWT_Parse one_subject secret ''tok'' = Some \<lparr>clSubject = ''u1'', clRole = []\<rparr>" by (simp add: JWT_Parse_def one_subject_def assms)
  then show ?thesis using s by (simp add: serve_route_def watch_route_def guarded_def RequireUser_def empty_ctx_def del: to_lower.simps)
qed

theorem deployed_watch_plays_witness:
  "\<exists>p h (w :: watch_response) link. bff_start (\<lambda>_ _ _. 0) deployed_environ all_up = Inr (p :: unit bff_process) \<and> hls_start deployed_environ all_up = Inr h \<and>
     waPlayback w = demo_playback \<and> waSignedPlaybackURL w = ulString demo_lib \<lparr>unPath = ''/hls'', unRawQuery = link, unRest = []\<rparr> \<and>
     snd (hls_handler ((proxy_of h (demo_proxy\<lparr>peJson := demo_dec\<rparr>))\<lparr>peNow := 0\<rparr>) (demo_hls_request\<lparr>pqQuery := link\<rparr>)) =
       Some (''http://a/b'', fold (\<lambda>(k, v). header_set k v) [(''Referer'', ''r'')] [])"
proof -
  let ?db = "empty_catalog\<lparr>cdExtEpisodes := [((''hianime'', ''p1''), ''e1'')]\<rparr>" and ?u = "\<lparr>unPath = ''/hls'', unRawQuery = [], unRest = []\<rparr> :: net_url"
  let ?s = "\<lparr>psUrl = ''http://a/b'', psQuality = ''hls'', psIsM3U8 = True\<rparr>"
  obtain p :: "unit bff_process" where p: "bff_start (\<lambda>_ _ _. 0) deployed_environ all_up = Inr p" "bcJWTSecret (gwConfig p) = ''k''" using deployed_started(1) by blast
  obtain h where h: "hls_start deployed_environ all_up = Inr h" using hls_deployed by blast
  let ?H = "\<lambda>_ :: endpoint. \<lambda>c. Watch (watch_of p demo_mac demo_lib demo_enc 0) (\<lambda>e c s. fst (GetPlayback demo_resolver e c s ?db Map.empty)) c [] ''e1'' [] []"
  have rt: "watch_route \<in> set bff_routes" "rtEndpoint watch_route = EpWatch" by (simp_all add: bff_routes_def group_def watch_route_def)
  obtain url where w: "?H EpWatch \<lparr>ctxUserID = Some ''u1'', ctxRole = None\<rparr> = WriteJSON 200 \<lparr>waPlayback = demo_playback, waSignedPlaybackURL = url\<rparr>"
    using demo_get by (simp add: Watch_def demo_trims BuildSignedURL_def watch_of_def demo_lib_def demo_playback_def api_defs)
  let ?w = "\<lparr>waPlayback = demo_playback, waSignedPlaybackURL = url\<rparr>"
  have ans: "fst (serve_route one_subject (bcJWTSecret (gwConfig p)) ?H watch_route (plain_request\<lparr>grAuthorization := ''Bearer tok''\<rparr>) (start_limiters p)) = WriteJSON 200 ?w"
    using one_subject_served [OF p(2), of ?H] w by simp
  have n: "demo_enc hs \<noteq> []" for hs by (cases hs) auto
  have subj: "\<forall>c. accepted_as one_subject (bcJWTSecret (gwConfig p)) c \<longrightarrow> trim_space (clSubject c) = clSubject c" using one_subject_only demo_trims(3) by metis
  have src: "cpSources (waPlayback ?w) = ?s # []" "trim_space (psUrl ?s) = psUrl ?s" "psUrl ?s \<noteq> []" by (simp_all add: demo_playback_def demo_trims)
  have base: "ulParse demo_lib (env_text deployed_environ ''HLS_PROXY_BASE_URL'' @ ''/hls'') = Some ?u" "unRawQuery ?u = []" by (simp_all add: demo_lib_def)
  have ex: "900 = unix (0 + 15 * 60 * 1000000000)" "in_int64 900" by (simp_all add: unix_def in_int64_def)
  have libs: "\<forall>k b. demo_mac k b \<noteq> []" "\<forall>hs. peJson (demo_proxy\<lparr>peJson := demo_dec\<rparr>) (demo_enc hs) = Some hs" "\<forall>hs. demo_enc hs \<noteq> []"
    "peMac (demo_proxy\<lparr>peJson := demo_dec\<rparr>) = demo_mac" "peRequestOk (demo_proxy\<lparr>peJson := demo_dec\<rparr>) (psUrl ?s)"
    by (simp_all add: demo_mac_def demo_json n demo_proxy_def)
  from deployed_watch_plays [OF p(1) h refl rt refl ans subj src base ex libs]
  obtain link where link: "url = ulString demo_lib (?u\<lparr>unRawQuery := link\<rparr>)"
    "\<forall>r t'. pqMethod r = ''GET'' \<and> pqQuery r = link \<longrightarrow>
       snd (hls_handler ((proxy_of h (demo_proxy\<lparr>peJson := demo_dec\<rparr>))\<lparr>peNow := t'\<rparr>) r) =
         (if unix t' \<le> 900 then Some (psUrl ?s, if cpHeaders demo_playback = [] then applyHiAnimeHeaders []
                   else fold (\<lambda>(k, v). header_set k v) (cpHeaders demo_playback) []) else None)"
    by auto
  have "pqMethod (demo_hls_request\<lparr>pqQuery := link\<rparr>) = ''GET'' \<and> pqQuery (demo_hls_request\<lparr>pqQuery := link\<rparr>) = link" by (simp add: demo_hls_request_def)
  with link(2) have "snd (hls_handler ((proxy_of h (demo_proxy\<lparr>peJson := demo_dec\<rparr>))\<lparr>peNow := 0\<rparr>) (demo_hls_request\<lparr>pqQuery := link\<rparr>)) =
      Some (''http://a/b'', fold (\<lambda>(k, v). header_set k v) [(''Referer'', ''r'')] [])"
    by (simp add: unix_def demo_playback_def)
  with p(1) h link(1) show ?thesis by (intro exI [of _ p] exI [of _ h] exI [of _ ?w] exI [of _ link]) simp
qed

end
