(* ===== verification/Meili.thy ===== *)
theory Meili
  imports Search
begin

text \<open>
  The client of the search engine (services/search/internal/meili/client.go). \<open>mlDo\<close> is the HTTP client: method, address, headers and body to
  status and body, \<open>None\<close> when the request fails; encoding and decoding JSON are parameters. An error is its text.
\<close>

record meili =
  mlBaseURL :: string
  mlAPIKey :: string

record meili_env =
  mlRequestOk :: "string \<Rightarrow> bool"
  mlDo :: "string \<Rightarrow> string \<Rightarrow> (string \<times> string) list \<Rightarrow> string \<Rightarrow> (nat \<times> string) option"

definition meili_New :: "string \<Rightarrow> string \<Rightarrow> meili" where
  "meili_New baseURL apiKey = \<lparr>mlBaseURL = trim_right_char CHR ''/'' baseURL, mlAPIKey = apiKey\<rparr>"

definition meili_do :: "meili_env \<Rightarrow> meili \<Rightarrow> string \<Rightarrow> string \<Rightarrow> string \<Rightarrow> string + string" where
  "meili_do E c method path body =
     (let url = mlBaseURL c @ path;
          headers = (''Content-Type'', ''application/json'') # (if mlAPIKey c \<noteq> [] then [(''Authorization'', ''Bearer '' @ mlAPIKey c)] else [])
      in if \<not> mlRequestOk E url then Inl ''bad request''
         else
           (case mlDo E method url headers body of
              None \<Rightarrow> Inl ''request failed''
            | Some (status, data) \<Rightarrow> if status \<ge> 300 then Inl (''meili error: '' @ data) else Inr data))"

text \<open>The payloads come encoded, \<open>None\<close> when they do not encode. The result is the error, if any.\<close>

definition meili_EnsureIndex :: "meili_env \<Rightarrow> meili \<Rightarrow> string option \<Rightarrow> string option" where
  "meili_EnsureIndex E c payload =
     (case payload of
        None \<Rightarrow> Some ''marshal index payload''
      | Some b \<Rightarrow>
          (case meili_do E c ''POST'' ''/indexes'' b of
             Inr _ \<Rightarrow> None
           | Inl err \<Rightarrow> if contains err ''index already exists'' then None else Some err))"

definition meili_UpdateSettings :: "meili_env \<Rightarrow> meili \<Rightarrow> string \<Rightarrow> string option \<Rightarrow> string option" where
  "meili_UpdateSettings E c index payload =
     (case payload of
        None \<Rightarrow> Some ''marshal settings''
      | Some b \<Rightarrow> (case meili_do E c ''PATCH'' (''/indexes/'' @ index @ ''/settings'') b of Inl err \<Rightarrow> Some err | Inr _ \<Rightarrow> None))"

definition meili_AddDocuments :: "meili_env \<Rightarrow> meili \<Rightarrow> string \<Rightarrow> string option \<Rightarrow> string option" where
  "meili_AddDocuments E c index payload =
     (case payload of
        None \<Rightarrow> Some ''marshal documents''
      | Some b \<Rightarrow> (case meili_do E c ''POST'' (''/indexes/'' @ index @ ''/documents'') b of Inl err \<Rightarrow> Some err | Inr _ \<Rightarrow> None))"

definition meili_Search :: "meili_env \<Rightarrow> (string \<Rightarrow> 'r option) \<Rightarrow> meili \<Rightarrow> string \<Rightarrow> string option \<Rightarrow> string + 'r" where
  "meili_Search E decode c index payload =
     (case payload of
        None \<Rightarrow> Inl ''marshal search payload''
      | Some b \<Rightarrow>
          (case meili_do E c ''POST'' (''/indexes/'' @ index @ ''/search'') b of
             Inl err \<Rightarrow> Inl err
           | Inr resp \<Rightarrow> (case decode resp of None \<Rightarrow> Inl ''decode'' | Some out \<Rightarrow> Inr out)))"

text \<open>The settings of the index: what is searched, filtered and sorted by.\<close>

definition index_settings :: "(string \<times> string list) list" where
  "index_settings =
     [(''searchableAttributes'', [''title'', ''title_english'', ''title_japanese'', ''description'']),
      (''filterableAttributes'', [''genres'', ''status'', ''type'', ''score'', ''total_episodes'']),
      (''sortableAttributes'', [''score''])]"

definition indexer_EnsureIndex ::
  "meili_env \<Rightarrow> ((string \<times> string) list \<Rightarrow> string option) \<Rightarrow> ((string \<times> string list) list \<Rightarrow> string option) \<Rightarrow> meili \<Rightarrow> string option" where
  "indexer_EnsureIndex E encIndex encSettings c =
     (case meili_EnsureIndex E c (encIndex [(''uid'', ''anime''), (''primaryKey'', ''anime_id'')]) of
        Some err \<Rightarrow> Some err
      | None \<Rightarrow> meili_UpdateSettings E c ''anime'' (encSettings index_settings))"

section \<open>Every condition is on a filterable attribute\<close>

text \<open>The attribute a condition of \<open>buildFilters\<close> begins with, behind an opening parenthesis.\<close>

definition attribute :: "string \<Rightarrow> string" where
  "attribute s = takeWhile (\<lambda>c. c \<noteq> CHR '' '') (dropWhile (\<lambda>c. c = CHR ''('') s)"

definition filterable :: "string list" where
  "filterable = the (map_of index_settings ''filterableAttributes'')"

lemma attributes:
  "attribute (''status = '' @ s) = ''status''"
  "attribute (''type = '' @ s) = ''type''" "attribute (''score >= '' @ s) = ''score''" "attribute (''score <= '' @ s) = ''score''"
  by (simp_all add: attribute_def)

lemma ball_cond: "(\<forall>c \<in> set (if P then [x] else []). Q c) \<longleftrightarrow> (P \<longrightarrow> Q x)"
  by (cases P) simp_all

text \<open>
  The two sides of the search service agree: every condition of a query is on an attribute that the indexer declared filterable, so the engine
  does not refuse it.
\<close>

lemma filters_filterable: "\<exists>cs. buildFilters F req = join '' AND '' cs \<and> (\<forall>c \<in> set cs. attribute c \<in> set filterable)"
proof -
  have fl: "filterable = [''genres'', ''status'', ''type'', ''score'', ''total_episodes'']" by (simp add: filterable_def index_settings_def)
  have vals: "attribute (''('' @ join '' OR '' (map (\<lambda>g. ''genres = '' @ quote_value g) gs) @ '')'') = ''genres''" if "gs \<noteq> []" for gs
  proof -
    obtain g gs' where "gs = g # gs'" using \<open>gs \<noteq> []\<close> by (cases gs) simp_all
    then obtain s where "join '' OR '' (map (\<lambda>g. ''genres = '' @ quote_value g) gs) = ''genres = '' @ s" by (cases gs') auto
    then show ?thesis by (simp add: attribute_def)
  qed
  show ?thesis
    unfolding buildFilters_def Let_def
    by (rule exI, rule conjI, rule refl, unfold set_append ball_Un ball_cond attributes, intro conjI impI; (subst vals)?) (simp_all add: fl)
qed

end
