(* ===== verification/Workers.thy ===== *)
theory Workers
  imports Startup Meili Social_Consumer Activity_Consumer Ingestion_Jobs Analytics
begin

text \<open>
  The background workers around the message handlers: how they make sure of their streams (JetStream), how they subscribe, and the loops that fetch
  and process until the context ends. The broker is the parameter \<open>broker\<close>; a run of a loop is given by what its fetches return.
\<close>

section \<open>Streams\<close>

record stream_config =
  stName :: string
  stSubjects :: "string list"
  stSources :: "(string \<times> string) list"
  stMaxAge :: int

datatype js_error = ErrStreamNotFound | ErrStreamNameAlreadyInUse | ErrJetStream string

definition js_text :: "js_error \<Rightarrow> string" where
  "js_text err = (case err of ErrStreamNotFound \<Rightarrow> ''nats: stream not found'' | ErrStreamNameAlreadyInUse \<Rightarrow> ''nats: stream name already in use'' | ErrJetStream s \<Rightarrow> s)"

record 'w broker =
  brInfo :: "string \<Rightarrow> 'w \<Rightarrow> js_error + stream_config"
  brAdd :: "stream_config \<Rightarrow> 'w \<Rightarrow> js_error option \<times> 'w"
  brUpdate :: "stream_config \<Rightarrow> 'w \<Rightarrow> js_error option \<times> 'w"
  brSubscribe :: "string \<Rightarrow> string \<Rightarrow> 'w \<Rightarrow> js_error option \<times> 'w"

definition week :: int where
  "week = 7 * 24 * 3600000000000"

text \<open>The worker of the ingestion and the outbox publisher look first, and repair or create.\<close>

definition ensure_stream :: "string \<Rightarrow> string \<Rightarrow> 'w broker \<Rightarrow> 'w \<Rightarrow> js_error option \<times> 'w" where
  "ensure_stream name subj B w =
     (case brInfo B name w of
        Inr cfg \<Rightarrow> if subj \<in> set (stSubjects cfg) then (None, w) else brUpdate B (cfg\<lparr>stSubjects := [subj]\<rparr>) w
      | Inl err \<Rightarrow>
          if err \<noteq> ErrStreamNotFound then (Some err, w)
          else brAdd B \<lparr>stName = name, stSubjects = [subj], stSources = [], stMaxAge = week\<rparr> w)"

definition worker_EnsureStream :: "'w broker \<Rightarrow> 'w \<Rightarrow> js_error option \<times> 'w" where
  "worker_EnsureStream = ensure_stream ''INGESTION_JOBS'' ''ingestion.>''"

definition outbox_EnsureStream :: "'w broker \<Rightarrow> 'w \<Rightarrow> js_error option \<times> 'w" where
  "outbox_EnsureStream = ensure_stream ''CATALOG_EVENTS'' ''catalog.>''"

text \<open>The analytics consumer adds, and updates after an error that is not the name being in use.\<close>

definition analytics_stream :: stream_config where
  "analytics_stream = \<lparr>stName = ''ANALYTICS'', stSubjects = [''analytics.>''],
     stSources = [(''ACTIVITY'', ''activity.progress''), (''BILLING'', []), (''SOCIAL'', ''social.comments.>'')], stMaxAge = 30 * 24 * 3600000000000\<rparr>"

definition ensureStream :: "'w broker \<Rightarrow> 'w \<Rightarrow> 'w" where
  "ensureStream B w =
     (case brAdd B analytics_stream w of
        (None, w) \<Rightarrow> w
      | (Some err, w) \<Rightarrow> if err \<noteq> ErrStreamNameAlreadyInUse then snd (brUpdate B analytics_stream w) else w)"

definition consumer_New :: "'w broker \<Rightarrow> bool \<Rightarrow> 'w \<Rightarrow> bool \<times> 'w" where
  "consumer_New B jetstream w =
     (if \<not> jetstream then (False, w) else case brSubscribe B ''>'' ''analytics_processor'' (ensureStream B w) of (err, w) \<Rightarrow> (err = None, w))"

section \<open>Setting up the consumers\<close>

text \<open>A consumer that adds its stream tolerates one error; then it subscribes. The flag says whether its loop starts.\<close>

definition add_and_subscribe ::
  "(js_error \<Rightarrow> bool) \<Rightarrow> stream_config \<Rightarrow> string \<Rightarrow> string \<Rightarrow> 'w broker \<Rightarrow> 'w \<Rightarrow> bool \<times> 'w" where
  "add_and_subscribe tolerated cfg subj durable B w =
     (case brAdd B cfg w of
        (err, w) \<Rightarrow>
          if (\<exists>e. err = Some e \<and> \<not> tolerated e) then (False, w)
          else (case brSubscribe B subj durable w of (err, w) \<Rightarrow> (err = None, w)))"

definition worker_envInt :: "environ \<Rightarrow> string \<Rightarrow> int \<Rightarrow> int" where
  "worker_envInt e k dflt = env_int_if (\<lambda>n. \<not> n \<le> 0) e k dflt"

text \<open>\<open>parse\<close>, \<open>new\<close>: the database address parses, the pool can be made. The result has the batch size and the wait in milliseconds.\<close>

definition comments_setup ::
  "environ \<Rightarrow> bool \<Rightarrow> (string \<Rightarrow> bool) \<Rightarrow> (string \<Rightarrow> bool) \<Rightarrow> 'w broker \<Rightarrow> 'w \<Rightarrow> (int \<times> int) option \<times> 'w" where
  "comments_setup e jetstream parse new B w =
     (if \<not> jetstream then (None, w)
      else
        (case add_and_subscribe (\<lambda>err. contains (js_text err) ''already in use'')
                \<lparr>stName = ''SOCIAL'', stSubjects = [''social.comments.*''], stSources = [], stMaxAge = 0\<rparr> ''social.comments.*'' ''social_comments'' B w of
           (False, w) \<Rightarrow> (None, w)
         | (True, w) \<Rightarrow>
             let dsn = env_text e ''DATABASE_URL''
             in if dsn = [] \<or> \<not> parse dsn \<or> \<not> new dsn then (None, w)
                else (Some (worker_envInt e ''WORKER_BATCH_SIZE'' 100, worker_envInt e ''WORKER_BATCH_INTERVAL_MS'' 2000), w)))"

definition progress_setup :: "environ \<Rightarrow> bool \<Rightarrow> 'w broker \<Rightarrow> 'w \<Rightarrow> (int \<times> int) option \<times> 'w" where
  "progress_setup e jetstream B w =
     (if \<not> jetstream then (None, w)
      else
        (case add_and_subscribe (\<lambda>err. err = ErrStreamNameAlreadyInUse)
                \<lparr>stName = ''ACTIVITY'', stSubjects = [''activity.progress''], stSources = [], stMaxAge = 0\<rparr> ''activity.progress'' ''activity_progress'' B w of
           (False, w) \<Rightarrow> (None, w)
         | (True, w) \<Rightarrow> (Some (worker_envInt e ''WORKER_BATCH_SIZE'' 100, worker_envInt e ''WORKER_BATCH_INTERVAL_MS'' 2000), w)))"

text \<open>The indexer first makes sure of its index: \<open>ensured\<close> is the error of that, if any.\<close>

definition index_setup :: "string option \<Rightarrow> bool \<Rightarrow> 'w broker \<Rightarrow> 'w \<Rightarrow> bool \<times> 'w" where
  "index_setup ensured jetstream B w =
     (if ensured \<noteq> None \<or> \<not> jetstream then (False, w)
      else add_and_subscribe (\<lambda>err. err = ErrStreamNameAlreadyInUse)
             \<lparr>stName = ''CATALOG_EVENTS'', stSubjects = [''catalog.>''], stSources = [], stMaxAge = week\<rparr> ''catalog.anime.upserted'' ''search_indexer'' B w)"

section \<open>Loops\<close>

text \<open>What a turn of a loop meets: the end of the context, or the outcome of a fetch.\<close>

datatype 'm fetch = Cancelled | FetchTimeout | FetchFailed | Fetched 'm

datatype loop_end = Returns | ReturnsError | Crashes

text \<open>
  A loop over a trace of turns: \<open>fatal\<close> says whether a fetch error other than a timeout ends it, and the handler reports whether the process survived.
  \<open>None\<close> is a loop that still runs at the end of the trace.
\<close>

fun pull_loop :: "bool \<Rightarrow> ('m \<Rightarrow> 's \<Rightarrow> bool \<times> 's) \<Rightarrow> 'm fetch list \<Rightarrow> 's \<Rightarrow> loop_end option \<times> 's" where
  "pull_loop fatal h [] s = (None, s)"
| "pull_loop fatal h (Cancelled # fs) s = (Some Returns, s)"
| "pull_loop fatal h (FetchTimeout # fs) s = pull_loop fatal h fs s"
| "pull_loop fatal h (FetchFailed # fs) s = (if fatal then (Some ReturnsError, s) else pull_loop fatal h fs s)"
| "pull_loop fatal h (Fetched m # fs) s = (case h m s of (True, s) \<Rightarrow> pull_loop fatal h fs s | (False, s) \<Rightarrow> (Some Crashes, s))"

text \<open>A fetched batch of the comment consumer comes with the contexts of its statements; the state collects what was acknowledged.\<close>

type_synonym comment_batch = "ctx \<times> (nat \<Rightarrow> ctx) \<times> msg list"

definition comment_turn :: "consumer_env \<Rightarrow> comment_batch \<Rightarrow> consumer_db \<times> msg list \<Rightarrow> bool \<times> consumer_db \<times> msg list" where
  "comment_turn P b s =
     (case (b, s) of ((y, xs, msgs), (db, acked)) \<Rightarrow>
        if msgs = [] then (True, db, acked)
        else (case consume_batch P y xs msgs db of
                (AckAll, db) \<Rightarrow> (True, db, acked @ msgs)
              | (NakAll, db) \<Rightarrow> (True, db, acked)
              | (verdict.Panic, db) \<Rightarrow> (False, db, acked)))"

definition comments_run :: "consumer_env \<Rightarrow> comment_batch fetch list \<Rightarrow> consumer_db \<times> msg list \<Rightarrow> loop_end option \<times> consumer_db \<times> msg list" where
  "comments_run P = pull_loop False (comment_turn P)"

type_synonym progress_fetch = "ctx \<times> (nat \<Rightarrow> ctx) \<times> string list"

definition progress_turn :: "progress_env \<Rightarrow> progress_fetch \<Rightarrow> activity_db \<times> string list \<Rightarrow> bool \<times> activity_db \<times> string list" where
  "progress_turn P b s =
     (case (b, s) of ((y, xs, msgs), (db, acked)) \<Rightarrow>
        if msgs = [] then (True, db, acked)
        else (case consume_progress P y xs msgs db of
                (AckMsgs, db) \<Rightarrow> (True, db, acked @ msgs)
              | (NakMsgs, db) \<Rightarrow> (True, db, acked)
              | (NilPanic, db) \<Rightarrow> (False, db, acked)))"

definition progress_run :: "progress_env \<Rightarrow> progress_fetch fetch list \<Rightarrow> activity_db \<times> string list \<Rightarrow> loop_end option \<times> activity_db \<times> string list" where
  "progress_run P = pull_loop False (progress_turn P)"

definition analytics_Run :: "analytics_env \<Rightarrow> (msg \<Rightarrow> bool) \<Rightarrow> msg list fetch list \<Rightarrow> ph_msg list \<Rightarrow> loop_end option \<times> ph_msg list" where
  "analytics_Run E ok = pull_loop False (\<lambda>ms q. (True, fst (process_batch E ok ms q)))"

text \<open>The worker of the ingestion: one message per fetch, with its environment; the two loops take turns in any order, and the first to end ends the run.\<close>

type_synonym 's job_turn = "queue_env \<times> 's job_handlers \<times> job_msg"

definition consumeLoop :: "worker \<Rightarrow> string \<Rightarrow> 's job_turn list fetch list \<Rightarrow> 's queue \<Rightarrow> loop_end option \<times> 's queue" where
  "consumeLoop W subj = pull_loop True (\<lambda>ms q. (True, fold (\<lambda>(E, H, m) q. snd (handleMsg W E H m subj q)) ms q))"

fun worker_loops :: "worker \<Rightarrow> (string \<times> 's job_turn list fetch) list \<Rightarrow> 's queue \<Rightarrow> loop_end option \<times> 's queue" where
  "worker_loops W [] q = (None, q)"
| "worker_loops W ((subj, f) # fs) q =
     (case consumeLoop W subj [f] q of
        (None, q) \<Rightarrow> worker_loops W fs q
      | (Some r, q) \<Rightarrow> (Some r, q))"

definition worker_Run ::
  "worker \<Rightarrow> 'w broker \<Rightarrow> (string \<times> 's job_turn list fetch) list \<Rightarrow> 'w \<Rightarrow> 's queue \<Rightarrow> loop_end option \<times> 'w \<times> 's queue" where
  "worker_Run W B turns w q =
     (case worker_EnsureStream B w of
        (Some err, w) \<Rightarrow> (Some ReturnsError, w, q)
      | (None, w) \<Rightarrow>
          (case brSubscribe B ''ingestion.jikan.sync'' ''ingestion_jikan'' w of
             (Some err, w) \<Rightarrow> (Some ReturnsError, w, q)
           | (None, w) \<Rightarrow>
               (case brSubscribe B ''ingestion.hianime.sync'' ''ingestion_hianime'' w of
                  (Some err, w) \<Rightarrow> (Some ReturnsError, w, q)
                | (None, w) \<Rightarrow>
                    (case worker_loops W (filter (\<lambda>t. fst t \<in> {''ingestion.jikan.sync'', ''ingestion.hianime.sync''}) turns) q of (r, q) \<Rightarrow> (r, w, q)))))"

text \<open>The outbox publisher: a turn is a tick with the environment of its flush, or the end. A flush that fails is only logged.\<close>

fun outbox_ticks :: "nat \<Rightarrow> flush_env option list \<Rightarrow> catalog_db \<times> message list \<Rightarrow> loop_end option \<times> catalog_db \<times> message list" where
  "outbox_ticks n [] s = (None, s)"
| "outbox_ticks n (None # ts) s = (Some Returns, s)"
| "outbox_ticks n (Some E # ts) s = outbox_ticks n ts (snd (flushOnce E n s))"

definition publisher_Run ::
  "'w broker \<Rightarrow> flush_env option list \<Rightarrow> 'w \<Rightarrow> catalog_db \<times> message list \<Rightarrow> loop_end option \<times> 'w \<times> catalog_db \<times> message list" where
  "publisher_Run B ts w s =
     (case outbox_EnsureStream B w of
        (Some err, w) \<Rightarrow> (Some ReturnsError, w, s)
      | (None, w) \<Rightarrow> (case outbox_ticks 100 ts s of (r, s) \<Rightarrow> (r, w, s)))"

text \<open>The indexer: fetches and, when an interval is set, ticks of the re-indexing beside them.\<close>

datatype index_turn = IndexFetch "(index_env \<times> message) list fetch" | ReindexTick ctx "nat \<Rightarrow> index_env"

fun index_run :: "int \<Rightarrow> index_turn list \<Rightarrow> catalog_db \<Rightarrow> index \<Rightarrow> loop_end option \<times> index" where
  "index_run every [] db idx = (None, idx)"
| "index_run every (IndexFetch f # ts) db idx =
     (case pull_loop True (\<lambda>ms idx. (True, fold (\<lambda>(E, m) idx. snd (index_handleMsg E (Some (snd m)) db idx)) ms idx)) [f] idx of
        (None, idx) \<Rightarrow> index_run every ts db idx
      | (Some r, idx) \<Rightarrow> (Some r, idx))"
| "index_run every (ReindexTick x Es # ts) db idx =
     index_run every ts db (if every > 0 then snd (ReindexAll x Es db idx) else idx)"

text \<open>
  The import of the ingestion's start, when the catalog is empty, and its two tickers, with the clients and the stream of the moment.
\<close>

record page_env =
  pgHttp :: http_env
  pgDecode :: "string \<Rightarrow> (anime_data list \<times> bool) option"
  pgBase :: string
  pgOrd :: "i32 list \<Rightarrow> i32 list"
  pgPub :: "i32 \<Rightarrow> bool"

definition import_pages :: "page_env \<Rightarrow> string \<Rightarrow> int \<Rightarrow> (string \<times> int) list \<Rightarrow> (string \<times> int) list" where
  "import_pages V kind pages jobs = snd (publishJikanPages (pgHttp V) (pgDecode V) (pgBase V) (pgOrd V) (pgPub V) kind pages jobs)"

definition bulk_import :: "ctx \<Rightarrow> page_env \<Rightarrow> catalog_db \<Rightarrow> (string \<times> int) list \<Rightarrow> (string \<times> int) list" where
  "bulk_import x V db jobs =
     (case svc_GetAnimeIDs x db of
        Inl e \<Rightarrow> jobs
      | Inr ids \<Rightarrow> if length ids > 0 then jobs else import_pages V ''top'' 20 jobs)"

datatype cron = SeasonTick page_env | TopTick page_env

fun cron_run :: "cron list \<Rightarrow> (string \<times> int) list \<Rightarrow> (string \<times> int) list" where
  "cron_run [] jobs = jobs"
| "cron_run (SeasonTick V # cs) jobs = cron_run cs (import_pages V ''season'' 2 jobs)"
| "cron_run (TopTick V # cs) jobs = cron_run cs (import_pages V ''top'' 4 jobs)"

section \<open>Streams cover their subjects\<close>

text \<open>
  What JetStream documents of its streams: an addition or update that succeeds leaves the stream with that configuration, one that fails changes
  nothing; adding a stream under a name in use succeeds for the same configuration and reports the name for another.
\<close>

definition broker_law :: "'w broker \<Rightarrow> bool" where
  "broker_law B \<longleftrightarrow>
     (\<forall>c w w'. brAdd B c w = (None, w') \<or> brUpdate B c w = (None, w') \<longrightarrow> brInfo B (stName c) w' = Inr c) \<and>
     (\<forall>c w w' e. brAdd B c w = (Some e, w') \<or> brUpdate B c w = (Some e, w') \<longrightarrow> w' = w) \<and>
     (\<forall>c w c'. brInfo B (stName c) w = Inr c' \<longrightarrow> fst (brAdd B c w) = (if c' = c then None else Some ErrStreamNameAlreadyInUse)) \<and>
     (\<forall>n w c. brInfo B n w = Inr c \<longrightarrow> stName c = n)"

lemma ensure_stream_covers:
  assumes "broker_law B" "ensure_stream name subj B w = (None, w')"
  shows "\<exists>c. brInfo B name w' = Inr c \<and> subj \<in> set (stSubjects c)"
proof (cases "brInfo B name w")
  case (Inl err)
  then have "brAdd B \<lparr>stName = name, stSubjects = [subj], stSources = [], stMaxAge = week\<rparr> w = (None, w')"
    using assms(2) by (auto simp: ensure_stream_def split: if_splits)
  then have "brInfo B (stName \<lparr>stName = name, stSubjects = [subj], stSources = [], stMaxAge = week\<rparr>) w' = Inr \<lparr>stName = name, stSubjects = [subj], stSources = [], stMaxAge = week\<rparr>"
    using assms(1) unfolding broker_law_def by blast
  then show ?thesis by simp
next
  case (Inr cfg)
  then have name: "stName cfg = name" using assms(1) unfolding broker_law_def by blast
  show ?thesis
  proof (cases "subj \<in> set (stSubjects cfg)")
    case True
    then show ?thesis using Inr assms(2) by (auto simp: ensure_stream_def)
  next
    case False
    then have "brUpdate B (cfg\<lparr>stSubjects := [subj]\<rparr>) w = (None, w')" using Inr assms(2) by (simp add: ensure_stream_def)
    then have "brInfo B (stName (cfg\<lparr>stSubjects := [subj]\<rparr>)) w' = Inr (cfg\<lparr>stSubjects := [subj]\<rparr>)" using assms(1) unfolding broker_law_def by blast
    then show ?thesis using name by simp
  qed
qed

text \<open>
  The analytics consumer's update is on the wrong branch: when the stream is there with another configuration, it is left as it is.
\<close>

lemma analytics_stream_not_updated:
  assumes "broker_law B" "brInfo B ''ANALYTICS'' w = Inr c" "c \<noteq> analytics_stream"
  shows "ensureStream B w = w"
proof -
  have n: "stName analytics_stream = ''ANALYTICS''" by (simp add: analytics_stream_def)
  have "fst (brAdd B analytics_stream w) = Some ErrStreamNameAlreadyInUse"
    using assms unfolding broker_law_def by (metis (no_types, lifting) n)
  moreover from this have "snd (brAdd B analytics_stream w) = w" using assms(1) unfolding broker_law_def by (metis prod.collapse)
  ultimately show ?thesis by (cases "brAdd B analytics_stream w") (simp add: ensureStream_def)
qed

section \<open>Every event once, over a whole run\<close>

text \<open>The specification: a list of messages, each with its context, applied one after the other, none skipped.\<close>

fun effects :: "consumer_env \<Rightarrow> (ctx \<times> msg) list \<Rightarrow> consumer_db \<Rightarrow> consumer_db option" where
  "effects P [] w = Some w"
| "effects P ((x, m) # L) w = (case tx_msg P x m w of Done w' \<Rightarrow> effects P L w' | _ \<Rightarrow> None)"

definition ids_of :: "consumer_env \<Rightarrow> (ctx \<times> msg) list \<Rightarrow> string list" where
  "ids_of P L = map (\<lambda>p. the (event_id P (snd p))) L"

lemma effects_append: "effects P L w = Some w1 \<Longrightarrow> effects P (L @ K) w = effects P K w1"
  by (induction P L w rule: effects.induct) (auto split: stmt.splits)

lemma apply_all_effects:
  assumes "dProcessed w = Some ids" "apply_all P mm xs w = Some w'"
  shows "\<exists>L. effects P L w = Some w' \<and> dProcessed w' = Some (ids @ ids_of P L) \<and> distinct (ids_of P L) \<and> set (ids_of P L) \<inter> set ids = {} \<and>
    snd ` set L \<subseteq> snd ` set mm"
  using assms
proof (induction mm arbitrary: w ids)
  case Nil
  then show ?case by (intro exI [of _ "[]"]) (simp add: ids_of_def)
next
  case (Cons a mm)
  obtain i m where a: "a = (i, m)" by fastforce
  from tx_msg_cases [OF Cons.prems(1), of P "xs i" m] show ?case
  proof (elim disjE exE conjE)
    assume "tx_msg P (xs i) m w = Failed"
    with Cons.prems(2) a show ?thesis by simp
  next
    fix e assume "tx_msg P (xs i) m w = Skip"
    then have "apply_all P mm xs w = Some w'" using Cons.prems(2) a by simp
    from Cons.IH [OF Cons.prems(1) this] obtain L where L: "effects P L w = Some w'" "dProcessed w' = Some (ids @ ids_of P L)" "distinct (ids_of P L)"
      "set (ids_of P L) \<inter> set ids = {}" "snd ` set L \<subseteq> snd ` set mm" by blast
    from L(5) have "snd ` set L \<subseteq> snd ` set (a # mm)" by auto
    with L(1-4) show ?thesis by (intro exI [of _ L] conjI)
  next
    fix e w1 assume d: "tx_msg P (xs i) m w = Done w1" and e: "event_id P m = Some e" "e \<notin> set ids" "dProcessed w1 = Some (ids @ [e])"
    then have "apply_all P mm xs w1 = Some w'" using Cons.prems(2) a by simp
    from Cons.IH [OF e(3) this] obtain L where L: "effects P L w1 = Some w'" "dProcessed w' = Some ((ids @ [e]) @ ids_of P L)" "distinct (ids_of P L)"
      "set (ids_of P L) \<inter> set (ids @ [e]) = {}" "snd ` set L \<subseteq> snd ` set mm" by blast
    have i: "ids_of P ((xs i, m) # L) = e # ids_of P L" using e(1) by (simp add: ids_of_def)
    have "effects P ((xs i, m) # L) w = Some w'" "snd ` set ((xs i, m) # L) \<subseteq> snd ` set (a # mm)" using L(1,5) d a by auto
    moreover have "dProcessed w' = Some (ids @ ids_of P ((xs i, m) # L))" "distinct (ids_of P ((xs i, m) # L))" "set (ids_of P ((xs i, m) # L)) \<inter> set ids = {}"
      using L(2-4) e(2) unfolding i by auto
    ultimately show ?thesis by (intro exI conjI)
  qed
qed

definition once :: "consumer_env \<Rightarrow> string list \<Rightarrow> consumer_db \<Rightarrow> consumer_db \<Rightarrow> msg list \<Rightarrow> bool" where
  "once P ids db db' new \<longleftrightarrow>
     (\<exists>L. effects P L db = Some db' \<and> dProcessed db' = Some (ids @ ids_of P L) \<and> distinct (ids_of P L) \<and> set (ids_of P L) \<inter> set ids = {} \<and>
        snd ` set L \<subseteq> set new \<and> (\<forall>m \<in> set new. \<exists>e \<in> set (ids @ ids_of P L). event_id P m = Some e))"

lemma once_refl: "dProcessed db = Some ids \<Longrightarrow> once P ids db db []"
  unfolding once_def by (rule exI [of _ "[]"]) (simp add: ids_of_def)

lemma once_trans:
  assumes "once P ids db db1 new" "\<And>ids1. dProcessed db1 = Some ids1 \<Longrightarrow> once P ids1 db1 db2 new'"
  shows "once P ids db db2 (new @ new')"
proof -
  from assms(1) obtain L where L: "effects P L db = Some db1" "dProcessed db1 = Some (ids @ ids_of P L)" "distinct (ids_of P L)" "set (ids_of P L) \<inter> set ids = {}"
      "snd ` set L \<subseteq> set new" "\<forall>m \<in> set new. \<exists>e \<in> set (ids @ ids_of P L). event_id P m = Some e"
    unfolding once_def by blast
  from assms(2) [OF L(2)] obtain K where K: "effects P K db1 = Some db2" "dProcessed db2 = Some ((ids @ ids_of P L) @ ids_of P K)" "distinct (ids_of P K)"
      "set (ids_of P K) \<inter> set (ids @ ids_of P L) = {}" "snd ` set K \<subseteq> set new'" "\<forall>m \<in> set new'. \<exists>e \<in> set ((ids @ ids_of P L) @ ids_of P K). event_id P m = Some e"
    unfolding once_def by blast
  have i: "ids_of P (L @ K) = ids_of P L @ ids_of P K" by (simp add: ids_of_def)
  have "effects P (L @ K) db = Some db2" using effects_append [OF L(1)] K(1) by simp
  moreover have "distinct (ids_of P (L @ K))" "set (ids_of P (L @ K)) \<inter> set ids = {}" using L(3,4) K(3,4) unfolding i by auto
  moreover have "snd ` set (L @ K) \<subseteq> set (new @ new')" using L(5) K(5) by (auto simp: image_Un)
  moreover have "\<forall>m \<in> set (new @ new'). \<exists>e \<in> set (ids @ ids_of P (L @ K)). event_id P m = Some e"
  proof
    fix m
    assume "m \<in> set (new @ new')"
    then show "\<exists>e \<in> set (ids @ ids_of P (L @ K)). event_id P m = Some e" using L(6) K(6) by (auto simp: i)
  qed
  ultimately show ?thesis using K(2) unfolding once_def by (intro exI [of _ "L @ K"]) (simp add: i)
qed

lemma turn_once:
  assumes "dProcessed db = Some ids"
  shows "\<exists>db' new. comment_turn P (y, xs, msgs) (db, acked) = (True, db', acked @ new) \<and> once P ids db db' new"
proof (cases "\<exists>w. apply_all P (enumerate 0 msgs) xs db = Some w \<and> consume_batch P y xs msgs db = (AckAll, w) \<and> msgs \<noteq> []")
  case True
  then obtain w where w: "apply_all P (enumerate 0 msgs) xs db = Some w" "consume_batch P y xs msgs db = (AckAll, w)" "msgs \<noteq> []" by blast
  from apply_all_effects [OF assms w(1)] obtain L where L: "effects P L db = Some w" "dProcessed w = Some (ids @ ids_of P L)" "distinct (ids_of P L)"
    "set (ids_of P L) \<inter> set ids = {}" "snd ` set L \<subseteq> snd ` set (enumerate 0 msgs)" by blast
  have snds: "snd ` set (enumerate 0 msgs) = set msgs" by (metis map_snd_enumerate set_map)
  from apply_all_processed [OF assms w(1)] L(2) have "\<forall>(i, m) \<in> set (enumerate 0 msgs). \<exists>e \<in> set (ids @ ids_of P L). event_id P m = Some e" by auto
  then have "\<forall>m \<in> snd ` set (enumerate 0 msgs). \<exists>e \<in> set (ids @ ids_of P L). event_id P m = Some e" by fastforce
  with L have "once P ids db w msgs" unfolding once_def snds by blast
  then show ?thesis using w(2,3) by (intro exI [of _ w] exI [of _ msgs]) (simp add: comment_turn_def)
next
  case False
  then have "msgs = [] \<or> consume_batch P y xs msgs db = (NakAll, db)"
    using consume_batch_apply [OF assms, of P y xs msgs] by (auto split: option.splits if_splits)
  then show ?thesis using once_refl [OF assms, of P] by (intro exI [of _ db] exI [of _ "[]"]) (auto simp: comment_turn_def)
qed

section \<open>Handlers the process survives\<close>

text \<open>The batches a loop gets to see.\<close>

fun fetched :: "bool \<Rightarrow> 'm fetch list \<Rightarrow> 'm list" where
  "fetched fatal [] = []"
| "fetched fatal (Cancelled # fs) = []"
| "fetched fatal (FetchTimeout # fs) = fetched fatal fs"
| "fetched fatal (FetchFailed # fs) = (if fatal then [] else fetched fatal fs)"
| "fetched fatal (Fetched m # fs) = m # fetched fatal fs"

locale surviving =
  fixes h :: "'m \<Rightarrow> 's \<Rightarrow> bool \<times> 's" and inv :: "'s \<Rightarrow> bool"
  assumes survives: "inv s \<Longrightarrow> \<exists>s'. h m s = (True, s') \<and> inv s'"
begin

lemma runs:
  "inv s \<Longrightarrow> \<exists>r s'. pull_loop fatal h tr s = (r, s') \<and> inv s' \<and> r \<noteq> Some Crashes \<and> s' = fold (\<lambda>m s. snd (h m s)) (fetched fatal tr) s \<and>
     (r = None \<longleftrightarrow> Cancelled \<notin> set tr \<and> (fatal \<longrightarrow> FetchFailed \<notin> set tr))"
proof (induction fatal tr arbitrary: s rule: fetched.induct)
  case (5 fatal m fs)
  obtain s' where "h m s = (True, s')" "inv s'" using survives [OF 5(2), of m] by blast
  with 5(1) [of s'] show ?case by simp
qed auto

lemma alive: "inv s \<Longrightarrow> fst (pull_loop fatal h tr s) = None \<longleftrightarrow> Cancelled \<notin> set tr \<and> (fatal \<longrightarrow> FetchFailed \<notin> set tr)"
  using runs [of s fatal tr] by auto

lemma final: "inv s \<Longrightarrow> snd (pull_loop fatal h tr s) = fold (\<lambda>m s. snd (h m s)) (fetched fatal tr) s"
  using runs [of s fatal tr] by auto

end

lemma once_processed: "once P ids db db' new \<Longrightarrow> dProcessed db' \<noteq> None"
  by (auto simp: once_def)

interpretation comment_worker: surviving "comment_turn P" "\<lambda>s. dProcessed (fst s) \<noteq> None" for P
proof
  fix s :: "consumer_db \<times> msg list" and m :: comment_batch
  assume "dProcessed (fst s) \<noteq> None"
  moreover obtain y xs msgs where "m = (y, xs, msgs)" by (cases m)
  ultimately show "\<exists>s'. comment_turn P m s = (True, s') \<and> dProcessed (fst s') \<noteq> None"
    using turn_once [of "fst s" _ P y xs msgs "snd s"] once_processed [of P _ "fst s"] by (metis fst_conv not_None_eq prod.collapse)
qed

lemma consume_progress_kept:
  assumes "aProcessed db = Some ids" "consume_progress P y xs msgs db = (v, db')"
  shows "v \<noteq> NilPanic \<and> aProcessed db' \<noteq> None"
  using loop_normal [OF assms(1) refl, of P xs "enumerate 0 msgs" db "[]"] assms
  by (auto simp: consume_progress_def Let_def split: if_splits progress_tx.splits)

interpretation progress_worker: surviving "progress_turn P" "\<lambda>s. aProcessed (fst s) \<noteq> None" for P
proof
  fix s :: "activity_db \<times> string list" and m :: progress_fetch
  assume "aProcessed (fst s) \<noteq> None"
  then obtain ids where ids: "aProcessed (fst s) = Some ids" by blast
  obtain y xs msgs where m: "m = (y, xs, msgs)" by (cases m)
  obtain v db' where c: "consume_progress P y xs msgs (fst s) = (v, db')" by (cases "consume_progress P y xs msgs (fst s)")
  from consume_progress_kept [OF ids c] show "\<exists>s'. progress_turn P m s = (True, s') \<and> aProcessed (fst s') \<noteq> None"
    using c ids by (cases s; cases v) (auto simp: progress_turn_def m)
qed

interpretation analytics_worker: surviving "\<lambda>ms q. (True, fst (process_batch E ok ms q))" "\<lambda>_. True" for E ok
  by unfold_locales simp

interpretation job_worker: surviving "\<lambda>ms q. (True, fold (\<lambda>(E, H, m) q. snd (handleMsg W E H m subj q)) ms q)" "\<lambda>_. True" for W subj
  by unfold_locales simp

section \<open>Properties\<close>



text \<open>
  Which workers outlive a broker in trouble: the progress consumer, as long as its table of processed events is there, and the analytics consumer
  run until their context ends, whatever their fetches return, and the latter has then dispatched every message fetched, in order;
  the ingestion worker's loop ends for good with the first fetch error that is not a timeout.
\<close>

theorem worker_lifetimes:
  "(aProcessed db \<noteq> None \<longrightarrow> (fst (progress_run P tr (db, acked)) = None \<longleftrightarrow> Cancelled \<notin> set tr)) \<and>
   (fst (analytics_Run E ok tr' q) = None \<longleftrightarrow> Cancelled \<notin> set tr') \<and>
   snd (analytics_Run E ok tr' q) = fold (Dispatch E) (concat (fetched False tr')) q \<and>
   (fst (consumeLoop W subj tr'' st) = None \<longleftrightarrow> Cancelled \<notin> set tr'' \<and> FetchFailed \<notin> set tr'')"
proof (intro conjI impI)
  show "fst (progress_run P tr (db, acked)) = None \<longleftrightarrow> Cancelled \<notin> set tr" if "aProcessed db \<noteq> None"
    using progress_worker.alive [of "(db, acked)" False P tr] that by (simp add: progress_run_def)
  show "fst (analytics_Run E ok tr' q) = None \<longleftrightarrow> Cancelled \<notin> set tr'"
    unfolding analytics_Run_def using analytics_worker.alive [OF TrueI, of False E ok tr' q] by simp
  have "fold (\<lambda>m s. snd (True, fst (process_batch E ok m s))) bs q = fold (Dispatch E) (concat bs) q" for bs q
    by (induction bs arbitrary: q) (simp_all add: process_batch_def)
  then show "snd (analytics_Run E ok tr' q) = fold (Dispatch E) (concat (fetched False tr')) q"
    unfolding analytics_Run_def analytics_worker.final [OF TrueI] .
  show "fst (consumeLoop W subj tr'' st) = None \<longleftrightarrow> Cancelled \<notin> set tr'' \<and> FetchFailed \<notin> set tr''"
    unfolding consumeLoop_def using job_worker.alive [OF TrueI, of True W subj tr'' st] by simp
qed

theorem worker_lifetimes_witness:
  "fst (progress_run demo_penv [FetchFailed, FetchTimeout] (\<lparr>aRows = [], aProcessed = Some []\<rparr>, [])) = None"
  using worker_lifetimes [THEN conjunct1, of "\<lparr>aRows = [], aProcessed = Some []\<rparr>" demo_penv "[FetchFailed, FetchTimeout]" "[]"] by simp

end
