(* ===== verification/Comment_Pipeline.thy ===== *)
theory Comment_Pipeline
  imports Workers
begin

text \<open>
  The asynchronous comment writes from end to end: requests at the gateway, the stream, and the consumer of the social service with its
  redeliveries, as one step relation over their common state. Requests go on while batches are delivered, in any order; statements fail and acknowledgements get
  lost as the environment has it.
\<close>

section \<open>The system\<close>

text \<open>
  \<open>plStream\<close> holds every message the broker stored, \<open>plAcked\<close> the positions whose acknowledgement arrived; \<open>plAccepted\<close> are the identifiers that requests
  answered 202 were given in the header X-Event-ID.
\<close>

record pipeline =
  plDb :: consumer_db
  plRatings :: "rating_row list"
  plStream :: "msg list"
  plAcked :: "nat set"
  plAccepted :: "string list"

definition world :: "pipeline \<Rightarrow> (pg_comments, rating_row list) social_world" where
  "world s = \<lparr>swComments = dTables (plDb s), swRatings = plRatings s, swStream = plStream s\<rparr>"

definition after_write :: "nat \<Rightarrow> string \<Rightarrow> (pg_comments, rating_row list) social_world \<Rightarrow> pipeline \<Rightarrow> pipeline" where
  "after_write st e w s =
     s\<lparr>plDb := (plDb s)\<lparr>dTables := swComments w\<rparr>, plStream := swStream w, plAccepted := plAccepted s @ (if st = 202 then [e] else [])\<rparr>"

definition after_batch :: "nat list \<Rightarrow> nat set \<Rightarrow> verdict \<Rightarrow> consumer_db \<Rightarrow> pipeline \<Rightarrow> pipeline" where
  "after_batch is lost v db s = s\<lparr>plDb := db, plAcked := plAcked s \<union> (if v = AckAll then set is - lost else {})\<rparr>"

text \<open>The broker acknowledges only what it stored.\<close>

inductive pipeline_step :: "consumer_env \<Rightarrow> pipeline \<Rightarrow> pipeline \<Rightarrow> bool" for P where
  request: "gateway (social_pg (uuidOf P)) p E x c rid g (world s) = (st, w) \<Longrightarrow> json_law E P \<Longrightarrow> puAcked E \<longrightarrow> puStored E \<Longrightarrow>
    pipeline_step P s (after_write st (puEventID E) w s)"
| deliver: "set is \<subseteq> {..< length (plStream s)} - plAcked s \<Longrightarrow> consume_batch P y xs (map (\<lambda>i. plStream s ! i) is) (plDb s) = (v, db) \<Longrightarrow>
    pipeline_step P s (after_batch is lost v db s)"

definition fresh_pipeline :: "consumer_db \<Rightarrow> rating_row list \<Rightarrow> pipeline" where
  "fresh_pipeline db r = \<lparr>plDb = db, plRatings = r, plStream = [], plAcked = {}, plAccepted = []\<rparr>"

section \<open>What a request leaves in the stream\<close>

lemma publish_cases:
  assumes "tryPublishAsync rid subject payload p E st = Some (r, st')" "puAcked E \<longrightarrow> puStored E"
  shows "st' = st \<and> rStatus (snd r) \<noteq> 202 \<or> (\<exists>b. puEncode E (event_payload E payload) = Some b \<and> st' = st @ [\<lparr>mSubject = subject, mData = b\<rparr>])"
  using assms by (auto simp: tryPublishAsync_def PublishJSON_def WriteError_def split: if_splits option.splits)

lemma grpc_error_status: "rStatus (writeGRPCError rid (Some e)) \<noteq> 202"
  by (simp add: writeGRPCError_def api_defs Let_def split: grpc_code.splits)

abbreviation appended :: "publish_env \<Rightarrow> string \<Rightarrow> payload \<Rightarrow> ('s, 'r) social_world \<Rightarrow> nat \<Rightarrow> ('s, 'r) social_world \<Rightarrow> bool" where
  "appended E subject payload w st w' \<equiv> swStream w' = swStream w \<and> st \<noteq> 202 \<or>
     (\<exists>b. puEncode E (event_payload E payload) = Some b \<and> swStream w' = swStream w @ [\<lparr>mSubject = subject, mData = b\<rparr>] \<and> swComments w' = swComments w)"

lemma create_appends:
  assumes "bff_CreateComment sv p E x c rid a (Some (b, q)) w = (r, w')" "puAcked E \<longrightarrow> puStored E"
  shows "appended E ''social.comments.create'' (write_payload (user_of c) (GCreate a b q)) w (rStatus (snd r)) w'"
proof (cases "withUserMD c = None \<or> trim_space a = []")
  case True
  then show ?thesis using assms(1) by (auto simp: bff_CreateComment_def plain_reply_def api_defs Let_def split: option.splits)
next
  case False
  then obtain md where md: "withUserMD c = Some md" "trim_space a \<noteq> []" by auto
  show ?thesis
  proof (cases "tryPublishAsync rid ''social.comments.create'' (write_payload (user_of c) (GCreate a b q)) p E (swStream w) :: (pb_comment reply \<times> msg list) option")
    case None
    then show ?thesis using assms(1) md
      by (auto simp: grpc_error_status bff_CreateComment_def plain_reply_def WriteJSON_def Let_def split: sum.splits prod.splits)
  next
    case (Some t)
    then obtain r' st' where t: "tryPublishAsync rid ''social.comments.create'' (write_payload (user_of c) (GCreate a b q)) p E (swStream w) = Some (r' :: pb_comment reply, st')"
      by (cases t) simp
    then have "r = r'" "w' = w\<lparr>swStream := st'\<rparr>" using assms(1) md by (simp_all add: bff_CreateComment_def Let_def)
    then show ?thesis using publish_cases [OF t assms(2)] by simp
  qed
qed

lemma write_appends:
  assumes "comment_write pay subject call p E c rid param (Some q) w = (r, w')" "puAcked E \<longrightarrow> puStored E"
  shows "appended E subject (pay (trim_space param) q) w (rStatus (snd r)) w'"
proof (cases "withUserMD c = None \<or> trim_space param = []")
  case True
  then show ?thesis using assms(1) by (auto simp: comment_write_def plain_reply_def api_defs Let_def split: option.splits)
next
  case False
  then obtain md where md: "withUserMD c = Some md" "trim_space param \<noteq> []" by auto
  show ?thesis
  proof (cases "tryPublishAsync rid subject (pay (trim_space param) q) p E (swStream w) :: (unit reply \<times> msg list) option")
    case None
    then show ?thesis using assms(1) md
      by (auto simp: grpc_error_status comment_write_def plain_reply_def WriteHeader_def Let_def split: sum.splits prod.splits)
  next
    case (Some t)
    then obtain r' st' where t: "tryPublishAsync rid subject (pay (trim_space param) q) p E (swStream w) = Some (r' :: unit reply, st')" by (cases t) simp
    then have "r = r'" "w' = w\<lparr>swStream := st'\<rparr>" using assms(1) md by (simp_all add: comment_write_def Let_def)
    then show ?thesis using publish_cases [OF t assms(2)] by simp
  qed
qed

lemma gateway_appends:
  assumes "gateway sv p E x c rid g w = (st, w')" "puAcked E \<longrightarrow> puStored E"
  shows "appended E (write_subject g) (write_payload (user_of c) g) w st w'"
proof (cases g)
  case (GCreate a b q)
  then show ?thesis using assms create_appends [of sv p E x c rid a b q w]
    by (cases "bff_CreateComment sv p E x c rid a (Some (b, q)) w") auto
next
  case (GVote i v)
  then show ?thesis using assms by (cases "bff_VoteComment sv p E x c rid i (Some v) w") (auto simp: bff_VoteComment_def dest!: write_appends)
next
  case (GUpdate i b)
  then show ?thesis using assms by (cases "bff_UpdateComment sv p E x c rid i (Some b) w") (auto simp: bff_UpdateComment_def dest!: write_appends)
next
  case (GDelete i)
  then show ?thesis using assms by (cases "bff_DeleteComment sv p E x c rid i w") (auto simp: bff_DeleteComment_def dest!: write_appends)
qed

lemma written_event:
  assumes "json_law E P" "puEncode E (event_payload E (write_payload u g)) = Some b"
  shows "event_id P \<lparr>mSubject = write_subject g, mData = b\<rparr> = Some (puEventID E)"
proof -
  have b: "b = mData (write_message E u g)" using assms(2) by (simp add: write_message_def)
  note d = message_decodes [OF assms(1) b]
  show ?thesis using d by (cases g) (simp_all add: event_id_def write_action)
qed

section \<open>The invariant\<close>

text \<open>
  The specification of the tables: from \<open>db\<close> on, synchronous writes and the events \<open>L\<close>, each applied in one transaction, one after the other and none skipped.
\<close>

inductive explained :: "consumer_env \<Rightarrow> consumer_db \<Rightarrow> (ctx \<times> msg) list \<Rightarrow> consumer_db \<Rightarrow> bool" for P db where
  start: "explained P db [] db"
| direct: "explained P db L db' \<Longrightarrow> gateway (social_pg (uuidOf P)) p E x c rid g w = (st, w') \<Longrightarrow> swComments w = dTables db' \<Longrightarrow> swStream w' = swStream w \<Longrightarrow>
    explained P db L (db'\<lparr>dTables := swComments w'\<rparr>)"
| event: "explained P db L db' \<Longrightarrow> tx_msg P x m db' = Done db'' \<Longrightarrow> explained P db (L @ [(x, m)]) db''"

lemma explained_effects: "effects P K db' = Some db'' \<Longrightarrow> explained P db L db' \<Longrightarrow> explained P db (L @ K) db''"
proof (induction P K db' arbitrary: L rule: effects.induct)
  case (1 P w)
  then show ?case by simp
next
  case (2 P x m K w)
  then obtain w1 where w1: "tx_msg P x m w = Done w1" "effects P K w1 = Some db''" by (auto split: stmt.splits)
  from 2(1) [OF w1 explained.event [OF 2(3) w1(1)]] show ?case by simp
qed

text \<open>
  The tables are explained by the events of the table of processed events, where none appears twice; every identifier given out belongs to a message of the
  stream, and every message whose acknowledgement arrived has its event processed.
\<close>

definition kept :: "consumer_env \<Rightarrow> consumer_db \<Rightarrow> string list \<Rightarrow> (ctx \<times> msg) list \<Rightarrow> pipeline \<Rightarrow> bool" where
  "kept P db ids L s \<longleftrightarrow>
     explained P db L (plDb s) \<and> dProcessed (plDb s) = Some (ids @ ids_of P L) \<and> distinct (ids @ ids_of P L) \<and>
     (\<forall>i \<in> plAcked s. i < length (plStream s) \<and> (\<exists>e \<in> set (ids @ ids_of P L). event_id P (plStream s ! i) = Some e)) \<and>
     (\<forall>e \<in> set (plAccepted s). \<exists>i < length (plStream s). event_id P (plStream s ! i) = Some e)"

lemma write_keeps:
  assumes "kept P db ids L s" "gateway (social_pg (uuidOf P)) p E x c rid g (world s) = (st, w)" "json_law E P" "puAcked E \<longrightarrow> puStored E"
  shows "kept P db ids L (after_write st (puEventID E) w s)"
proof -
  have a: "appended E (write_subject g) (write_payload (user_of c) g) (world s) st w" using assms(2,4) by (rule gateway_appends)
  have ws: "swStream (world s) = plStream s" "swComments (world s) = dTables (plDb s)" by (simp_all add: world_def)
  then consider "swStream w = plStream s" "st \<noteq> 202"
    | m where "swStream w = plStream s @ [m]" "event_id P m = Some (puEventID E)" "swComments w = dTables (plDb s)"
    using a written_event [OF assms(3), of "user_of c" g] by auto
  then show ?thesis
  proof cases
    case 1
    have "explained P db L ((plDb s)\<lparr>dTables := swComments w\<rparr>)"
      using assms(1) 1(1) ws by (auto simp: kept_def intro: explained.direct [OF _ assms(2)])
    with 1 show ?thesis using assms(1) by (simp add: kept_def after_write_def)
  next
    case 2
    have app: "(plStream s @ [m]) ! i = plStream s ! i" if "i < length (plStream s)" for i using that by (simp add: nth_append)
    have "\<exists>i < length (plStream s @ [m]). event_id P ((plStream s @ [m]) ! i) = Some e"
      if mem: "e \<in> set (plAccepted s) \<or> e = puEventID E" for e
    proof (cases "e = puEventID E")
      case True
      then show ?thesis using 2(2) by (intro exI [of _ "length (plStream s)"]) simp
    next
      case False
      then obtain i where "i < length (plStream s)" "event_id P (plStream s ! i) = Some e" using mem assms(1) by (auto simp: kept_def)
      then show ?thesis by (intro exI [of _ i]) (simp add: app)
    qed
    with assms(1) 2(1,3) app show ?thesis by (auto simp: kept_def after_write_def)
  qed
qed

lemma batch_keeps:
  assumes "kept P db ids L s" "set is \<subseteq> {..< length (plStream s)} - plAcked s" "consume_batch P y xs (map (\<lambda>i. plStream s ! i) is) (plDb s) = (v, db')"
  shows "\<exists>K. kept P db ids (L @ K) (after_batch is lost v db' s)"
proof -
  let ?msgs = "map (\<lambda>i. plStream s ! i) is"
  have p: "dProcessed (plDb s) = Some (ids @ ids_of P L)" using assms(1) by (simp add: kept_def)
  show ?thesis
  proof (cases "is = [] \<or> v \<noteq> AckAll")
    case True
    have "is = [] \<Longrightarrow> db' = plDb s" "v \<noteq> AckAll \<Longrightarrow> db' = plDb s"
      using consume_batch_apply [OF p, of P y xs ?msgs] assms(3) by (auto split: option.splits if_splits)
    with True assms(1) have "kept P db ids (L @ []) (after_batch is lost v db' s)" by (auto simp: kept_def after_batch_def)
    then show ?thesis ..
  next
    case False
    have "comment_turn P (y, xs, ?msgs) (plDb s, []) = (True, db', ?msgs)" using assms(3) False by (simp add: comment_turn_def)
    with turn_once [OF p, of P y xs ?msgs "[]"] have "once P (ids @ ids_of P L) (plDb s) db' ?msgs" by auto
    then obtain K where K: "effects P K (plDb s) = Some db'" "dProcessed db' = Some ((ids @ ids_of P L) @ ids_of P K)" "distinct (ids_of P K)"
      "set (ids_of P K) \<inter> set (ids @ ids_of P L) = {}"
      "\<forall>m \<in> set ?msgs. \<exists>e \<in> set ((ids @ ids_of P L) @ ids_of P K). event_id P m = Some e" unfolding once_def by blast
    have ids: "ids @ ids_of P (L @ K) = (ids @ ids_of P L) @ ids_of P K" by (simp add: ids_of_def)
    have "explained P db (L @ K) db'" using explained_effects [OF K(1)] assms(1) by (simp add: kept_def)
    moreover have "distinct ((ids @ ids_of P L) @ ids_of P K)" using K(3,4) assms(1) by (auto simp: kept_def)
    moreover have "i < length (plStream s) \<and> (\<exists>e \<in> set ((ids @ ids_of P L) @ ids_of P K). event_id P (plStream s ! i) = Some e)"
      if mem: "i \<in> plAcked s \<union> (set is - lost)" for i
    proof (cases "i \<in> plAcked s")
      case True
      then show ?thesis using assms(1) by (auto simp: kept_def)
    next
      case False
      then show ?thesis using mem assms(2) K(5) by auto
    qed
    ultimately have "kept P db ids (L @ K) (after_batch is lost v db' s)"
      unfolding kept_def ids using K(2) assms(1) False by (simp add: after_batch_def kept_def)
    then show ?thesis ..
  qed
qed

lemma step_keeps:
  assumes "pipeline_step P s s'" "kept P db ids L s"
  shows "\<exists>L. kept P db ids L s'"
  using assms(1)
proof (cases rule: pipeline_step.cases)
  case (request p E x c rid g st w)
  then show ?thesis using write_keeps [OF assms(2) request(2-4)] by blast
next
  case (deliver "is" y xs v db' lost)
  then show ?thesis using batch_keeps [OF assms(2) deliver(2,3), of lost] by blast
qed

lemma run_keeps: "(pipeline_step P)\<^sup>*\<^sup>* s s' \<Longrightarrow> \<exists>L. kept P db ids L s \<Longrightarrow> \<exists>L. kept P db ids L s'"
  by (induction rule: rtranclp_induct) (use step_keeps in metis)+

lemma fresh_kept: "dProcessed db = Some ids \<Longrightarrow> distinct ids \<Longrightarrow> kept P db ids [] (fresh_pipeline db r)"
  by (simp add: kept_def fresh_pipeline_def ids_of_def explained.start)

text \<open>
  C5. No accepted comment write is lost or doubled: along every run of the gateway, the stream and the consumer together, with requests and deliveries in
  any order, failing statements, lost acknowledgements and redeliveries, the tables are those of the synchronous writes and of a list of events
  applied in between, each with its mark in the table of processed events, none twice and none that was processed before; and an event
  identifier that a request was answered with 202 is either among the processed ones or in a message of the stream that is not acknowledged and
  will be delivered again.
\<close>

theorem accepted_write_kept:
  assumes "(pipeline_step P)\<^sup>*\<^sup>* (fresh_pipeline db r) s" "dProcessed db = Some ids" "distinct ids"
  shows "\<exists>L. explained P db L (plDb s) \<and> dProcessed (plDb s) = Some (ids @ ids_of P L) \<and> distinct (ids @ ids_of P L) \<and>
    (\<forall>e \<in> set (plAccepted s). e \<in> set (ids @ ids_of P L) \<or> (\<exists>i < length (plStream s). i \<notin> plAcked s \<and> event_id P (plStream s ! i) = Some e))"
proof -
  obtain L where L: "kept P db ids L s" using run_keeps [OF assms(1)] fresh_kept [OF assms(2,3)] by blast
  have "e \<in> set (ids @ ids_of P L) \<or> (\<exists>i < length (plStream s). i \<notin> plAcked s \<and> event_id P (plStream s ! i) = Some e)"
    if acc: "e \<in> set (plAccepted s)" for e
  proof -
    obtain i where i: "i < length (plStream s)" "event_id P (plStream s ! i) = Some e" using L acc by (auto simp: kept_def)
    show ?thesis
    proof (cases "i \<in> plAcked s")
      case True
      then obtain e' where "e' \<in> set (ids @ ids_of P L)" "event_id P (plStream s ! i) = Some e'" using L unfolding kept_def by blast
      then show ?thesis using i(2) by simp
    next
      case False
      then show ?thesis using i by blast
    qed
  qed
  then show ?thesis using L unfolding kept_def by blast
qed

theorem accepted_write_kept_witness:
  "\<exists>s L. (pipeline_step demo_consumer)\<^sup>*\<^sup>* (fresh_pipeline demo_db []) s \<and> plAccepted s = [''ev''] \<and> explained demo_consumer demo_db L (plDb s) \<and>
     (''ev'' \<in> set (ids_of demo_consumer L) \<or> (\<exists>i < length (plStream s). i \<notin> plAcked s \<and> event_id demo_consumer (plStream s ! i) = Some ''ev''))"
proof -
  let ?p = "Some \<lparr>epJs = True, epAsyncWrites = True\<rparr>" and ?s = "fresh_pipeline demo_db []" and ?g = "GVote ''c2'' 1"
  let ?w = "(world ?s)\<lparr>swStream := swStream (world ?s) @ [write_message demo_publish ''u9'' ?g]\<rparr>"
  have g: "gateway (social_pg (uuidOf demo_consumer)) ?p demo_publish (calm 0 []) demo_user [] ?g (world ?s) = (202, ?w)"
    by (rule gateway_async [OF _ _ _ demo_law]) (simp_all add: Enabled_def demo_publish_def empty_ctx_def demo_names)
  let ?t = "after_write 202 (puEventID demo_publish) ?w ?s"
  have "pipeline_step demo_consumer ?s ?t" by (rule pipeline_step.request [OF g demo_law]) (simp add: demo_publish_def)
  then have run: "(pipeline_step demo_consumer)\<^sup>*\<^sup>* ?s ?t" by (rule r_into_rtranclp)
  have acc: "plAccepted ?t = [''ev'']" by (simp add: after_write_def fresh_pipeline_def demo_publish_def)
  have "dProcessed demo_db = Some []" by (simp add: demo_db_def)
  from accepted_write_kept [OF run this] acc obtain L where
      "explained demo_consumer demo_db L (plDb ?t)"
      "''ev'' \<in> set (ids_of demo_consumer L) \<or> (\<exists>i < length (plStream ?t). i \<notin> plAcked ?t \<and> event_id demo_consumer (plStream ?t ! i) = Some ''ev'')" by auto
  with run acc show ?thesis by blast
qed

end
