(* ===== verification/Spec2Isabelle.thy ===== *)
theory Spec2Isabelle
  imports Social_Memory Social_Postgres Social_Stores Social_Handlers Social_Consumer Activity_Consumer Auth_Rotation Billing Streaming Bff_Auth Bff_Jikan Analytics
    Gateway Playback Workers Comment_Pipeline
begin

text \<open>
  A verification of the anime platform, a set of Go services that share packages under internal/platform.

  \<^bold>\<open>The program.\<close> Browsers talk to one gateway (services/bff), which authenticates them by JWT, limits their rate, and calls the other
  services by gRPC: accounts and refresh tokens (auth), anime and episodes (catalog), search over an engine that follows the catalog (search),
  comments, votes and ratings (social), watching progress (activity), stream links (streaming-resolver, streaming). Media is fetched through a
  proxy that accepts signed links only (hls-proxy). Comment writes and progress may instead become events on a NATS stream, which consumers
  inside social and activity apply to the same tables. The catalog announces its writes through an outbox table; ingestion fills the catalog from
  two public providers through a job queue; billing receives Stripe's webhooks; analytics turns events of all streams into PostHog captures.

  \<^bold>\<open>The library.\<close>
  \<^item> \<open>Go_Prelude\<close>, \<open>Go_Base64\<close>, \<open>Go_Url\<close>: the Go language and standard library as far as the services use them: byte strings, trimming, decimal integers at their
    width, base64, query escaping, URL joining.
  \<^item> \<open>Keyset\<close>: what a request takes from its surroundings (\<open>ctx\<close>: the clock, fresh identifiers, map order, which statement fails), SQL updates on lists of
    rows, and the locale of paging by cursor with its completeness lemma, interpreted for comments and for progress.
  \<^item> \<open>Api\<close>: internal/platform/api and auth: responses, error envelopes, gRPC statuses, \<open>RequireUser\<close>, \<open>RequireAdmin\<close>.
  \<^item> \<open>Social_Comments\<close>, \<open>Social_Memory\<close>, \<open>Social_Postgres\<close>, \<open>Social_Stores\<close>, \<open>Social_Ratings\<close>: the two comment stores and the two rating stores of
    services/social/internal/store. Threads are paged completely, scores are the tally of the votes, and the Postgres store simulates the one in memory.
  \<^item> \<open>Social_Service\<close>, \<open>Social_Handlers\<close>: the gRPC service and the HTTP handlers over any store; their writes agree.
  \<^item> \<open>Social_Consumer\<close>: the event consumer, statement by statement: transactions, the fall-back without the table of processed events, acknowledgements.
    A batch is atomic.
  \<^item> \<open>Activity\<close>, \<open>Activity_Consumer\<close>: progress with its guarded upsert, which makes the outcome independent of the order of arrival, and its consumer.
  \<^item> \<open>Auth_Store\<close>, \<open>Auth_Service\<close>, \<open>Auth_Rotation\<close>: users and refresh sessions, the handlers, and what holds of every sequence of requests and of the
    interleaving of two refreshes, as a step relation.
  \<^item> \<open>Hls_Signing\<close>, \<open>Hls_Proxy\<close>, \<open>Streaming\<close>: signed links, playlist rewriting and the proxy, the resolver with its cache, retries and breaker.
  \<^item> \<open>Billing_Store\<close>, \<open>Billing\<close>: the three idempotency stores under one locale, the webhook with its signature check, and what redelivery does.
  \<^item> \<open>Catalog_Store\<close>, \<open>Catalog\<close>, \<open>Catalog_Outbox\<close>, \<open>Search\<close>, \<open>Meili\<close>: the catalog's tables and service, the outbox publisher, the indexer and the queries, and the
    engine's client. Every write is announced, nothing that was marked is lost, and the index catches up.
  \<^item> \<open>Ingestion_Queue\<close>, \<open>Ingestion_Jobs\<close>: the job queue with back-off and dead letters, the providers' clients, and the jobs.
  \<^item> \<open>Bff_Guards\<close>, \<open>Bff_Social\<close>, \<open>Bff_Reads\<close>, \<open>Bff_Auth\<close>, \<open>Bff_Jikan\<close>: the gateway's rate limiter and cache, and its handlers over the models of the services they call.
  \<^item> \<open>Analytics\<close>: publishing, decoding and dispatching of analytics events.
  \<^item> \<open>Config\<close>, \<open>Platform\<close>, \<open>Startup\<close>: the loaders of every service's environment, the platform's HTTP, database, runner and ticker packages, and every main function
    up to its running servers, with the choice of stores in and outside production, and how the processes end.
  \<^item> \<open>Gateway\<close>: the gateway's routes with their guards and limiters; what holds of a deployment of gateway and auth service together.
  \<^item> \<open>Playback\<close>: gateway, resolver and proxy of one deployment: the link of a watch answer plays.
  \<^item> \<open>Workers\<close>: the background workers: streams, subscriptions and fetch loops around the handlers above, under the locale of handlers that a process survives,
    interpreted for the comment, progress, analytics and job loops.
  \<^item> \<open>Comment_Pipeline\<close>: gateway, stream and comment consumer as one step relation; no accepted write is lost or doubled along its runs.

  \<^bold>\<open>State and errors.\<close> A table is the list of its rows; a handler takes the database and returns it with its answer. Every statement of a request can fail: the
  field \<open>fault\<close> of its \<open>ctx\<close> says which, so the theorems hold for every pattern of failures. A Go error is a value of a sum or option type, and a nil
  dereference is a verdict of its own. Integers have the width of the code where overflow can matter (votes, limits, offsets, retry delays, durations); times are
  nanoseconds as integers, cut to microseconds by Postgres.

  \<^bold>\<open>Parameters.\<close> Code outside the repository is an argument: HMAC, SHA-256, bcrypt and the JWT library; JSON encoding and decoding; HTTP exchanges; JetStream; the
  circuit breaker; SQL's \<open>lower\<close>, \<open>uuid\<close> and timestamp casts; the fraction of a duration, which Go computes in \<open>float64\<close>. What the code relies on is a named
  hypothesis (\<open>jwt_law\<close>, \<open>json_law\<close>, \<open>broker_law\<close>, \<open>calm_index\<close> and others), with an instance in the witness of the theorem.

  \<^bold>\<open>Bounds.\<close> \<open>db_Open\<close> has fuel 102: with pauses of 300 milliseconds the deadline of 30 seconds has passed by then, as its theorem shows. A job of the
  ingestion is followed for six deliveries, one more than the worker allows. The outbox is flushed often enough for the rows that are pending. All other
  recursions are structural or have a termination proof.

  \<^bold>\<open>What the theorems show.\<close> Completeness of paging; agreement of the stores, of the two APIs and of synchronous and asynchronous writes; exactly-once effects of
  events, from the gateway to the tables, and at-most-once publishing of payments; single use of refresh tokens in sequence, and its failure when two refreshes interleave; no access without a token or a
  signed link; bounds on rates; delivery from catalog to index; that starts fail fast and that production keeps nothing in memory only. Some theorems state
  behaviour the code probably does not intend: a vote that blocks its batch forever, a failed webhook that is never retried, two successors of one refresh token.

  \<^bold>\<open>Not modelled.\<close> The generated gRPC code and the dialling of gRPC connections; the CORS library and path matching of the router; what is logged;
  the queue inside the PostHog library; rounding of \<open>float64\<close> in the rate limiter, whose tokens are exact rationals here; concurrency inside one process other
  than the interleavings named above.
\<close>

end
